(* ===== verification/Prelude.thy ===== *)
theory Prelude
  imports Main
begin

text \<open>
  Shared ground of the development.

  \<^item> \<open>go_defs\<close> collects the unfolding equations of small model definitions, and
    \<open>prog_simps\<close> the rewrite rules of the effect trees of theory Effects; component
    proofs add them with \<open>simp add: go_defs\<close>.
  \<^item> A Go \<open>string\<close> is a byte sequence, which is what HOL's \<open>string\<close> is (a list of
    8-bit \<open>char\<close>); \<open>len\<close> counts bytes in both.
  \<^item> A Go \<open>int\<close> (64 bits on every platform the service is built for) is an \<open>int\<close>.
    The only arithmetic the service does on one is \<open>++\<close> on a request counter, the
    negation of a quantity that was checked to be positive, and comparison; none of them
    can leave the 64-bit range from a value inside it, except a counter that has been
    incremented \<open>2 ^ 63\<close> times.
\<close>

named_theorems go_defs "defining equations unfolded in component proofs"
named_theorems prog_simps "equations of the effect trees and their runs"

subsection \<open>Decimal rendering (the verb %d of fmt)\<close>

definition digit_char :: "nat \<Rightarrow> char" where
  "digit_char n = char_of (48 + n)"

fun show_nat :: "nat \<Rightarrow> string" where
  "show_nat n = (if n < 10 then [digit_char n] else show_nat (n div 10) @ [digit_char (n mod 10)])"

declare show_nat.simps [simp del]

definition show_int :: "int \<Rightarrow> string" where
  "show_int i = (if i < 0 then CHR ''-'' # show_nat (nat (- i)) else show_nat (nat i))"

lemma show_nat_nonempty [simp]: "show_nat n \<noteq> []"
  by (subst show_nat.simps) simp

lemma digit_char_inj: "a < 10 \<Longrightarrow> b < 10 \<Longrightarrow> digit_char a = digit_char b \<Longrightarrow> a = b"
  by (simp add: digit_char_def)

lemma digit_char_not_minus: "n < 10 \<Longrightarrow> digit_char n \<noteq> CHR ''-''"
proof
  assume n: "n < 10" and "digit_char n = CHR ''-''"
  then have "of_char (digit_char n) = (of_char (CHR ''-'') :: nat)" by simp
  with n show False by (simp add: digit_char_def)
qed

lemma show_nat_inj: "show_nat m = show_nat n \<Longrightarrow> m = n"
proof (induction m arbitrary: n rule: less_induct)
  case (less m)
  show ?case
  proof (cases "m < 10 \<or> n < 10")
    case True
    with less.prems show ?thesis
      by (auto simp: show_nat.simps [of m] show_nat.simps [of n] digit_char_inj
          append_eq_Cons_conv Cons_eq_append_conv split: if_splits)
  next
    case False
    with less.prems have "show_nat (m div 10) = show_nat (n div 10)"
      and "digit_char (m mod 10) = digit_char (n mod 10)"
      by (simp_all add: show_nat.simps [of m] show_nat.simps [of n])
    then have "m div 10 = n div 10" and "m mod 10 = n mod 10"
      using False less.IH [of "m div 10" "n div 10"] by (auto intro: digit_char_inj)
    then show ?thesis by (metis div_mult_mod_eq)
  qed
qed

lemma show_nat_no_minus: "CHR ''-'' \<notin> set (show_nat n)"
proof (induction n rule: less_induct)
  case (less n)
  have d: "CHR ''-'' \<noteq> digit_char k" if "k < 10" for k
    using digit_char_not_minus [OF that] by simp
  show ?case
    using less.IH [of "n div 10"] d [of n] d [of "n mod 10"] by (subst show_nat.simps) auto
qed

lemma show_int_inj: "show_int i = show_int j \<Longrightarrow> i = j"
  using show_nat_no_minus [of "nat i"] show_nat_no_minus [of "nat j"]
  by (auto simp: show_int_def dest: show_nat_inj split: if_splits) (metis list.set_intros(1))+

lemma numerals:
  "show_int 0 = ''0''" "show_int 5 = ''5''" "show_int 10 = ''10''" "show_int 15 = ''15''" "show_int 60 = ''60''"
  "show_int 100 = ''100''" "show_int 8080 = ''8080''" "show_int 50051 = ''50051''" "show_int 5672 = ''5672''"
  "show_int 4317 = ''4317''" "show_int 13133 = ''13133''"
  by (simp_all add: show_int_def show_nat.simps digit_char_def char_of_def bit_0)

subsection \<open>Lists, options and folds\<close>

text \<open>The first element satisfying a test, with its position replaced: what a server does
  that applies an update to the first matching document.\<close>

fun update_first :: "('a \<Rightarrow> bool) \<Rightarrow> ('a \<Rightarrow> 'a) \<Rightarrow> 'a list \<Rightarrow> 'a list" where
  "update_first P f [] = []"
| "update_first P f (x # xs) = (if P x then f x # xs else x # update_first P f xs)"

lemma update_first_no_match [simp]: "\<forall>x \<in> set xs. \<not> P x \<Longrightarrow> update_first P f xs = xs"
  by (induction xs) auto

lemma length_update_first [simp]: "length (update_first P f xs) = length xs"
  by (induction xs) auto

lemma update_first_singleton [simp]:
  "update_first P f [x] = (if P x then [f x] else [x])"
  by simp

lemma find_None_no_match: "List.find P xs = None \<longleftrightarrow> (\<forall>x \<in> set xs. \<not> P x)"
  by (induction xs) auto

lemma find_update_first_other:
  "(\<And>x. x \<in> set xs \<Longrightarrow> P x \<Longrightarrow> \<not> Q x \<and> \<not> Q (f x)) \<Longrightarrow> List.find Q (update_first P f xs) = List.find Q xs"
  by (induction xs) auto

lemma find_update_first_same:
  "List.find P xs = Some x \<Longrightarrow> P y \<Longrightarrow> List.find P (update_first P (\<lambda>_. y) xs) = Some y"
  by (induction xs) (auto split: if_splits)

lemma find_SomeD: "List.find P xs = Some x \<Longrightarrow> x \<in> set xs \<and> P x"
  by (induction xs) (auto split: if_splits)

end
