(* ===== verification/Errors.thy ===== *)
theory Errors
  imports Prelude
begin

text \<open>
  The error values of the service: the structs of
  \<^verbatim>\<open>internal/domain/errors\<close>, one constructor each, their \<open>Error()\<close> texts, and
  \<open>errors.As\<close> for the one target the handlers ask for. Errors that come from a library or
  from \<open>errors.New\<close> are \<open>ErrorString\<close>; \<open>fmt.Errorf\<close> with \<open>%w\<close> is \<open>WrapError\<close>
  (the text before the wrapped error, and the error itself); the sentinel
  \<open>mongo.ErrNoDocuments\<close> is a constructor of its own because the code compares with it.
\<close>

datatype go_error =
    ErrValidationConstrain (Field: string) (Message: string)
  | DbUnexpectedErr (DbMsg: string) (DbErr: go_error)
  | CorruptedDataErr (CorruptErr: go_error)
  | ErrCottageDoesNotExist (CottageName: string)
  | ErrStockDoesNotExist
  | StockInsufficientQuantityErr (ItemName: string) (Requested: int)
  | CottageCleaningStatusNotUpdatedErr (NotUpdatedCottage: string)
  | StockItemQuantityNotUpdatedErr (NotUpdatedItem: string)
  | MqUnexpectedErr (MqMsg: string) (MqErr: go_error)
  | ErrNoDocuments
  | ErrorString string
  | WrapError string go_error

subsection \<open>The text of an error\<close>

primrec Error_db :: "go_error \<Rightarrow> string" where
  "Error_db (ErrValidationConstrain f m) = f @ '' has violations; '' @ m"
| "Error_db (DbUnexpectedErr m e) = ''unexpected error, '' @ m @ '': '' @ Error_db e"
| "Error_db (CorruptedDataErr e) = ''database contains inconsistent cottage data: '' @ Error_db e"
| "Error_db (ErrCottageDoesNotExist n) = ''Cottage with name '' @ n @ '' does not exist''"
| "Error_db ErrStockDoesNotExist = ''Could not find stock collection''"
| "Error_db (StockInsufficientQuantityErr i q) =
     ''Stock for item '' @ i @ '' is insufficient, '' @ show_int q @ '' requested''"
| "Error_db (CottageCleaningStatusNotUpdatedErr n) =
     ''could not update cleaningStatus for cottage '' @ n"
| "Error_db (StockItemQuantityNotUpdatedErr i) = ''could not update quantity for item '' @ i"
| "Error_db (MqUnexpectedErr m e) = ''unexpected error, '' @ m @ '': '' @ Error_db e"
| "Error_db ErrNoDocuments = ''mongo: no documents in result''"
| "Error_db (ErrorString s) = s"
| "Error_db (WrapError p e) = p @ Error_db e"

subsection \<open>Unwrapping and errors.As\<close>

text \<open>
  \<open>errors.As\<close> walks the chain given by \<open>Unwrap\<close>. Of the structs only
  \<open>mqErrors.UnexpectedErr\<close> has that method (so has the value \<open>fmt.Errorf\<close> builds for
  \<open>%w\<close>); \<open>dbErrors.UnexpectedErr\<close> and \<open>CorruptedDataErr\<close> hide what they hold.
\<close>

fun Unwrap :: "go_error \<Rightarrow> go_error option" where
  "Unwrap (MqUnexpectedErr m e) = Some e"
| "Unwrap (WrapError p e) = Some e"
| "Unwrap _ = None"

fun errors_As_stock :: "go_error \<Rightarrow> go_error option" where
  "errors_As_stock (StockInsufficientQuantityErr i q) = Some (StockInsufficientQuantityErr i q)"
| "errors_As_stock (MqUnexpectedErr m e) = errors_As_stock e"
| "errors_As_stock (WrapError p e) = errors_As_stock e"
| "errors_As_stock _ = None"

lemma errors_As_stock_unfold:
  "errors_As_stock e =
     (case e of StockInsufficientQuantityErr i q \<Rightarrow> Some e
      | _ \<Rightarrow> (case Unwrap e of None \<Rightarrow> None | Some e' \<Rightarrow> errors_As_stock e'))"
  by (cases e) auto

lemma errors_As_stock_Some:
  "errors_As_stock e = Some s \<Longrightarrow> \<exists>i q. s = StockInsufficientQuantityErr i q"
  by (induction e) auto

lemma errors_As_stock_shape [simp]:
  "errors_As_stock e \<noteq> Some (DbUnexpectedErr m e')"
  "errors_As_stock e \<noteq> Some ErrStockDoesNotExist"
  by (auto dest: errors_As_stock_Some)

text \<open>\<open>errors.Is(err, mongo.ErrNoDocuments)\<close> walks the same chain.\<close>

fun errors_Is_noDocuments :: "go_error \<Rightarrow> bool" where
  "errors_Is_noDocuments ErrNoDocuments = True"
| "errors_Is_noDocuments (MqUnexpectedErr m e) = errors_Is_noDocuments e"
| "errors_Is_noDocuments (WrapError p e) = errors_Is_noDocuments e"
| "errors_Is_noDocuments _ = False"

end
