(* ===== verification/Validation.thy ===== *)
theory Validation
  imports Errors
begin

text \<open>
  \<^verbatim>\<open>internal/app/validation\<close>: a builder that collects checks and runs them in order.
  A check is a closure over values fixed when it is added, so it is modelled by what it
  returns; a check may also panic (\<open>reflect.ValueOf(nil).IsZero()\<close>), and because
  \<open>Validate\<close> stops at the first error a later check that would panic is not reached.
\<close>

datatype outcome = Pass | Fail go_error | Panic string

record Validator =
  steps :: "outcome list"

definition New :: Validator where
  "New = \<lparr>steps = []\<rparr>"

fun run_steps :: "outcome list \<Rightarrow> outcome" where
  "run_steps [] = Pass"
| "run_steps (Pass # ss) = run_steps ss"
| "run_steps (Fail e # ss) = Fail e"
| "run_steps (Panic p # ss) = Panic p"

definition Validate :: "Validator \<Rightarrow> outcome" where
  "Validate v = run_steps (steps v)"

definition add_step :: "outcome \<Rightarrow> Validator \<Rightarrow> Validator" where
  "add_step s v = v\<lparr>steps := steps v @ [s]\<rparr>"

lemma run_steps_append:
  "run_steps (xs @ ys) = (case run_steps xs of Pass \<Rightarrow> run_steps ys | r \<Rightarrow> r)"
  by (induction xs rule: run_steps.induct) auto

lemma Validate_New [simp]: "Validate New = Pass"
  by (simp add: Validate_def New_def)

lemma Validate_add_step [simp]:
  "Validate (add_step s v) = (case Validate v of Pass \<Rightarrow> s | r \<Rightarrow> r)"
  by (cases s) (simp_all add: Validate_def add_step_def run_steps_append split: outcome.splits)

lemma Validate_Pass_iff: "Validate v = Pass \<longleftrightarrow> set (steps v) \<subseteq> {Pass}"
proof -
  have "run_steps ss = Pass \<longleftrightarrow> set ss \<subseteq> {Pass}" for ss
    by (induction ss rule: run_steps.induct) auto
  then show ?thesis by (simp add: Validate_def)
qed

text \<open>A validation result as the error a method returns. The checks used here cannot panic.\<close>

definition outcome_error :: "outcome \<Rightarrow> go_error option" where
  "outcome_error r = (case r of Pass \<Rightarrow> None | Fail e \<Rightarrow> Some e | Panic p \<Rightarrow> Some (ErrorString p))"

text \<open>The result of a call that may return an error or panic, and a constructor that validates first.\<close>

datatype 'a go_result = Ok 'a | Err go_error | Panicked string

definition validated :: "Validator \<Rightarrow> 'a \<Rightarrow> 'a go_result" where
  "validated v x = (case Validate v of Pass \<Rightarrow> Ok x | Fail e \<Rightarrow> Err e | Panic p \<Rightarrow> Panicked p)"

subsection \<open>strings.TrimSpace on bytes\<close>

text \<open>
  A byte string encodes one white-space rune of \<open>unicode.IsSpace\<close>: tab, line feed,
  vertical tab, form feed, carriage return, space, U+0085, U+00A0, U+1680, U+2000 to U+200A,
  U+2028, U+2029, U+202F, U+205F, U+3000.
\<close>

fun space_bytes :: "nat list \<Rightarrow> bool" where
  "space_bytes [a] = (a \<in> {9, 10, 11, 12, 13, 32})"
| "space_bytes [a, b] = (a = 0xC2 \<and> (b = 0x85 \<or> b = 0xA0))"
| "space_bytes [a, b, c] =
     (a = 0xE1 \<and> b = 0x9A \<and> c = 0x80 \<or>
      a = 0xE2 \<and> b = 0x80 \<and> (0x80 \<le> c \<and> c \<le> 0x8A \<or> c = 0xA8 \<or> c = 0xA9 \<or> c = 0xAF) \<or>
      a = 0xE2 \<and> b = 0x81 \<and> c = 0x9F \<or>
      a = 0xE3 \<and> b = 0x80 \<and> c = 0x80)"
| "space_bytes _ = False"

definition space_rune :: "string \<Rightarrow> bool" where
  "space_rune s = space_bytes (map of_char s)"

text \<open>The width of the block of one to three bytes in front that satisfies a test.\<close>

definition front_block :: "(string \<Rightarrow> bool) \<Rightarrow> string \<Rightarrow> nat option" where
  "front_block R s = List.find (\<lambda>w. w \<le> length s \<and> R (take w s)) [1, 2, 3]"

lemma front_block_Some:
  "front_block R s = Some w \<Longrightarrow> 0 < w \<and> w \<le> length s \<and> R (take w s)"
  by (auto simp: front_block_def split: if_splits)

lemma front_block_None:
  "front_block R s = None \<longleftrightarrow> (\<forall>k \<in> {1, 2, 3}. \<not> (k \<le> length s \<and> R (take k s)))"
  unfolding front_block_def find_None_no_match by simp

function trim_front :: "(string \<Rightarrow> bool) \<Rightarrow> string \<Rightarrow> string" where
  "trim_front R s =
     (case front_block R s of None \<Rightarrow> s | Some w \<Rightarrow> trim_front R (drop w s))"
  by pat_completeness auto
termination
  by (relation "measure (\<lambda>(R, s). length s)") (auto dest: front_block_Some)

declare trim_front.simps [simp del]

definition TrimSpace :: "string \<Rightarrow> string" where
  "TrimSpace s = rev (trim_front (space_rune \<circ> rev) (rev (trim_front space_rune s)))"

text \<open>What \<open>TrimSpace value == ""\<close> decides: the value is a sequence of white-space runes.\<close>

definition blank :: "string \<Rightarrow> bool" where
  "blank s \<longleftrightarrow> (\<exists>ws. (\<forall>w \<in> set ws. space_rune w) \<and> s = concat ws)"

lemma space_bytes_head:
  "space_bytes (a # w) \<Longrightarrow> length w = (if a < 128 then 0 else if a = 0xC2 then 1 else 2)"
  by (cases "a # w" rule: space_bytes.cases) auto

lemma space_rune_Cons_cases:
  assumes "space_rune w" and "space_rune v" and "w @ s = v @ t"
  shows "w = v"
proof -
  from assms(1,2) obtain a w' b v' where wv: "w = a # w'" "v = b # v'"
    by (cases w; cases v) (auto simp: space_rune_def)
  with assms have "a = b" "length w' = length v'"
    using space_bytes_head [of "of_char a" "map of_char w'"] space_bytes_head [of "of_char b" "map of_char v'"]
    by (simp_all add: space_rune_def)
  with wv assms(3) show ?thesis by simp
qed

lemma space_rune_width: "space_rune w \<Longrightarrow> length w \<in> {1, 2, 3}"
  by (cases "map of_char w :: nat list" rule: space_bytes.cases) (auto simp: space_rune_def)

lemma front_block_space:
  assumes "space_rune w"
  shows "front_block space_rune (w @ s) = Some (length w)"
proof -
  have "length w \<le> length (w @ s) \<and> space_rune (take (length w) (w @ s))"
    using assms by simp
  then have "front_block space_rune (w @ s) \<noteq> None"
    using space_rune_width [OF assms] front_block_None by blast
  then obtain k where k: "front_block space_rune (w @ s) = Some k" by blast
  from front_block_Some [OF k] have "space_rune (take k (w @ s))" by blast
  then have "take k (w @ s) = w"
    by (rule space_rune_Cons_cases [OF _ assms append_take_drop_id])
  then have "k = length w"
    using front_block_Some [OF k] by (metis length_take min.absorb2)
  with k show ?thesis by simp
qed

lemma trim_front_blank: "\<forall>w \<in> set ws. space_rune w \<Longrightarrow> trim_front space_rune (concat ws) = []"
proof (induction ws)
  case Nil
  show ?case by (subst trim_front.simps) (simp add: front_block_def)
next
  case (Cons w ws)
  then show ?case
    by (subst trim_front.simps) (simp add: front_block_space)
qed

lemma trim_front_split:
  "\<exists>ws. (\<forall>w \<in> set ws. R w) \<and> s = concat ws @ trim_front R s"
proof (induction R s rule: trim_front.induct)
  case (1 R s)
  show ?case
  proof (cases "front_block R s")
    case None
    then show ?thesis by (intro exI [of _ "[]"]) (simp add: trim_front.simps [of R s])
  next
    case (Some w)
    from "1.IH" [OF Some] obtain ws where "\<forall>v \<in> set ws. R v"
      and "drop w s = concat ws @ trim_front R (drop w s)" by blast
    then have "s = concat (take w s # ws) @ trim_front R (drop w s)"
      by (metis append_assoc append_take_drop_id concat.simps(2))
    moreover from front_block_Some [OF Some] \<open>\<forall>v \<in> set ws. R v\<close>
    have "\<forall>v \<in> set (take w s # ws). R v" by simp
    moreover have "trim_front R s = trim_front R (drop w s)"
      by (simp add: trim_front.simps [of R s] Some)
    ultimately show ?thesis by metis
  qed
qed

lemma rev_concat_rev: "rev (concat ws) = concat (map rev (rev ws))"
  by (induction ws) auto

lemma TrimSpace_empty_iff: "TrimSpace s = [] \<longleftrightarrow> blank s"
proof
  assume "blank s"
  then have "trim_front space_rune s = []" by (auto simp: blank_def trim_front_blank)
  then show "TrimSpace s = []"
    by (simp add: TrimSpace_def) (subst trim_front.simps, simp add: front_block_def)
next
  assume "TrimSpace s = []"
  let ?l = "trim_front space_rune s"
  from \<open>TrimSpace s = []\<close> have e: "trim_front (space_rune \<circ> rev) (rev ?l) = []"
    by (simp add: TrimSpace_def)
  obtain us where us: "\<forall>w \<in> set us. space_rune w" "s = concat us @ ?l"
    using trim_front_split [of space_rune s] by blast
  obtain vs where vs: "\<forall>w \<in> set vs. space_rune (rev w)" "rev ?l = concat vs"
    using trim_front_split [of "space_rune \<circ> rev" "rev ?l"] e by auto
  from vs(2) have "?l = concat (map rev (rev vs))" by (metis rev_concat_rev rev_rev_ident)
  with us vs(1) show "blank s"
    unfolding blank_def by (intro exI [of _ "us @ map rev (rev vs)"]) auto
qed

subsection \<open>basic_validation.go\<close>

text \<open>
  A value passed as \<open>any\<close> is, for \<open>reflect.ValueOf(value).IsZero()\<close>, one of three: the nil
  interface (\<open>reflect.ValueOf\<close> then returns the invalid \<open>Value\<close>, whose \<open>IsZero\<close> panics),
  an interface holding the zero value of its type (a typed nil pointer, a nil channel), or
  any other value.
\<close>

datatype go_any = NilInterface | ZeroOfType | NonZero

fun reflect_IsZero :: "go_any \<Rightarrow> bool option" where
  "reflect_IsZero NilInterface = None"
| "reflect_IsZero ZeroOfType = Some True"
| "reflect_IsZero NonZero = Some False"

definition NotBlank :: "string \<Rightarrow> string \<Rightarrow> Validator \<Rightarrow> Validator" where
  "NotBlank field val =
     add_step (if TrimSpace val = '''' then Fail (ErrValidationConstrain field ''must not be blank'')
               else Pass)"

definition NotZeroValue :: "string \<Rightarrow> go_any \<Rightarrow> Validator \<Rightarrow> Validator" where
  "NotZeroValue field val =
     add_step (case reflect_IsZero val of
         None \<Rightarrow> Panic ''reflect: call of reflect.Value.IsZero on zero Value''
       | Some True \<Rightarrow> Fail (ErrValidationConstrain field ''must not be zero value'')
       | Some False \<Rightarrow> Pass)"

definition PositiveValue :: "string \<Rightarrow> int \<Rightarrow> Validator \<Rightarrow> Validator" where
  "PositiveValue field val =
     add_step (if val \<le> 0 then Fail (ErrValidationConstrain field ''must be greater than 0'')
               else Pass)"

subsection \<open>app_validation.go\<close>

definition splits_at :: "char \<Rightarrow> string \<Rightarrow> (string \<times> string) list" where
  "splits_at c s = map (\<lambda>i. (take i s, drop (Suc i) s)) (List.filter (\<lambda>i. s ! i = c) [0..<length s])"

definition between :: "char \<Rightarrow> char \<Rightarrow> char \<Rightarrow> bool" where
  "between lo hi c \<longleftrightarrow> (of_char lo :: nat) \<le> of_char c \<and> (of_char c :: nat) \<le> of_char hi"

definition letter :: "char \<Rightarrow> bool" where
  "letter c \<longleftrightarrow> between (CHR ''a'') (CHR ''z'') c \<or> between (CHR ''A'') (CHR ''Z'') c"

definition alphanumeric :: "char \<Rightarrow> bool" where
  "alphanumeric c \<longleftrightarrow> letter c \<or> between (CHR ''0'') (CHR ''9'') c"

text \<open>
  \<^verbatim>\<open>^[a-zA-Z0-9._%+\-]+@[a-zA-Z0-9.\-]+\.[A-Za-z]{2,}$\<close>. The classes are ASCII, so
  matching runes and matching bytes agree.
\<close>

definition emailRe :: "string \<Rightarrow> bool" where
  "emailRe s =
     list_ex (\<lambda>(l, d).
         l \<noteq> [] \<and> list_all (\<lambda>c. alphanumeric c \<or> c \<in> set ''._%+-'') l \<and>
         list_ex (\<lambda>(h, t).
             h \<noteq> [] \<and> list_all (\<lambda>c. alphanumeric c \<or> c \<in> set ''.-'') h \<and>
             2 \<le> length t \<and> list_all letter t)
           (splits_at (CHR ''.'') d))
       (splits_at (CHR ''@'') s)"

definition EmailFormat :: "string \<Rightarrow> Validator \<Rightarrow> Validator" where
  "EmailFormat email =
     add_step (if \<not> emailRe email then Fail (ErrValidationConstrain ''email'' ''email not valid'')
               else Pass)"

definition CleaningRequest_check :: "string \<Rightarrow> Validator \<Rightarrow> Validator" where
  "CleaningRequest_check request =
     add_step (if request \<noteq> ''DO_NOT_DISTURB'' \<and> request \<noteq> ''CLEAN''
               then Fail (ErrValidationConstrain ''request'' ''must be either DO_NOT_DISTURB or CLEAN'')
               else Pass)"

text \<open>Instants are integers here (nanoseconds); \<open>After\<close> and \<open>Equal\<close> compare them.\<close>

definition Period :: "int \<Rightarrow> int \<Rightarrow> Validator \<Rightarrow> Validator" where
  "Period start finish =
     add_step (if start > finish \<or> start = finish
               then Fail (ErrValidationConstrain ''start'' ''start date must be before end date'')
               else Pass)"

subsection \<open>rabbitmq_validation.go\<close>

text \<open>\<^verbatim>\<open>^ex\.[A-Za-z0-9_-]+$\<close>\<close>

definition exchangeNameRe :: "string \<Rightarrow> bool" where
  "exchangeNameRe s \<longleftrightarrow>
     take 3 s = ''ex.'' \<and> drop 3 s \<noteq> [] \<and>
     list_all (\<lambda>c. alphanumeric c \<or> c \<in> set ''_-'') (drop 3 s)"

definition ExchangeName_check :: "string \<Rightarrow> Validator \<Rightarrow> Validator" where
  "ExchangeName_check name =
     add_step (if \<not> exchangeNameRe name
               then Fail (ErrValidationConstrain ''exchangeName'' ''must be in format ex.<name of exchange>'')
               else Pass)"

definition allowedContentTypes :: "string list" where
  "allowedContentTypes = [''application/protobuf'']"

text \<open>The message prints the slice with \<open>%q\<close>: brackets around the quoted names.\<close>

definition AllowedContentType :: "string \<Rightarrow> Validator \<Rightarrow> Validator" where
  "AllowedContentType contentType =
     add_step (if contentType \<notin> set allowedContentTypes
               then Fail (ErrValidationConstrain ''contentType''
                            ''must be of those: [\"application/protobuf\"]'')
               else Pass)"

subsection \<open>mongo_validation.go\<close>

text \<open>
  \<open>NotNilObjectID\<close> compares with \<open>bson.NilObjectID\<close>, twelve zero bytes. The accepted cleaning
  statuses are the four constants of \<^verbatim>\<open>documents/cottage.go\<close>.
\<close>

definition NotNilObjectID :: "string \<Rightarrow> nat list \<Rightarrow> Validator \<Rightarrow> Validator" where
  "NotNilObjectID field oid =
     add_step (if oid = replicate 12 0 then Fail (ErrValidationConstrain field ''must not be nil'')
               else Pass)"

definition CleaningStatusPreparedForGuest :: string where
  "CleaningStatusPreparedForGuest = ''prepared_for_guest''"

definition CleaningStatusDailyCleaned :: string where
  "CleaningStatusDailyCleaned = ''daily_cleaned''"

definition CleaningStatusPreparedForSleep :: string where
  "CleaningStatusPreparedForSleep = ''prepared_for_sleep''"

definition CleaningStatusFullyCleaned :: string where
  "CleaningStatusFullyCleaned = ''fully_cleaned''"

lemmas status_defs =
  CleaningStatusPreparedForGuest_def CleaningStatusDailyCleaned_def
  CleaningStatusPreparedForSleep_def CleaningStatusFullyCleaned_def

definition ValidCleaningStatus :: "string \<Rightarrow> string \<Rightarrow> Validator \<Rightarrow> Validator" where
  "ValidCleaningStatus field status =
     add_step (if status \<in> {CleaningStatusPreparedForGuest, CleaningStatusDailyCleaned,
                            CleaningStatusPreparedForSleep, CleaningStatusFullyCleaned}
               then Pass
               else Fail (ErrValidationConstrain field
                 ''must be one of prepared_for_guest, daily_cleaned, prepared_for_sleep, fully_cleaned''))"

lemmas validator_defs [go_defs] =
  NotBlank_def NotZeroValue_def PositiveValue_def ValidCleaningStatus_def

subsection \<open>What the regular expressions accept\<close>

lemma splits_at_iff: "(l, r) \<in> set (splits_at c s) \<longleftrightarrow> s = l @ c # r"
proof
  assume "(l, r) \<in> set (splits_at c s)"
  then show "s = l @ c # r"
    by (auto simp: splits_at_def id_take_nth_drop)
next
  assume s: "s = l @ c # r"
  then have "length l \<in> set (List.filter (\<lambda>i. s ! i = c) [0..<length s])"
    by (simp add: nth_append)
  moreover from s have "(l, r) = (take (length l) s, drop (Suc (length l)) s)" by simp
  ultimately show "(l, r) \<in> set (splits_at c s)"
    unfolding splits_at_def by (metis (no_types, lifting) image_eqI set_map)
qed

lemma list_ex_splits_at: "list_ex P (splits_at c s) \<longleftrightarrow> (\<exists>l r. s = l @ c # r \<and> P (l, r))"
  unfolding list_ex_iff Bex_def split_paired_Ex splits_at_iff ..

lemma emailRe_iff:
  "emailRe s \<longleftrightarrow>
     (\<exists>l h t. s = l @ CHR ''@'' # h @ CHR ''.'' # t \<and> l \<noteq> [] \<and> h \<noteq> [] \<and> 2 \<le> length t \<and>
        (\<forall>c \<in> set l. alphanumeric c \<or> c \<in> set ''._%+-'') \<and>
        (\<forall>c \<in> set h. alphanumeric c \<or> c \<in> set ''.-'') \<and> (\<forall>c \<in> set t. letter c))"
  unfolding emailRe_def list_ex_splits_at list_all_iff case_prod_conv by blast

lemma NotBlank_outcome:
  "Validate (NotBlank f x v) =
     (case Validate v of
        Pass \<Rightarrow> if blank x then Fail (ErrValidationConstrain f ''must not be blank'') else Pass
      | r \<Rightarrow> r)"
  by (simp add: NotBlank_def TrimSpace_empty_iff)

subsection \<open>Properties\<close>

text \<open>The builder runs its checks in the order in which they were added and answers with the first
  that does not pass; later checks are not evaluated, so they cannot even panic.\<close>

theorem validate_first_failure:
  "Validate (fold add_step ss New) =
     (case dropWhile (\<lambda>s. s = Pass) ss of [] \<Rightarrow> Pass | s # _ \<Rightarrow> s)"
proof -
  have "steps (fold add_step ss v) = steps v @ ss" for v
    by (induction ss arbitrary: v) (simp_all add: add_step_def)
  then have "Validate (fold add_step ss New) = run_steps ss" by (simp add: Validate_def New_def)
  also have "\<dots> = (case dropWhile (\<lambda>s. s = Pass) ss of [] \<Rightarrow> Pass | s # _ \<Rightarrow> s)"
    by (induction ss rule: run_steps.induct) auto
  finally show ?thesis .
qed

text \<open>C36: \<open>NotBlank\<close> rejects exactly the texts that are a sequence of Unicode white-space characters
  in UTF-8, the empty text included: trimming from both ends leaves nothing exactly for those.\<close>

theorem notblank_rejects_white_space:
  "(TrimSpace s = '''') = (\<exists>ws. list_all space_rune ws \<and> s = concat ws) \<and>
   (Validate (NotBlank f s New) = Pass) = (\<nexists>ws. list_all space_rune ws \<and> s = concat ws)"
  using TrimSpace_empty_iff [of s] NotBlank_outcome [of f s New]
  by (auto simp: blank_def list_all_iff)

text \<open>The e-mail pattern as matched: a non-empty local part, an at sign, a non-empty domain, a dot
  and at least two letters, over the pattern's character classes, for some way of splitting the
  text; nothing else passes the check.\<close>

theorem email_check_language:
  "(Validate (EmailFormat s New) = Pass) =
     (\<exists>l h t. s = l @ CHR ''@'' # h @ CHR ''.'' # t \<and> l \<noteq> [] \<and> h \<noteq> [] \<and> 2 \<le> length t \<and>
        list_all (\<lambda>c. alphanumeric c \<or> c \<in> set ''._%+-'') l \<and>
        list_all (\<lambda>c. alphanumeric c \<or> c \<in> set ''.-'') h \<and> list_all letter t)"
proof -
  have "(Validate (EmailFormat s New) = Pass) = emailRe s" by (simp add: EmailFormat_def)
  then show ?thesis unfolding emailRe_iff list_all_iff .
qed

end
