(* ===== verification/Domain.thy ===== *)
theory Domain
  imports Validation "HOL-Library.Multiset"
begin

text \<open>
  \<^verbatim>\<open>internal/domain\<close>: the three kinds of request, the generic set, the stock
  document, and time as the handlers use it.
\<close>

datatype level = Debug | Info | Warn | Error

subsection \<open>Requests (request.go)\<close>

record CleaningRequest =
  RoomName :: string
  RequestType :: string

record WashRequest =
  WashRoomName :: string
  Item :: string

record RestockRequest =
  ItemsName :: "string list"

text \<open>The zero value of each, which \<open>setEmployeeIdleStatus\<close> stores (\<open>var emptyRequest R\<close>).\<close>

definition empty_cleaning :: CleaningRequest where
  "empty_cleaning = \<lparr>RoomName = '''', RequestType = ''''\<rparr>"

definition empty_wash :: WashRequest where
  "empty_wash = \<lparr>WashRoomName = '''', Item = ''''\<rparr>"

definition empty_restock :: RestockRequest where
  "empty_restock = \<lparr>ItemsName = []\<rparr>"

subsection \<open>The generic set (set_datatype.go)\<close>

text \<open>
  \<open>items map[T]struct{}\<close> is a map to \<open>unit\<close>. Go iterates over a map in an unspecified order,
  so \<open>Values\<close> is a relation: any list that holds each key once.
\<close>

record 'a Set =
  items :: "'a \<rightharpoonup> unit"

definition NewSet :: "'a Set" where
  "NewSet = \<lparr>items = Map.empty\<rparr>"

definition Add :: "'a \<Rightarrow> 'a Set \<Rightarrow> 'a Set" where
  "Add item s = s\<lparr>items := (items s)(item \<mapsto> ())\<rparr>"

definition Remove :: "'a \<Rightarrow> 'a Set \<Rightarrow> 'a Set" where
  "Remove item s = s\<lparr>items := (items s)(item := None)\<rparr>"

definition Values :: "'a Set \<Rightarrow> 'a list \<Rightarrow> bool" where
  "Values s vs \<longleftrightarrow> distinct vs \<and> set vs = dom (items s)"

definition set_of :: "'a Set \<Rightarrow> 'a set" where
  "set_of s = dom (items s)"

lemma set_of_simps [simp]:
  "set_of NewSet = {}"
  "set_of (Add x s) = insert x (set_of s)"
  "set_of (Remove x s) = set_of s - {x}"
  by (auto simp: set_of_def NewSet_def Add_def Remove_def)

lemma Values_iff: "Values s vs \<longleftrightarrow> distinct vs \<and> set vs = set_of s"
  by (simp add: Values_def set_of_def)

lemma Values_exists: "finite (set_of s) \<Longrightarrow> \<exists>vs. Values s vs"
  by (auto simp: Values_iff dest: finite_distinct_list)

lemma set_eq_iff_items: "s = t \<longleftrightarrow> set_of s = set_of (t :: 'a Set)"
proof
  assume "set_of s = set_of t"
  then have "items s x = None \<longleftrightarrow> items t x = None" for x
    unfolding set_of_def by (metis domIff)
  then have "items s x = items t x" for x
    by (cases "items s x"; cases "items t x") (metis option.distinct(1) unit.exhaust option.inject)+
  then have "items s = items t" by (rule ext)
  then show "s = t" by simp
qed simp

text \<open>Two duplicate-free enumerations of one set are permutations of each other, which is all
  that an unspecified iteration order can do.\<close>

lemma Values_perm: "Values s vs \<Longrightarrow> Values s ws \<Longrightarrow> mset vs = mset ws"
  by (metis Values_iff set_eq_iff_mset_eq_distinct)

subsection \<open>Stock (documents/stock.go)\<close>

definition CleaningItem :: string where "CleaningItem = ''cleaningItem''"
definition Soap :: string where "Soap = ''soap''"
definition BathroomAmenities :: string where "BathroomAmenities = ''bathroomAmenities''"
definition AromaCandle :: string where "AromaCandle = ''aromaCandle''"
definition WaterBottle :: string where "WaterBottle = ''waterBottle''"
definition WineBottle :: string where "WineBottle = ''wineBottle''"
definition TeaBags :: string where "TeaBags = ''teaBags''"
definition Sweets :: string where "Sweets = ''sweets''"
definition Chips :: string where "Chips = ''chips''"

lemmas item_defs =
  CleaningItem_def Soap_def BathroomAmenities_def AromaCandle_def WaterBottle_def
  WineBottle_def TeaBags_def Sweets_def Chips_def

definition ManagedStockItemNames :: "string list" where
  "ManagedStockItemNames =
     [CleaningItem, Soap, BathroomAmenities, AromaCandle, WaterBottle, WineBottle, TeaBags,
      Sweets, Chips]"

record StockItem =
  Name :: string
  Quantity :: int

record Stock =
  StockId :: string
  CleaningItems_f :: StockItem
  Soap_f :: StockItem
  BathroomAmenities_f :: StockItem
  AromaCandles_f :: StockItem
  WaterBottle_f :: StockItem
  WineBottle_f :: StockItem
  TeaBags_f :: StockItem
  Sweets_f :: StockItem
  Chips_f :: StockItem

text \<open>The bson tag of each field.\<close>

definition stock_tags :: "(string \<times> (Stock \<Rightarrow> StockItem)) list" where
  "stock_tags =
     [(''cleaning_items'', CleaningItems_f), (''soap'', Soap_f),
      (''bathroom_amenities'', BathroomAmenities_f), (''aroma_candles'', AromaCandles_f),
      (''water_bottle'', WaterBottle_f), (''wine_bottle'', WineBottle_f),
      (''tea_bags'', TeaBags_f), (''sweets'', Sweets_f), (''chips'', Chips_f)]"

definition AsMap :: "Stock \<Rightarrow> string \<rightharpoonup> StockItem" where
  "AsMap s =
     [CleaningItem \<mapsto> CleaningItems_f s, Soap \<mapsto> Soap_f s,
      BathroomAmenities \<mapsto> BathroomAmenities_f s, AromaCandle \<mapsto> AromaCandles_f s,
      WaterBottle \<mapsto> WaterBottle_f s, WineBottle \<mapsto> WineBottle_f s, TeaBags \<mapsto> TeaBags_f s,
      Sweets \<mapsto> Sweets_f s, Chips \<mapsto> Chips_f s]"

lemma ManagedStockItemNames_distinct [simp]: "distinct ManagedStockItemNames"
  by (simp add: ManagedStockItemNames_def item_defs)

lemma ManagedStockItemNames_length [simp]: "length ManagedStockItemNames = 9"
  by (simp add: ManagedStockItemNames_def)

lemma dom_AsMap: "dom (AsMap s) = set ManagedStockItemNames"
  unfolding AsMap_def ManagedStockItemNames_def by (simp only: dom_fun_upd option.distinct if_False dom_empty list.set) blast

subsection \<open>Time\<close>

text \<open>
  A \<open>time.Time\<close> is the instant it denotes, in nanoseconds since the Unix epoch (the values
  the service handles come from \<open>Timestamp.AsTime\<close>, in UTC and without a monotonic reading).
  \<open>time.Time{}\<close> is the first instant of year 1. A \<open>time.Duration\<close> is a signed 64-bit count of
  nanoseconds; \<open>Sub\<close> saturates at its bounds.
\<close>

type_synonym time = int

definition zeroTime :: time where
  "zeroTime = - 62135596800 * 10 ^ 9"

definition Sub :: "time \<Rightarrow> time \<Rightarrow> int" where
  "Sub t u = max (- (2 ^ 63)) (min (2 ^ 63 - 1) (t - u))"

definition Hour :: int where
  "Hour = 3600 * 10 ^ 9"

text \<open>
  \<open>Hours()\<close> is \<open>float64(d / Hour) + float64(d % Hour) / (60*60*1e9)\<close>, with Go's truncated
  division. The launderer only asks whether it is at least a whole number of hours \<open>h\<close> (1 or
  2). With \<open>d / Hour \<ge> h\<close> the sum is at least \<open>h\<close> by monotonicity of rounding. Otherwise
  the fraction is at most \<open>1 - 1 / (3600 * 10^9)\<close>, which is further below 1 than any rounding
  of numbers of this size reaches (\<open>2 ^ -50\<close>), so the sum stays below \<open>h\<close>. Comparing exactly
  therefore gives the comparison's result.
\<close>

definition quot_trunc :: "int \<Rightarrow> int \<Rightarrow> int" where
  "quot_trunc a b = sgn a * sgn b * (\<bar>a\<bar> div \<bar>b\<bar>)"

definition Hours_at_least :: "int \<Rightarrow> int \<Rightarrow> bool" where
  "Hours_at_least d h \<longleftrightarrow>
     (let hour = quot_trunc d Hour; nsec = d - hour * Hour in h * Hour \<le> hour * Hour + nsec)"

lemma Hours_at_least_iff: "Hours_at_least d h \<longleftrightarrow> h * Hour \<le> d"
  by (simp add: Hours_at_least_def Let_def)

lemma Sub_reaches:
  assumes "0 \<le> h" and "h * Hour < 2 ^ 63"
  shows "h * Hour \<le> Sub t u \<longleftrightarrow> u + h * Hour \<le> t"
  using assms by (auto simp: Sub_def Hour_def)

end
