(* ===== verification/Mongo.thy ===== *)
theory Mongo
  imports Domain "HOL-Library.AList"
begin

text \<open>
  The MongoDB driver is not part of the repository: a collection is a parameter of the model,
  a record of the three driver calls the repositories make, over an arbitrary state \<open>'db\<close> of
  the server and the network. \<open>mongo_contract\<close> states what its documentation promises for the
  filters and updates the repositories build (equality and \<open>$gte\<close>; \<open>$set\<close> and \<open>$inc\<close>):
  an update changes the first matching document only, the counts report it, an error leaves
  the collection as it was or with the update applied (a reply may be lost). \<open>memory\<close> is a
  server that meets the contract, with a schedule of outages, on which the hypotheses are
  shown to be satisfiable.

  A document is a list of leaf fields under their dotted paths, in the server's field order.
\<close>

subsection \<open>Documents, filters and updates\<close>

datatype bson = BInt int | BStr string | BDoc "(string \<times> bson) list"

type_synonym M = "(string \<times> bson) list"
type_synonym doc = "(string \<times> bson) list"

record update_result =
  MatchedCount :: int
  ModifiedCount :: int

record 'db collection =
  FindOne :: "M \<Rightarrow> 'db \<Rightarrow> (go_error + doc) \<times> 'db"
  UpdateOne :: "M \<Rightarrow> M \<Rightarrow> 'db \<Rightarrow> (go_error + update_result) \<times> 'db"
  DecodeStock :: "doc \<Rightarrow> go_error + Stock"

fun match_value :: "bson option \<Rightarrow> bson \<Rightarrow> bool" where
  "match_value (Some (BInt m)) (BDoc [(op, BInt n)]) = (op = ''$gte'' \<and> n \<le> m)"
| "match_value v (BStr s) = (v = Some (BStr s))"
| "match_value v (BInt n) = (v = Some (BInt n))"
| "match_value _ _ = False"

definition matches :: "M \<Rightarrow> doc \<Rightarrow> bool" where
  "matches f d = list_all (\<lambda>(p, v). match_value (map_of d p) v) f"

fun apply_update :: "M \<Rightarrow> doc \<Rightarrow> doc option" where
  "apply_update [(op, BDoc [(p, v)])] d =
     (if op = ''$set'' then Some (AList.update p v d)
      else if op = ''$inc'' then
        (case (v, map_of d p) of
           (BInt n, Some (BInt m)) \<Rightarrow> Some (AList.update p (BInt (m + n)) d)
         | (BInt n, None) \<Rightarrow> Some (AList.update p (BInt n) d)
         | _ \<Rightarrow> None)
      else None)"
| "apply_update _ _ = None"

text \<open>The field of a struct decoded from a document: the zero value where it is missing.\<close>

definition decodes_item :: "doc \<Rightarrow> string \<Rightarrow> StockItem \<Rightarrow> bool" where
  "decodes_item d tag i \<longleftrightarrow>
     (case map_of d (tag @ ''.quantity'') of
        Some (BInt q) \<Rightarrow> Quantity i = q | None \<Rightarrow> Quantity i = 0 | _ \<Rightarrow> False) \<and>
     (case map_of d (tag @ ''.name'') of
        Some (BStr s) \<Rightarrow> Name i = s | None \<Rightarrow> Name i = '''' | _ \<Rightarrow> False)"

text \<open>A document every item of which has an integer quantity and a name, if any, that is text.\<close>

definition well_typed :: "doc \<Rightarrow> bool" where
  "well_typed d \<longleftrightarrow>
     (\<forall>(tag, f) \<in> set stock_tags.
        (\<exists>q. map_of d (tag @ ''.quantity'') = Some (BInt q)) \<and>
        (map_of d (tag @ ''.name'') = None \<or> (\<exists>s. map_of d (tag @ ''.name'') = Some (BStr s))))"

subsection \<open>What the driver documents\<close>

definition find_contract :: "'db collection \<Rightarrow> ('db \<Rightarrow> doc list) \<Rightarrow> ('db \<Rightarrow> bool) \<Rightarrow> bool" where
  "find_contract C content up \<longleftrightarrow>
     (\<forall>f db r db'. FindOne C f db = (r, db') \<longrightarrow>
        content db' = content db \<and> (up db \<longrightarrow> up db') \<and>
        (case r of
           Inl e \<Rightarrow> (errors_Is_noDocuments e \<longrightarrow> List.find (matches f) (content db) = None) \<and>
                    (up db \<longrightarrow> errors_Is_noDocuments e)
         | Inr d \<Rightarrow> List.find (matches f) (content db) = Some d))"

definition update_contract :: "'db collection \<Rightarrow> ('db \<Rightarrow> doc list) \<Rightarrow> ('db \<Rightarrow> bool) \<Rightarrow> bool" where
  "update_contract C content up \<longleftrightarrow>
     (\<forall>f u db r db'. UpdateOne C f u db = (r, db') \<longrightarrow>
        (up db \<longrightarrow> up db') \<and>
        (case List.find (matches f) (content db) of
           None \<Rightarrow> content db' = content db \<and>
             (case r of Inl e \<Rightarrow> \<not> up db | Inr n \<Rightarrow> MatchedCount n = 0 \<and> ModifiedCount n = 0)
         | Some d \<Rightarrow>
             (case apply_update u d of
                None \<Rightarrow> content db' = content db \<and> isl r
              | Some d' \<Rightarrow>
                  (case r of
                     Inl e \<Rightarrow> \<not> up db \<and> (content db' = content db \<or>
                       content db' = update_first (matches f) (\<lambda>_. d') (content db))
                   | Inr n \<Rightarrow> content db' = update_first (matches f) (\<lambda>_. d') (content db) \<and>
                       MatchedCount n = 1 \<and> ModifiedCount n = (if d' = d then 0 else 1)))))"

definition decode_contract :: "'db collection \<Rightarrow> bool" where
  "decode_contract C \<longleftrightarrow>
     (\<forall>d s. DecodeStock C d = Inr s \<longrightarrow> (\<forall>(tag, f) \<in> set stock_tags. decodes_item d tag (f s))) \<and>
     (\<forall>d. well_typed d \<longrightarrow> \<not> isl (DecodeStock C d))"

definition mongo_contract :: "'db collection \<Rightarrow> ('db \<Rightarrow> doc list) \<Rightarrow> ('db \<Rightarrow> bool) \<Rightarrow> bool" where
  "mongo_contract C content up \<longleftrightarrow>
     find_contract C content up \<and> update_contract C content up \<and> decode_contract C"

lemma AList_update_eq: "AList.update p v d = d \<longleftrightarrow> map_of d p = Some v"
  by (induction d) auto

lemmas map_of_AList_update = update_conv'

subsection \<open>A server in memory\<close>

text \<open>
  The state is the documents and a schedule of outages: each call takes the next entry,
  \<open>Lost\<close> drops the request, \<open>LostReply\<close> applies it and drops the reply; an empty schedule
  is a healthy server.
\<close>

datatype outage = Fine | Lost | LostReply

record memory =
  docs :: "doc list"
  outages :: "outage list"

definition network_error :: go_error where
  "network_error = ErrorString ''server selection error''"

definition mem_tick :: "memory \<Rightarrow> outage \<times> memory" where
  "mem_tick db = (case outages db of [] \<Rightarrow> (Fine, db) | x # xs \<Rightarrow> (x, db\<lparr>outages := xs\<rparr>))"

definition mem_find :: "M \<Rightarrow> memory \<Rightarrow> (go_error + doc) \<times> memory" where
  "mem_find f db =
     (case mem_tick db of
        (Fine, db') \<Rightarrow>
          ((case List.find (matches f) (docs db) of None \<Rightarrow> Inl ErrNoDocuments | Some d \<Rightarrow> Inr d), db')
      | (_, db') \<Rightarrow> (Inl network_error, db'))"

definition mem_update :: "M \<Rightarrow> M \<Rightarrow> memory \<Rightarrow> (go_error + update_result) \<times> memory" where
  "mem_update f u db =
     (case mem_tick db of (t, db') \<Rightarrow>
        if t = Lost then (Inl network_error, db')
        else
          (case List.find (matches f) (docs db) of
             None \<Rightarrow> (if t = Fine then Inr \<lparr>MatchedCount = 0, ModifiedCount = 0\<rparr>
                      else Inl network_error, db')
           | Some d \<Rightarrow>
               (case apply_update u d of
                  None \<Rightarrow> (Inl (ErrorString ''write exception''), db')
                | Some d' \<Rightarrow>
                    (if t = Fine
                     then Inr \<lparr>MatchedCount = 1, ModifiedCount = (if d' = d then 0 else 1)\<rparr>
                     else Inl network_error,
                     db'\<lparr>docs := update_first (matches f) (\<lambda>_. d') (docs db')\<rparr>))))"

definition mem_item :: "doc \<Rightarrow> string \<Rightarrow> StockItem option" where
  "mem_item d tag =
     (case ((case map_of d (tag @ ''.quantity'') of
               Some (BInt q) \<Rightarrow> Some q | None \<Rightarrow> Some 0 | _ \<Rightarrow> None),
            (case map_of d (tag @ ''.name'') of
               Some (BStr s) \<Rightarrow> Some s | None \<Rightarrow> Some '''' | _ \<Rightarrow> None)) of
        (Some q, Some s) \<Rightarrow> Some \<lparr>Name = s, Quantity = q\<rparr>
      | _ \<Rightarrow> None)"

definition mem_decode :: "doc \<Rightarrow> go_error + Stock" where
  "mem_decode d =
     (case List.those (map (\<lambda>(tag, f). mem_item d tag) stock_tags) of
        Some [a, b, c, e, f, g, h, i, j] \<Rightarrow>
          Inr \<lparr>StockId = '''', CleaningItems_f = a, Soap_f = b, BathroomAmenities_f = c,
               AromaCandles_f = e, WaterBottle_f = f, WineBottle_f = g, TeaBags_f = h,
               Sweets_f = i, Chips_f = j\<rparr>
      | _ \<Rightarrow> Inl (ErrorString ''error decoding key''))"

definition mem_collection :: "memory collection" where
  "mem_collection = \<lparr>FindOne = mem_find, UpdateOne = mem_update, DecodeStock = mem_decode\<rparr>"

definition mem_up :: "memory \<Rightarrow> bool" where
  "mem_up db \<longleftrightarrow> outages db = []"

lemma mem_tick_cases:
  "mem_tick db = (t, db') \<Longrightarrow> docs db' = docs db \<and> (mem_up db \<longrightarrow> t = Fine \<and> mem_up db')"
  by (auto simp: mem_tick_def mem_up_def split: list.splits)

lemma mem_item_decodes: "mem_item d tag = Some i \<Longrightarrow> decodes_item d tag i"
  by (auto simp: mem_item_def decodes_item_def split: option.splits bson.splits)

lemma mem_find_contract: "find_contract mem_collection docs mem_up"
  unfolding find_contract_def
  by (auto simp: mem_collection_def mem_find_def network_error_def dest!: mem_tick_cases
      split: prod.splits outage.splits option.splits)

lemma mem_update_contract: "update_contract mem_collection docs mem_up"
  unfolding update_contract_def
  by (auto simp: mem_collection_def mem_update_def mem_up_def dest!: mem_tick_cases
      split: prod.splits option.splits if_splits outage.splits)

lemma mem_decode_sound:
  assumes "mem_decode d = Inr s"
  shows "\<forall>(tag, f) \<in> set stock_tags. decodes_item d tag (f s)"
  using assms
  by (auto simp: mem_decode_def stock_tags_def split: option.splits list.splits
      intro: mem_item_decodes)

lemma mem_item_total:
  assumes "\<exists>q. map_of d (tag @ ''.quantity'') = Some (BInt q)"
    and "map_of d (tag @ ''.name'') = None \<or> (\<exists>s. map_of d (tag @ ''.name'') = Some (BStr s))"
  shows "\<exists>i. mem_item d tag = Some i"
  using assms by (auto simp: mem_item_def)

lemma those_map_total: "\<forall>x \<in> set xs. \<exists>y. g x = Some y \<Longrightarrow> \<exists>ys. List.those (map g xs) = Some ys \<and> length ys = length xs"
  by (induction xs) auto

lemma mem_decode_total:
  assumes "well_typed d"
  shows "\<not> isl (mem_decode d)"
proof -
  have "\<forall>x \<in> set stock_tags. \<exists>i. (\<lambda>(tag, f). mem_item d tag) x = Some i"
    using assms mem_item_total unfolding well_typed_def by fastforce
  then obtain ys where "List.those (map (\<lambda>(tag, f). mem_item d tag) stock_tags) = Some ys"
    and "length ys = 9"
    using those_map_total [of stock_tags "\<lambda>(tag, f). mem_item d tag"] by (auto simp: stock_tags_def)
  then show ?thesis
    unfolding mem_decode_def by (auto simp: numeral_eq_Suc length_Suc_conv)
qed

lemma mem_contract: "mongo_contract mem_collection docs mem_up"
proof -
  have "decode_contract mem_collection"
    unfolding decode_contract_def by (simp add: mem_collection_def mem_decode_sound mem_decode_total)
  then show ?thesis
    by (simp add: mongo_contract_def mem_find_contract mem_update_contract)
qed

end
