(* ===== verification/Effects.thy ===== *)
theory Effects
  imports Domain
begin

text \<open>
  What a worker does to the world, and in which order.

  The handlers of the three employee services (\<open>housekeeper.work\<close>, \<open>launderer.work\<close>,
  \<open>stocker.work\<close>) run concurrently in one goroutine per employee, and meet at the interfaces
  of \<^verbatim>\<open>internal/port\<close>, at the channel to the launderers and at the registry of time
  events. A handler is therefore an effect tree: it names its next call and how it continues
  with each reply. The same tree is read in three ways:
  \<^item> \<open>lstep\<close> and \<open>runs\<close>: every sequence of calls and replies, whatever the environment answers;
  \<^item> \<open>exec\<close>: a run on its own against a world that implements the ports;
  \<^item> as what a worker of theory Service does, where calls of different workers interleave.

  Log records are effects too (level and message; the attributes repeat the arguments). Spans
  and span errors are not modelled.
\<close>

subsection \<open>Calls\<close>

type_synonym chan = nat


definition timeEventHourChange :: string where "timeEventHourChange = ''hour_change''"
definition timeEventDayChange :: string where "timeEventDayChange = ''day_change''"

datatype 'a prog =
    Return 'a
  | CallNow "go_error + time \<Rightarrow> 'a prog"
  | CallGetStock "go_error + (string \<rightharpoonup> StockItem) \<Rightarrow> 'a prog"
  | CallConsumeItem string int "go_error option \<Rightarrow> 'a prog"
  | CallRestockItem string int "go_error option \<Rightarrow> 'a prog"
  | CallUpdateCleaningStatus string string "go_error option \<Rightarrow> 'a prog"
  | SendWash WashRequest "'a prog"
  | MakeTimeChan "chan \<Rightarrow> 'a prog"
  | CallRegister string chan "'a prog"
  | CallUnregister string chan "'a prog"
  | AwaitHours chan time int "time \<Rightarrow> 'a prog"
  | Log level string "'a prog"

primrec bindp :: "'a prog \<Rightarrow> ('a \<Rightarrow> 'b prog) \<Rightarrow> 'b prog" where
  "bindp (Return x) f = f x"
| "bindp (CallNow k) f = CallNow (\<lambda>r. bindp (k r) f)"
| "bindp (CallGetStock k) f = CallGetStock (\<lambda>r. bindp (k r) f)"
| "bindp (CallConsumeItem i q k) f = CallConsumeItem i q (\<lambda>r. bindp (k r) f)"
| "bindp (CallRestockItem i q k) f = CallRestockItem i q (\<lambda>r. bindp (k r) f)"
| "bindp (CallUpdateCleaningStatus n s k) f = CallUpdateCleaningStatus n s (\<lambda>r. bindp (k r) f)"
| "bindp (SendWash r p) f = SendWash r (bindp p f)"
| "bindp (MakeTimeChan k) f = MakeTimeChan (\<lambda>c. bindp (k c) f)"
| "bindp (CallRegister e c p) f = CallRegister e c (bindp p f)"
| "bindp (CallUnregister e c p) f = CallUnregister e c (bindp p f)"
| "bindp (AwaitHours c st h k) f = AwaitHours c st h (\<lambda>t. bindp (k t) f)"
| "bindp (Log l m p) f = Log l m (bindp p f)"

text \<open>Statements in sequence, and the calls as commands that return their reply.\<close>

definition thenp :: "unit prog \<Rightarrow> 'b prog \<Rightarrow> 'b prog" where
  "thenp p q = bindp p (\<lambda>_. q)"

fun seqp :: "unit prog list \<Rightarrow> unit prog" where
  "seqp [] = Return ()"
| "seqp (p # ps) = thenp p (seqp ps)"

definition skip :: "unit prog" where "skip = Return ()"
definition log :: "level \<Rightarrow> string \<Rightarrow> unit prog" where "log l m = Log l m (Return ())"
definition now :: "(go_error + time) prog" where "now = CallNow Return"
definition getStock :: "(go_error + (string \<rightharpoonup> StockItem)) prog" where
  "getStock = CallGetStock Return"
definition consumeItem :: "string \<Rightarrow> int \<Rightarrow> go_error option prog" where
  "consumeItem i q = CallConsumeItem i q Return"
definition restockItem :: "string \<Rightarrow> int \<Rightarrow> go_error option prog" where
  "restockItem i q = CallRestockItem i q Return"
definition updateCleaningStatus :: "string \<Rightarrow> string \<Rightarrow> go_error option prog" where
  "updateCleaningStatus n s = CallUpdateCleaningStatus n s Return"
definition sendWash :: "WashRequest \<Rightarrow> unit prog" where "sendWash r = SendWash r (Return ())"

lemmas command_defs [prog_simps] =
  thenp_def skip_def log_def now_def getStock_def consumeItem_def restockItem_def
  updateCleaningStatus_def sendWash_def

lemma bindp_Return [simp]: "bindp p Return = p"
  by (induction p) auto

lemma bindp_assoc: "bindp (bindp p f) g = bindp p (\<lambda>x. bindp (f x) g)"
  by (induction p) auto

subsection \<open>Labelled steps\<close>

datatype event =
    EvNow "go_error + time"
  | EvGetStock "go_error + (string \<rightharpoonup> StockItem)"
  | EvConsumeItem string int "go_error option"
  | EvRestockItem string int "go_error option"
  | EvUpdateCleaningStatus string string "go_error option"
  | EvSendWash WashRequest
  | EvMakeTimeChan chan
  | EvRegister string chan
  | EvUnregister string chan
  | EvHour chan time
  | EvCtxDone
  | EvLog level string

text \<open>
  \<open>AwaitHours c st h\<close> is the loop of \<open>washingCycle\<close>: \<open>select\<close> takes either the end of the
  context, on which the bare \<open>return\<close> gives the named results' zero values, or an instant
  from the channel, which ends the loop when \<open>h\<close> hours have passed since \<open>st\<close>.
\<close>

inductive lstep :: "'a prog \<Rightarrow> event \<Rightarrow> 'a prog \<Rightarrow> bool" where
  now: "lstep (CallNow k) (EvNow r) (k r)"
| get_stock: "lstep (CallGetStock k) (EvGetStock s) (k s)"
| consume: "lstep (CallConsumeItem i q k) (EvConsumeItem i q e) (k e)"
| restock: "lstep (CallRestockItem i q k) (EvRestockItem i q e) (k e)"
| update: "lstep (CallUpdateCleaningStatus n s k) (EvUpdateCleaningStatus n s e) (k e)"
| send_wash: "lstep (SendWash w p) (EvSendWash w) p"
| make_chan: "lstep (MakeTimeChan k) (EvMakeTimeChan c) (k c)"
| register: "lstep (CallRegister ev c p) (EvRegister ev c) p"
| unregister: "lstep (CallUnregister ev c p) (EvUnregister ev c) p"
| ctx_done: "lstep (AwaitHours c st h k) EvCtxDone (k zeroTime)"
| hour_reached: "Hours_at_least (Sub t st) h \<Longrightarrow> lstep (AwaitHours c st h k) (EvHour c t) (k t)"
| hour_early: "\<not> Hours_at_least (Sub t st) h \<Longrightarrow>
     lstep (AwaitHours c st h k) (EvHour c t) (AwaitHours c st h k)"
| log: "lstep (Log l m p) (EvLog l m) p"

inductive_simps lstep_simps [simp]:
  "lstep (Return x) e p'"
  "lstep (CallNow k) e p'"
  "lstep (CallGetStock k) e p'"
  "lstep (CallConsumeItem i q k) e p'"
  "lstep (CallRestockItem i q k) e p'"
  "lstep (CallUpdateCleaningStatus n s k) e p'"
  "lstep (SendWash w p) e p'"
  "lstep (MakeTimeChan k) e p'"
  "lstep (CallRegister ev c p) e p'"
  "lstep (CallUnregister ev c p) e p'"
  "lstep (Log l m p) e p'"

inductive_cases lstep_AwaitE: "lstep (AwaitHours c st h k) e p'"

inductive runs :: "'a prog \<Rightarrow> event list \<Rightarrow> 'a \<Rightarrow> bool" where
  finished: "runs (Return x) [] x"
| step: "lstep p e p' \<Longrightarrow> runs p' es x \<Longrightarrow> runs p (e # es) x"

inductive_cases runs_NilE: "runs p [] x"
inductive_cases runs_ConsE: "runs p (e # es) x"

lemma runs_Return [simp]: "runs (Return x) es y \<longleftrightarrow> es = [] \<and> y = x"
  by (auto intro: runs.finished elim: runs.cases)

lemma runs_unfold: "(\<nexists>x. p = Return x) \<Longrightarrow>
   runs p es y \<longleftrightarrow> (\<exists>e p' es'. es = e # es' \<and> lstep p e p' \<and> runs p' es' y)"
  by (subst runs.simps) blast

lemma runs_simps [simp]:
  "runs (CallNow k) es y \<longleftrightarrow> (\<exists>r es'. es = EvNow r # es' \<and> runs (k r) es' y)"
  "runs (CallGetStock k1) es y \<longleftrightarrow> (\<exists>r es'. es = EvGetStock r # es' \<and> runs (k1 r) es' y)"
  "runs (CallConsumeItem i q k2) es y \<longleftrightarrow>
     (\<exists>r es'. es = EvConsumeItem i q r # es' \<and> runs (k2 r) es' y)"
  "runs (CallRestockItem i q k2) es y \<longleftrightarrow>
     (\<exists>r es'. es = EvRestockItem i q r # es' \<and> runs (k2 r) es' y)"
  "runs (CallUpdateCleaningStatus n s k2) es y \<longleftrightarrow>
     (\<exists>r es'. es = EvUpdateCleaningStatus n s r # es' \<and> runs (k2 r) es' y)"
  "runs (SendWash w p) es y \<longleftrightarrow> (\<exists>es'. es = EvSendWash w # es' \<and> runs p es' y)"
  "runs (MakeTimeChan k3) es y \<longleftrightarrow> (\<exists>c es'. es = EvMakeTimeChan c # es' \<and> runs (k3 c) es' y)"
  "runs (CallRegister ev c p) es y \<longleftrightarrow> (\<exists>es'. es = EvRegister ev c # es' \<and> runs p es' y)"
  "runs (CallUnregister ev c p) es y \<longleftrightarrow> (\<exists>es'. es = EvUnregister ev c # es' \<and> runs p es' y)"
  "runs (Log l m p) es y \<longleftrightarrow> (\<exists>es'. es = EvLog l m # es' \<and> runs p es' y)"
  by (subst runs_unfold; auto)+

text \<open>A completed wait: early hours, then the end of the context or an hour late enough.\<close>

definition early_hours :: "chan \<Rightarrow> time \<Rightarrow> int \<Rightarrow> event list \<Rightarrow> bool" where
  "early_hours c st h es \<longleftrightarrow>
     (\<forall>e \<in> set es. \<exists>t. e = EvHour c t \<and> \<not> Hours_at_least (Sub t st) h)"

lemma runs_AwaitHours:
  "runs (AwaitHours c st h k) es y \<longleftrightarrow>
     (\<exists>pre e t es'. es = pre @ e # es' \<and> early_hours c st h pre \<and> runs (k t) es' y \<and>
        (e = EvCtxDone \<and> t = zeroTime \<or> e = EvHour c t \<and> Hours_at_least (Sub t st) h))"
  (is "?L es \<longleftrightarrow> ?R es")
proof
  show "?L es \<Longrightarrow> ?R es"
  proof (induction es)
    case Nil
    then show ?case by (auto elim: runs_NilE)
  next
    case (Cons e es)
    from Cons.prems obtain p' where st: "lstep (AwaitHours c st h k) e p'" and r: "runs p' es y"
      by (auto elim: runs_ConsE)
    from st consider (ctx) "e = EvCtxDone" "p' = k zeroTime"
      | (reached) t where "e = EvHour c t" "p' = k t" "Hours_at_least (Sub t st) h"
      | (early) t where "e = EvHour c t" "p' = AwaitHours c st h k" "\<not> Hours_at_least (Sub t st) h"
      by (elim lstep_AwaitE) blast+
    then show ?case
    proof cases
      case ctx
      from ctx r have "e # es = [] @ e # es \<and> early_hours c st h [] \<and> runs (k zeroTime) es y \<and>
          (e = EvCtxDone \<and> zeroTime = zeroTime \<or> e = EvHour c zeroTime \<and> Hours_at_least (Sub zeroTime st) h)"
        by (simp add: early_hours_def)
      then show ?thesis by blast
    next
      case (reached t)
      from reached r have "e # es = [] @ e # es \<and> early_hours c st h [] \<and> runs (k t) es y \<and>
          (e = EvCtxDone \<and> t = zeroTime \<or> e = EvHour c t \<and> Hours_at_least (Sub t st) h)"
        by (simp add: early_hours_def)
      then show ?thesis by blast
    next
      case (early t)
      with r Cons.IH obtain pre e' t' es' where
        "es = pre @ e' # es'" "early_hours c st h pre" "runs (k t') es' y"
        "e' = EvCtxDone \<and> t' = zeroTime \<or> e' = EvHour c t' \<and> Hours_at_least (Sub t' st) h"
        by blast
      from this early have "e # es = (e # pre) @ e' # es' \<and> early_hours c st h (e # pre) \<and> runs (k t') es' y \<and>
          (e' = EvCtxDone \<and> t' = zeroTime \<or> e' = EvHour c t' \<and> Hours_at_least (Sub t' st) h)"
        by (simp add: early_hours_def)
      then show ?thesis by blast
    qed
  qed
next
  assume "?R es"
  then obtain pre e t es' where es: "es = pre @ e # es'" and early: "early_hours c st h pre"
    and r: "runs (k t) es' y"
    and e: "e = EvCtxDone \<and> t = zeroTime \<or> e = EvHour c t \<and> Hours_at_least (Sub t st) h" by blast
  from r e have "runs (AwaitHours c st h k) (e # es') y"
    by (auto intro: runs.step lstep.intros)
  with early have "runs (AwaitHours c st h k) (pre @ e # es') y"
    by (induction pre) (auto simp: early_hours_def
        intro: runs.step lstep.hour_early)
  with es show "?L es" by simp
qed

lemma ex_cons_append:
  "(\<exists>es1 es2 x. es = es1 @ es2 \<and> (\<exists>r es'. es1 = E r # es' \<and> Q r es' x) \<and> R x es2) \<longleftrightarrow>
   (\<exists>r es'. es = E r # es' \<and> (\<exists>es1 es2 x. es' = es1 @ es2 \<and> Q r es1 x \<and> R x es2))"
  by (metis append_Cons)

lemma ex_cons_append':
  "(\<exists>es1 es2 x. es = es1 @ es2 \<and> (\<exists>es'. es1 = e # es' \<and> Q es' x) \<and> R x es2) \<longleftrightarrow>
   (\<exists>es'. es = e # es' \<and> (\<exists>es1 es2 x. es' = es1 @ es2 \<and> Q es1 x \<and> R x es2))"
  by (metis append_Cons)

lemma ex_pre_append:
  "(\<exists>es1 es2 x. es = es1 @ es2 \<and>
      (\<exists>pre e t es'. es1 = pre @ e # es' \<and> A pre \<and> Q t es' x \<and> B e t) \<and> R x es2) \<longleftrightarrow>
   (\<exists>pre e t es'. es = pre @ e # es' \<and> A pre \<and>
      (\<exists>es1 es2 x. es' = es1 @ es2 \<and> Q t es1 x \<and> R x es2) \<and> B e t)"
  (is "?L \<longleftrightarrow> ?R")
proof
  assume ?L
  then obtain es2 x pre e t es' where "es = (pre @ e # es') @ es2" "A pre" "Q t es' x" "B e t" "R x es2"
    by blast
  then have "es = pre @ e # es' @ es2 \<and> A pre \<and> (es' @ es2 = es' @ es2 \<and> Q t es' x \<and> R x es2) \<and> B e t"
    by simp
  then show ?R by blast
next
  assume ?R
  then obtain pre e t es1 es2 x where "es = pre @ e # es1 @ es2" "A pre" "Q t es1 x" "R x es2" "B e t"
    by blast
  then have "es = (pre @ e # es1) @ es2 \<and> (pre @ e # es1 = pre @ e # es1 \<and> A pre \<and> Q t es1 x \<and> B e t) \<and> R x es2"
    by simp
  then show ?L by blast
qed

lemma runs_bindp:
  "runs (bindp p f) es y \<longleftrightarrow> (\<exists>es1 es2 x. es = es1 @ es2 \<and> runs p es1 x \<and> runs (f x) es2 y)"
proof (induction p arbitrary: es)
  case (Return x)
  show ?case by auto
next
  case (AwaitHours c st h k)
  show ?case
    unfolding bindp.simps runs_AwaitHours AwaitHours.IH [OF rangeI] ex_pre_append ..
qed (simp_all only: bindp.simps runs_simps ex_cons_append ex_cons_append' rangeI)

subsection \<open>Reading a run\<close>

text \<open>The calls of one kind, in order, with their replies where these matter.\<close>

fun updates :: "event list \<Rightarrow> (string \<times> string) list" where
  "updates [] = []"
| "updates (EvUpdateCleaningStatus n s r # es) = (n, s) # updates es"
| "updates (_ # es) = updates es"

fun washes :: "event list \<Rightarrow> WashRequest list" where
  "washes [] = []"
| "washes (EvSendWash w # es) = w # washes es"
| "washes (_ # es) = washes es"

fun consumes :: "event list \<Rightarrow> (string \<times> int \<times> go_error option) list" where
  "consumes [] = []"
| "consumes (EvConsumeItem i q r # es) = (i, q, r) # consumes es"
| "consumes (_ # es) = consumes es"

fun restocks :: "event list \<Rightarrow> (string \<times> int \<times> go_error option) list" where
  "restocks [] = []"
| "restocks (EvRestockItem i q r # es) = (i, q, r) # restocks es"
| "restocks (_ # es) = restocks es"

fun logged :: "event list \<Rightarrow> (level \<times> string) list" where
  "logged [] = []"
| "logged (EvLog l m # es) = (l, m) # logged es"
| "logged (_ # es) = logged es"

fun registrations :: "event list \<Rightarrow> (bool \<times> string \<times> chan) list" where
  "registrations [] = []"
| "registrations (EvRegister e c # es) = (True, e, c) # registrations es"
| "registrations (EvUnregister e c # es) = (False, e, c) # registrations es"
| "registrations (_ # es) = registrations es"

lemma updates_append [simp]: "updates (es @ fs) = updates es @ updates fs"
  by (induction es rule: updates.induct) auto

lemma washes_append [simp]: "washes (es @ fs) = washes es @ washes fs"
  by (induction es rule: washes.induct) auto

lemma consumes_append [simp]: "consumes (es @ fs) = consumes es @ consumes fs"
  by (induction es rule: consumes.induct) auto

lemma restocks_append [simp]: "restocks (es @ fs) = restocks es @ restocks fs"
  by (induction es rule: restocks.induct) auto

lemma logged_append [simp]: "logged (es @ fs) = logged es @ logged fs"
  by (induction es rule: logged.induct) auto

lemma registrations_append [simp]: "registrations (es @ fs) = registrations es @ registrations fs"
  by (induction es rule: registrations.induct) auto

lemma early_hours_quiet:
  "early_hours c st h es \<Longrightarrow> updates es = [] \<and> washes es = [] \<and> consumes es = [] \<and> restocks es = [] \<and>
     logged es = [] \<and> registrations es = []"
  by (induction es) (auto simp: early_hours_def)

text \<open>A loop over a list, one command per element.\<close>

lemma runs_seqp_map:
  "runs (seqp (map f xs)) es u \<longleftrightarrow>
     (\<exists>ess. es = concat ess \<and> list_all2 (\<lambda>x e. runs (f x) e ()) xs ess)"
proof (induction xs arbitrary: es)
  case Nil
  show ?case by auto
next
  case (Cons x xs)
  have "runs (seqp (map f (x # xs))) es u \<longleftrightarrow>
      (\<exists>es1 ess. es = es1 @ concat ess \<and> runs (f x) es1 () \<and> list_all2 (\<lambda>x e. runs (f x) e ()) xs ess)"
    using Cons.IH by (auto simp: thenp_def runs_bindp)
  also have "\<dots> \<longleftrightarrow> (\<exists>ess. es = concat ess \<and> list_all2 (\<lambda>x e. runs (f x) e ()) (x # xs) ess)"
    (is "?L \<longleftrightarrow> ?R")
  proof
    assume ?L
    then obtain es1 ess where "es = concat (es1 # ess)" "list_all2 (\<lambda>x e. runs (f x) e ()) (x # xs) (es1 # ess)"
      by auto
    then show ?R by blast
  next
    assume ?R
    then obtain z zs where "es = z @ concat zs" "runs (f x) z ()" "list_all2 (\<lambda>x e. runs (f x) e ()) xs zs"
      by (auto simp: list_all2_Cons1)
    then show ?L by blast
  qed
  finally show ?case .
qed

subsection \<open>The step as a function\<close>

primrec lnext :: "'a prog \<Rightarrow> event \<Rightarrow> 'a prog option" where
  "lnext (Return x) e = None"
| "lnext (CallNow k) e = (case e of EvNow r \<Rightarrow> Some (k r) | _ \<Rightarrow> None)"
| "lnext (CallGetStock k) e = (case e of EvGetStock s \<Rightarrow> Some (k s) | _ \<Rightarrow> None)"
| "lnext (CallConsumeItem i q k) e =
     (case e of EvConsumeItem i' q' r \<Rightarrow> if i' = i \<and> q' = q then Some (k r) else None | _ \<Rightarrow> None)"
| "lnext (CallRestockItem i q k) e =
     (case e of EvRestockItem i' q' r \<Rightarrow> if i' = i \<and> q' = q then Some (k r) else None | _ \<Rightarrow> None)"
| "lnext (CallUpdateCleaningStatus n s k) e =
     (case e of EvUpdateCleaningStatus n' s' r \<Rightarrow> if n' = n \<and> s' = s then Some (k r) else None | _ \<Rightarrow> None)"
| "lnext (SendWash w p) e = (case e of EvSendWash w' \<Rightarrow> if w' = w then Some p else None | _ \<Rightarrow> None)"
| "lnext (MakeTimeChan k) e = (case e of EvMakeTimeChan c \<Rightarrow> Some (k c) | _ \<Rightarrow> None)"
| "lnext (CallRegister ev c p) e =
     (case e of EvRegister ev' c' \<Rightarrow> if ev' = ev \<and> c' = c then Some p else None | _ \<Rightarrow> None)"
| "lnext (CallUnregister ev c p) e =
     (case e of EvUnregister ev' c' \<Rightarrow> if ev' = ev \<and> c' = c then Some p else None | _ \<Rightarrow> None)"
| "lnext (AwaitHours c st h k) e =
     (case e of
        EvCtxDone \<Rightarrow> Some (k zeroTime)
      | EvHour c' t \<Rightarrow>
          if c' = c then Some (if Hours_at_least (Sub t st) h then k t else AwaitHours c st h k) else None
      | _ \<Rightarrow> None)"
| "lnext (Log l m p) e = (case e of EvLog l' m' \<Rightarrow> if l' = l \<and> m' = m then Some p else None | _ \<Rightarrow> None)"

lemma lstep_lnext: "lstep p e p' \<longleftrightarrow> lnext p e = Some p'"
proof
  assume "lstep p e p'"
  then show "lnext p e = Some p'" by (cases rule: lstep.cases) auto
next
  assume "lnext p e = Some p'"
  then show "lstep p e p'"
    by (cases p; cases e) (auto intro: lstep.hour_reached lstep.hour_early lstep.ctx_done split: if_splits)
qed

end
