(* ===== verification/Ports.thy ===== *)
theory Ports
  imports Effects
begin

text \<open>
  \<^verbatim>\<open>internal/port\<close>: the interfaces the employee services are built on, as a record of
  functions over a world \<open>'w\<close>, and what a client may rely on, as locales. \<open>exec\<close> runs an
  effect tree on its own against such a world.
\<close>

record 'w ports =
  p_now :: "'w \<Rightarrow> (go_error + time) \<times> 'w"
  p_getStock :: "'w \<Rightarrow> (go_error + (string \<rightharpoonup> StockItem)) \<times> 'w"
  p_consumeItem :: "string \<Rightarrow> int \<Rightarrow> 'w \<Rightarrow> go_error option \<times> 'w"
  p_restockItem :: "string \<Rightarrow> int \<Rightarrow> 'w \<Rightarrow> go_error option \<times> 'w"
  p_updateCleaningStatus :: "string \<Rightarrow> string \<Rightarrow> 'w \<Rightarrow> go_error option \<times> 'w"

subsection \<open>The stock repository\<close>

text \<open>
  \<open>port.StockRepo\<close>: \<open>qty\<close> is the stock level of a managed item, \<open>inv\<close> the state in which the
  laws hold, \<open>up\<close> that the database answers. A failed call may have taken effect, but never
  more than once and never below zero; \<open>StockInsufficientQuantityErr\<close> says that it has not.
\<close>

locale stock_repo =
  fixes GetStock :: "'w \<Rightarrow> (go_error + (string \<rightharpoonup> StockItem)) \<times> 'w"
    and ConsumeItem :: "string \<Rightarrow> int \<Rightarrow> 'w \<Rightarrow> go_error option \<times> 'w"
    and RestockItem :: "string \<Rightarrow> int \<Rightarrow> 'w \<Rightarrow> go_error option \<times> 'w"
    and qty :: "'w \<Rightarrow> string \<Rightarrow> int option"
    and inv :: "'w \<Rightarrow> bool"
    and up :: "'w \<Rightarrow> bool"
  assumes qty_managed: "inv w \<Longrightarrow> i \<in> set ManagedStockItemNames \<Longrightarrow> \<exists>n. qty w i = Some n \<and> 0 \<le> n"
    and get_frame: "inv w \<Longrightarrow> GetStock w = (r, w') \<Longrightarrow> inv w' \<and> qty w' = qty w \<and> (up w \<longrightarrow> up w' \<and> \<not> isl r)"
    and get_value: "inv w \<Longrightarrow> GetStock w = (Inr m, w') \<Longrightarrow>
      dom m = set ManagedStockItemNames \<and> (\<forall>i x. m i = Some x \<longrightarrow> qty w i = Some (Quantity x))"
    and consume_ok: "inv w \<Longrightarrow> ConsumeItem i q w = (None, w') \<Longrightarrow>
      0 < q \<and> (\<exists>n. qty w i = Some n \<and> q \<le> n \<and> qty w' = (qty w)(i \<mapsto> n - q)) \<and> inv w' \<and> (up w \<longrightarrow> up w')"
    and consume_insufficient: "inv w \<Longrightarrow> ConsumeItem i q w = (Some e, w') \<Longrightarrow> errors_As_stock e = Some s \<Longrightarrow>
      s = StockInsufficientQuantityErr i q \<and> 0 < q \<and> (\<exists>n. qty w i = Some n \<and> n < q) \<and>
      qty w' = qty w \<and> inv w' \<and> (up w \<longrightarrow> up w')"
    and consume_error: "inv w \<Longrightarrow> ConsumeItem i q w = (Some e, w') \<Longrightarrow> errors_As_stock e = None \<Longrightarrow>
      inv w' \<and> (up w \<longrightarrow> up w') \<and>
      (qty w' = qty w \<or> 0 < q \<and> (\<exists>n. qty w i = Some n \<and> q \<le> n \<and> qty w' = (qty w)(i \<mapsto> n - q)))"
    and consume_up: "inv w \<Longrightarrow> up w \<Longrightarrow> i \<in> set ManagedStockItemNames \<Longrightarrow> 0 < q \<Longrightarrow>
      ConsumeItem i q w = (Some e, w') \<Longrightarrow> errors_As_stock e \<noteq> None"
    and restock_ok: "inv w \<Longrightarrow> RestockItem i q w = (None, w') \<Longrightarrow>
      0 < q \<and> (\<exists>n. qty w i = Some n \<and> qty w' = (qty w)(i \<mapsto> n + q)) \<and> inv w' \<and> (up w \<longrightarrow> up w')"
    and restock_error: "inv w \<Longrightarrow> RestockItem i q w = (Some e, w') \<Longrightarrow>
      inv w' \<and> (up w \<longrightarrow> up w') \<and>
      (qty w' = qty w \<or> 0 < q \<and> (\<exists>n. qty w i = Some n \<and> qty w' = (qty w)(i \<mapsto> n + q)))"
    and restock_up: "inv w \<Longrightarrow> up w \<Longrightarrow> i \<in> set ManagedStockItemNames \<Longrightarrow> 0 < q \<Longrightarrow>
      fst (RestockItem i q w) = None"
begin

lemma consume_enough:
  assumes "inv w" "up w" "i \<in> set ManagedStockItemNames" "0 < q" "qty w i = Some n" "q \<le> n"
  shows "\<exists>w'. ConsumeItem i q w = (None, w') \<and> qty w' = (qty w)(i \<mapsto> n - q) \<and> inv w' \<and> up w'"
proof -
  obtain r w' where c: "ConsumeItem i q w = (r, w')" by fastforce
  have "r = None"
  proof (rule ccontr)
    assume "r \<noteq> None"
    then obtain e where e: "r = Some e" by blast
    with c consume_up [OF assms(1-4)] obtain s where "errors_As_stock e = Some s" by blast
    with consume_insufficient [OF assms(1)] c e assms(5,6) show False by fastforce
  qed
  with c consume_ok [OF assms(1)] assms(2,5) show ?thesis by fastforce
qed

lemma consume_short:
  assumes "inv w" "up w" "i \<in> set ManagedStockItemNames" "0 < q" "qty w i = Some n" "n < q"
  shows "\<exists>e w'. ConsumeItem i q w = (Some e, w') \<and>
    errors_As_stock e = Some (StockInsufficientQuantityErr i q) \<and> qty w' = qty w \<and> inv w' \<and> up w'"
proof -
  obtain r w' where c: "ConsumeItem i q w = (r, w')" by fastforce
  have "r \<noteq> None"
  proof
    assume "r = None"
    with c consume_ok [OF assms(1), of i q w'] assms(5,6) show False by fastforce
  qed
  then obtain e where e: "r = Some e" by blast
  with c consume_up [OF assms(1-4)] obtain s where s: "errors_As_stock e = Some s" by blast
  with consume_insufficient [OF assms(1)] c e assms(2) show ?thesis by blast
qed

lemma restock_adds:
  assumes "inv w" "up w" "i \<in> set ManagedStockItemNames" "0 < q" "qty w i = Some n"
  shows "\<exists>w'. RestockItem i q w = (None, w') \<and> qty w' = (qty w)(i \<mapsto> n + q) \<and> inv w' \<and> up w'"
proof -
  obtain r w' where c: "RestockItem i q w = (r, w')" by fastforce
  then have "r = None" using restock_up [OF assms(1-4)] by simp
  with c restock_ok [OF assms(1)] assms(2,5) show ?thesis by fastforce
qed

lemma consume_frame: "inv w \<Longrightarrow> ConsumeItem i q w = (r, w') \<Longrightarrow> inv w' \<and> (\<forall>j. j \<noteq> i \<longrightarrow> qty w' j = qty w j)"
  by (cases r; cases "errors_As_stock (the r)")
    (auto dest: consume_ok consume_error consume_insufficient)

lemma restock_frame: "inv w \<Longrightarrow> RestockItem i q w = (r, w') \<Longrightarrow> inv w' \<and> (\<forall>j. j \<noteq> i \<longrightarrow> qty w' j = qty w j)"
  by (cases r) (auto dest: restock_ok restock_error)

end

subsection \<open>The cottage repository\<close>

text \<open>
  \<open>port.CottageRepo\<close>: \<open>status\<close> gives, for a cottage that exists, the cleaning status it holds
  (\<open>None\<close> if the field is missing). Writing the status a cottage already has changes nothing
  and is reported as an error.
\<close>

definition valid_status :: "string \<Rightarrow> bool" where
  "valid_status s \<longleftrightarrow>
     s \<in> {CleaningStatusPreparedForGuest, CleaningStatusDailyCleaned,
          CleaningStatusPreparedForSleep, CleaningStatusFullyCleaned}"

locale cottage_repo =
  fixes Update :: "string \<Rightarrow> string \<Rightarrow> 'w \<Rightarrow> go_error option \<times> 'w"
    and status :: "'w \<Rightarrow> string \<Rightarrow> string option option"
    and inv :: "'w \<Rightarrow> bool"
    and up :: "'w \<Rightarrow> bool"
  assumes update_ok: "inv w \<Longrightarrow> Update n s w = (None, w') \<Longrightarrow>
      valid_status s \<and> (\<exists>old. status w n = Some old \<and> old \<noteq> Some s) \<and>
      status w' = (status w)(n \<mapsto> Some s) \<and> inv w' \<and> (up w \<longrightarrow> up w')"
    and update_error: "inv w \<Longrightarrow> Update n s w = (Some e, w') \<Longrightarrow> inv w' \<and> (up w \<longrightarrow> up w') \<and>
      (status w' = status w \<or> valid_status s \<and> status w n \<noteq> None \<and> status w' = (status w)(n \<mapsto> Some s))"
    and update_up: "inv w \<Longrightarrow> up w \<Longrightarrow> TrimSpace n \<noteq> '''' \<Longrightarrow> valid_status s \<Longrightarrow>
      fst (Update n s w) =
        (case status w n of
           None \<Rightarrow> Some (ErrCottageDoesNotExist n)
         | Some old \<Rightarrow> if old = Some s then Some (CottageCleaningStatusNotUpdatedErr n) else None)"
begin

lemma update_reaches:
  assumes "inv w" "up w" "TrimSpace n \<noteq> ''''" "valid_status s" "status w n \<noteq> None"
    and u: "Update n s w = (r, w')"
  shows "status w' n = Some (Some s) \<and> inv w' \<and> up w'"
proof (cases r)
  case None
  with u update_ok [OF assms(1)] assms(2) show ?thesis by fastforce
next
  case (Some e)
  with u update_up [OF assms(1-4)] assms(5) have "status w n = Some (Some s)"
    by (auto split: option.splits if_splits)
  with update_error [OF assms(1)] u Some assms(2) show ?thesis by fastforce
qed

lemma update_frame:
  assumes "inv w" "Update n s w = (r, w')" "m \<noteq> n"
  shows "status w' m = status w m"
  using assms by (cases r) (auto dest: update_ok update_error)

end

subsection \<open>Running a tree on its own\<close>

text \<open>
  The world of one worker without interference: what lies behind the ports, the buffer of the
  channel to the launderers, the channels made so far, the registrations, the instants that
  will arrive on the hour-change channel (\<open>None\<close> is the end of the context), and the log. A
  send on a full buffer and a wait with nothing left to arrive block: the run has no result.
\<close>

record 'w solo =
  outer :: 'w
  laundry :: "WashRequest list"
  nextChan :: chan
  registered :: "(string \<times> chan) list"
  arrivals :: "time option list"
  logs :: "(level \<times> string) list"

fun await :: "time \<Rightarrow> int \<Rightarrow> time option list \<Rightarrow> (time \<times> time option list) option" where
  "await st h [] = None"
| "await st h (None # ts) = Some (zeroTime, None # ts)"
| "await st h (Some t # ts) = (if Hours_at_least (Sub t st) h then Some (t, ts) else await st h ts)"

primrec exec :: "'w ports \<Rightarrow> nat \<Rightarrow> 'a prog \<Rightarrow> 'w solo \<Rightarrow> ('a \<times> 'w solo) option" where
  "exec P cap (Return x) s = Some (x, s)"
| "exec P cap (CallNow k) s =
     (case p_now P (outer s) of (r, w) \<Rightarrow> exec P cap (k r) (s\<lparr>outer := w\<rparr>))"
| "exec P cap (CallGetStock k) s =
     (case p_getStock P (outer s) of (r, w) \<Rightarrow> exec P cap (k r) (s\<lparr>outer := w\<rparr>))"
| "exec P cap (CallConsumeItem i q k) s =
     (case p_consumeItem P i q (outer s) of (r, w) \<Rightarrow> exec P cap (k r) (s\<lparr>outer := w\<rparr>))"
| "exec P cap (CallRestockItem i q k) s =
     (case p_restockItem P i q (outer s) of (r, w) \<Rightarrow> exec P cap (k r) (s\<lparr>outer := w\<rparr>))"
| "exec P cap (CallUpdateCleaningStatus n v k) s =
     (case p_updateCleaningStatus P n v (outer s) of (r, w) \<Rightarrow> exec P cap (k r) (s\<lparr>outer := w\<rparr>))"
| "exec P cap (SendWash r p) s =
     (if length (laundry s) < cap then exec P cap p (s\<lparr>laundry := laundry s @ [r]\<rparr>) else None)"
| "exec P cap (MakeTimeChan k) s = exec P cap (k (nextChan s)) (s\<lparr>nextChan := Suc (nextChan s)\<rparr>)"
| "exec P cap (CallRegister e c p) s = exec P cap p (s\<lparr>registered := List.insert (e, c) (registered s)\<rparr>)"
| "exec P cap (CallUnregister e c p) s = exec P cap p (s\<lparr>registered := removeAll (e, c) (registered s)\<rparr>)"
| "exec P cap (AwaitHours c st h k) s =
     (case await st h (arrivals s) of
        None \<Rightarrow> None | Some (t, ts) \<Rightarrow> exec P cap (k t) (s\<lparr>arrivals := ts\<rparr>))"
| "exec P cap (Log l m p) s = exec P cap p (s\<lparr>logs := logs s @ [(l, m)]\<rparr>)"

lemma exec_bindp:
  "exec P cap (bindp p f) s =
     (case exec P cap p s of None \<Rightarrow> None | Some (x, s') \<Rightarrow> exec P cap (f x) s')"
  by (induction p arbitrary: s) (simp_all split: prod.splits option.splits)

text \<open>What a wait receives: instants of its channel, or the end of the context.\<close>

definition awaited :: "chan \<Rightarrow> event list \<Rightarrow> bool" where
  "awaited c pre \<longleftrightarrow> set pre \<subseteq> insert EvCtxDone (range (EvHour c))"

lemma awaited_quiet: "awaited c pre \<Longrightarrow> washes pre = [] \<and> logged pre = []"
  by (induction pre) (auto simp: awaited_def)

lemma await_runs:
  "await st h ts = Some (t, ts') \<Longrightarrow> runs (k t) es y \<Longrightarrow> \<exists>pre. runs (AwaitHours c st h k) (pre @ es) y \<and> awaited c pre"
proof (induction st h ts rule: await.induct)
  case (2 st h ts)
  then have "runs (AwaitHours c st h k) ([EvCtxDone] @ es) y" by (auto intro: runs.step lstep.ctx_done)
  then show ?case by (intro exI [of _ "[EvCtxDone]"]) (simp add: awaited_def)
next
  case (3 st h u ts)
  show ?case
  proof (cases "Hours_at_least (Sub u st) h")
    case True
    with 3 have "runs (AwaitHours c st h k) ([EvHour c u] @ es) y" by (auto intro: runs.step lstep.hour_reached)
    then show ?thesis by (intro exI [of _ "[EvHour c u]"]) (simp add: awaited_def)
  next
    case False
    with 3 obtain pre where "runs (AwaitHours c st h k) (pre @ es) y" "awaited c pre" by auto
    with False have "runs (AwaitHours c st h k) ((EvHour c u # pre) @ es) y"
      by (auto intro: runs.step lstep.hour_early)
    with \<open>awaited c pre\<close> show ?thesis by (intro exI [of _ "EvHour c u # pre"]) (simp add: awaited_def)
  qed
qed simp

text \<open>
  A solo run is one of the runs of the tree, and what it leaves in the channel and in the log is
  what that run sent and logged.
\<close>

lemma exec_runs:
  "exec P cap p s = Some (y, s') \<Longrightarrow>
   \<exists>es. runs p es y \<and> laundry s' = laundry s @ washes es \<and> logs s' = logs s @ logged es"
proof (induction p arbitrary: s)
  case (AwaitHours c st h k)
  then obtain t ts where a: "await st h (arrivals s) = Some (t, ts)"
    and "exec P cap (k t) (s\<lparr>arrivals := ts\<rparr>) = Some (y, s')" by (auto split: option.splits prod.splits)
  with AwaitHours.IH [OF rangeI, of t "s\<lparr>arrivals := ts\<rparr>"] obtain es where
    es: "runs (k t) es y" "laundry s' = laundry s @ washes es" "logs s' = logs s @ logged es" by auto
  then obtain pre where "runs (AwaitHours c st h k) (pre @ es) y" "washes pre = [] \<and> logged pre = []"
    using await_runs [OF a, where k = k] awaited_quiet by blast
  with es show ?case by (intro exI [of _ "pre @ es"]) simp
qed (fastforce split: prod.splits if_splits simp: runs_simps)+

subsection \<open>Properties\<close>

text \<open>running a handler alone refines its set of possible runs: whenever the solo run returns, some
  run of the effect tree returns the same result, and the laundry sent and the lines logged by the
  solo run are, in order, the ones of that run.\<close>

theorem solo_run_is_a_run:
  assumes "exec P cap p s = Some (y, s')"
  shows "\<exists>es. runs p es y \<and> laundry s' = laundry s @ washes es \<and> logs s' = logs s @ logged es"
  by (rule exec_runs [OF assms])

theorem solo_run_is_a_run_witness:
  "\<exists>es. runs (thenp (sendWash empty_wash) (AwaitHours 0 0 1 (\<lambda>t. log Info ''done''))) es () \<and>
     washes es = [empty_wash] \<and> logged es = [(Info, ''done'')]"
proof -
  define P :: "unit ports" where "P = \<lparr>p_now = (\<lambda>w. (Inr 0, w)), p_getStock = (\<lambda>w. (Inr Map.empty, w)),
    p_consumeItem = (\<lambda>i q w. (None, w)), p_restockItem = (\<lambda>i q w. (None, w)), p_updateCleaningStatus = (\<lambda>n v w. (None, w))\<rparr>"
  define s where "s = \<lparr>outer = (), laundry = [], nextChan = 0, registered = [], arrivals = [Some 5, Some Hour], logs = []\<rparr>"
  have "exec P 1 (thenp (sendWash empty_wash) (AwaitHours 0 0 1 (\<lambda>t. log Info ''done''))) s =
      Some ((), s\<lparr>laundry := [empty_wash], arrivals := [], logs := [(Info, ''done'')]\<rparr>)"
    by (simp add: s_def command_defs Hours_at_least_iff Sub_def Hour_def)
  from solo_run_is_a_run [OF this] show ?thesis by (auto simp: s_def)
qed

end
