(* ===== verification/Stock_Repo.thy ===== *)
theory Stock_Repo
  imports Mongo Ports
begin

text \<open>
  \<^verbatim>\<open>internal/infra/mdb/stock_repo.go\<close> over the collection of theory Mongo, and the
  interface \<open>port.StockRepo\<close> as the locale \<open>stock_repo\<close>: what the housekeepers, launderers and
  stockers may rely on. Each method holds the repository's mutex from its first to its last
  statement, so a method is one atomic function of the database state.

  The interface speaks of a stock level \<open>qty\<close> per managed item. Its laws need the collection
  to hold one stock document with integer, non-negative quantities (\<open>one_stock\<close>), which is what
  the service assumes of the collection and what every method keeps.
\<close>

subsection \<open>The methods\<close>

fun stockItemQuantityField :: "string \<Rightarrow> go_error + string" where
  "stockItemQuantityField itemName =
     (if itemName = CleaningItem then Inr ''cleaning_items.quantity''
      else if itemName = Soap then Inr ''soap.quantity''
      else if itemName = BathroomAmenities then Inr ''bathroom_amenities.quantity''
      else if itemName = AromaCandle then Inr ''aroma_candles.quantity''
      else if itemName = WaterBottle then Inr ''water_bottle.quantity''
      else if itemName = WineBottle then Inr ''wine_bottle.quantity''
      else if itemName = TeaBags then Inr ''tea_bags.quantity''
      else if itemName = Sweets then Inr ''sweets.quantity''
      else if itemName = Chips then Inr ''chips.quantity''
      else Inl (StockItemQuantityNotUpdatedErr itemName))"

declare stockItemQuantityField.simps [simp del]

definition repo_GetStock :: "'db collection \<Rightarrow> 'db \<Rightarrow> (go_error + (string \<rightharpoonup> StockItem)) \<times> 'db" where
  "repo_GetStock C db =
     (case FindOne C [] db of
        (Inl e, db') \<Rightarrow>
          if errors_Is_noDocuments e then (Inl ErrStockDoesNotExist, db')
          else (Inl (DbUnexpectedErr ''failed to find stock'' e), db')
      | (Inr d, db') \<Rightarrow>
          (case DecodeStock C d of
             Inl e \<Rightarrow> (Inl (CorruptedDataErr e), db')
           | Inr stock \<Rightarrow> (Inr (AsMap stock), db')))"

definition stockDocumentExists :: "'db collection \<Rightarrow> 'db \<Rightarrow> (go_error + bool) \<times> 'db" where
  "stockDocumentExists C db =
     (case FindOne C [] db of
        (Inr d, db') \<Rightarrow> (Inr True, db')
      | (Inl e, db') \<Rightarrow>
          if errors_Is_noDocuments e then (Inr False, db')
          else (Inl (DbUnexpectedErr ''failed to find stock'' e), db'))"

definition validate_item :: "string \<Rightarrow> int \<Rightarrow> outcome" where
  "validate_item itemName quantity =
     Validate (PositiveValue ''quantity'' quantity (NotBlank ''itemName'' itemName New))"

definition repo_ConsumeItem :: "'db collection \<Rightarrow> string \<Rightarrow> int \<Rightarrow> 'db \<Rightarrow> go_error option \<times> 'db" where
  "repo_ConsumeItem C itemName quantity db =
     (case outcome_error (validate_item itemName quantity) of
        Some e \<Rightarrow> (Some e, db)
      | None \<Rightarrow>
     (case stockItemQuantityField itemName of
        Inl e \<Rightarrow> (Some e, db)
      | Inr itemQuantityField \<Rightarrow>
     (let filt = [(itemQuantityField, BDoc [(''$gte'', BInt quantity)])];
          upd = [(''$inc'', BDoc [(itemQuantityField, BInt (- quantity))])]
      in case UpdateOne C filt upd db of
        (Inl e, db') \<Rightarrow>
          (Some (DbUnexpectedErr
             (''could not consume stock item itemName='' @ itemName @ '' quantity='' @ show_int quantity) e),
           db')
      | (Inr result, db') \<Rightarrow>
          if MatchedCount result = 0 then
            (case stockDocumentExists C db' of
               (Inl e, db'') \<Rightarrow> (Some e, db'')
             | (Inr exists, db'') \<Rightarrow>
                 if \<not> exists then (Some ErrStockDoesNotExist, db'')
                 else (Some (StockInsufficientQuantityErr itemName quantity), db''))
          else if ModifiedCount result = 0 then (Some (StockItemQuantityNotUpdatedErr itemName), db')
          else (None, db'))))"

definition repo_RestockItem :: "'db collection \<Rightarrow> string \<Rightarrow> int \<Rightarrow> 'db \<Rightarrow> go_error option \<times> 'db" where
  "repo_RestockItem C itemName quantity db =
     (case outcome_error (validate_item itemName quantity) of
        Some e \<Rightarrow> (Some e, db)
      | None \<Rightarrow>
     (case stockItemQuantityField itemName of
        Inl e \<Rightarrow> (Some e, db)
      | Inr itemQuantityField \<Rightarrow>
     (case UpdateOne C [] [(''$inc'', BDoc [(itemQuantityField, BInt quantity)])] db of
        (Inl e, db') \<Rightarrow>
          (Some (DbUnexpectedErr
             (''could not restock stock item itemName='' @ itemName @ '' quantity='' @ show_int quantity) e),
           db')
      | (Inr result, db') \<Rightarrow>
          if MatchedCount result = 0 then (Some ErrStockDoesNotExist, db')
          else if ModifiedCount result = 0 then (Some (StockItemQuantityNotUpdatedErr itemName), db')
          else (None, db'))))"

subsection \<open>The field of an item\<close>

text \<open>
  The switch of \<open>stockItemQuantityField\<close>, the keys of \<open>AsMap\<close> and the bson tags of the struct
  are three tables that have to agree: \<open>item_tag\<close> pairs each managed item with the tag under
  which \<open>AsMap\<close> reads it.
\<close>

definition item_tag :: "(string \<times> string) list" where
  "item_tag = zip ManagedStockItemNames (map fst stock_tags)"

lemma item_tag_code:
  "item_tag =
     [(CleaningItem, ''cleaning_items''), (Soap, ''soap''),
      (BathroomAmenities, ''bathroom_amenities''), (AromaCandle, ''aroma_candles''),
      (WaterBottle, ''water_bottle''), (WineBottle, ''wine_bottle''), (TeaBags, ''tea_bags''),
      (Sweets, ''sweets''), (Chips, ''chips'')]"
  by (simp add: item_tag_def ManagedStockItemNames_def stock_tags_def)

lemma field_managed:
  "stockItemQuantityField i =
     (case map_of item_tag i of
        Some tag \<Rightarrow> Inr (tag @ ''.quantity'')
      | None \<Rightarrow> Inl (StockItemQuantityNotUpdatedErr i))"
  by (simp add: stockItemQuantityField.simps item_tag_code item_defs)

lemma map_of_item_tag_iff: "(\<exists>tag. map_of item_tag i = Some tag) \<longleftrightarrow> i \<in> set ManagedStockItemNames"
  by (simp add: item_tag_code ManagedStockItemNames_def item_defs)

lemma item_tag_inj:
  "map_of item_tag i = Some tag \<Longrightarrow> map_of item_tag j = Some tag \<Longrightarrow> i = j"
  by (auto simp: item_tag_code item_defs split: if_splits)

lemma item_tag_reads:
  assumes "map_of item_tag i = Some tag"
  shows "\<exists>f. (tag, f) \<in> set stock_tags \<and> (\<forall>s. AsMap s i = Some (f s))"
proof -
  from assms consider
      "i = CleaningItem" "tag = ''cleaning_items''" | "i = Soap" "tag = ''soap''"
    | "i = BathroomAmenities" "tag = ''bathroom_amenities''" | "i = AromaCandle" "tag = ''aroma_candles''"
    | "i = WaterBottle" "tag = ''water_bottle''" | "i = WineBottle" "tag = ''wine_bottle''"
    | "i = TeaBags" "tag = ''tea_bags''" | "i = Sweets" "tag = ''sweets''" | "i = Chips" "tag = ''chips''"
    by (auto simp: item_tag_code split: if_splits)
  then show ?thesis
    by cases (auto simp: stock_tags_def AsMap_def item_defs)
qed

lemma item_not_blank:
  assumes "i \<in> set ManagedStockItemNames"
  shows "TrimSpace i \<noteq> ''''"
proof -
  have "list_all (\<lambda>i. TrimSpace i \<noteq> '''') ManagedStockItemNames" by code_simp
  with assms show ?thesis by (simp add: list_all_iff)
qed

subsection \<open>The stock level\<close>

definition quantity_path :: "string \<Rightarrow> string" where
  "quantity_path tag = tag @ ''.quantity''"

definition wf_stock :: "doc \<Rightarrow> bool" where
  "wf_stock d \<longleftrightarrow> well_typed d \<and>
     (\<forall>(tag, f) \<in> set stock_tags. \<forall>q. map_of d (tag @ ''.quantity'') = Some (BInt q) \<longrightarrow> 0 \<le> q)"

definition one_stock :: "('db \<Rightarrow> doc list) \<Rightarrow> 'db \<Rightarrow> bool" where
  "one_stock content db \<longleftrightarrow> (\<exists>d. content db = [d] \<and> wf_stock d)"

definition doc_qty :: "doc \<Rightarrow> string \<Rightarrow> int option" where
  "doc_qty d i =
     (case stockItemQuantityField i of
        Inl e \<Rightarrow> None
      | Inr p \<Rightarrow> (case map_of d p of Some (BInt q) \<Rightarrow> Some q | _ \<Rightarrow> None))"

definition stock_qty :: "('db \<Rightarrow> doc list) \<Rightarrow> 'db \<Rightarrow> string \<Rightarrow> int option" where
  "stock_qty content db i = (case content db of [d] \<Rightarrow> doc_qty d i | _ \<Rightarrow> None)"

lemma wf_stock_iff:
  "wf_stock d \<longleftrightarrow>
     (\<forall>tag \<in> fst ` set stock_tags.
        (\<exists>q \<ge> 0. map_of d (quantity_path tag) = Some (BInt q)) \<and>
        (map_of d (tag @ ''.name'') = None \<or> (\<exists>s. map_of d (tag @ ''.name'') = Some (BStr s))))"
  unfolding wf_stock_def well_typed_def quantity_path_def by fastforce

lemma tag_in_stock_tags: "map_of item_tag i = Some tag \<Longrightarrow> \<exists>f. (tag, f) \<in> set stock_tags"
  using item_tag_reads by blast

lemma wf_stock_item:
  assumes "wf_stock d" "map_of item_tag i = Some tag"
  obtains n where "map_of d (quantity_path tag) = Some (BInt n)" "0 \<le> n" "doc_qty d i = Some n"
proof -
  from assms(2) obtain f where "(tag, f) \<in> set stock_tags" using tag_in_stock_tags by blast
  with assms(1) obtain n where "map_of d (quantity_path tag) = Some (BInt n)" "0 \<le> n"
    by (fastforce simp: wf_stock_def well_typed_def quantity_path_def)
  with assms(2) that show thesis by (simp add: doc_qty_def field_managed quantity_path_def)
qed

text \<open>Setting the quantity of one item: the other items and the well-formedness stay.\<close>

lemma quantity_name_distinct: "quantity_path tag \<noteq> tag' @ ''.name''"
proof
  assume "quantity_path tag = tag' @ ''.name''"
  then have "last (quantity_path tag) = last (tag' @ ''.name'')" by (rule arg_cong)
  then show False by (simp add: quantity_path_def)
qed

lemma wf_stock_set:
  assumes "wf_stock d" "0 \<le> n"
  shows "wf_stock (AList.update (quantity_path tag) (BInt n) d)"
proof -
  have q: "\<exists>q \<ge> 0. map_of (AList.update (quantity_path tag) (BInt n) d) (quantity_path t) = Some (BInt q)"
    if "\<exists>q \<ge> 0. map_of d (quantity_path t) = Some (BInt q)" for t
    using that assms(2) by (cases "quantity_path t = quantity_path tag") (simp_all add: map_of_AList_update)
  have "map_of (AList.update (quantity_path tag) (BInt n) d) (t @ ''.name'') = map_of d (t @ ''.name'')" for t
    using quantity_name_distinct [of tag t] by (simp add: map_of_AList_update)
  with q assms(1) show ?thesis unfolding wf_stock_iff by simp
qed

lemma doc_qty_set:
  assumes "map_of item_tag i = Some tag"
  shows "doc_qty (AList.update (quantity_path tag) (BInt n) d) = (doc_qty d)(i \<mapsto> n)"
proof
  fix j
  show "doc_qty (AList.update (quantity_path tag) (BInt n) d) j = ((doc_qty d)(i \<mapsto> n)) j"
  proof (cases "map_of item_tag j")
    case None
    with assms show ?thesis by (auto simp: doc_qty_def field_managed)
  next
    case (Some t)
    have "t = tag \<longleftrightarrow> j = i" using assms Some item_tag_inj [OF assms, of j] by auto
    with assms Some show ?thesis
      by (simp add: doc_qty_def field_managed quantity_path_def map_of_AList_update)
  qed
qed

lemma stock_qty_one: "content db = [d] \<Longrightarrow> stock_qty content db = doc_qty d"
  by (rule ext) (simp add: stock_qty_def)

lemma doc_qty_unmanaged: "map_of item_tag i = None \<Longrightarrow> doc_qty d i = None"
  by (simp add: doc_qty_def field_managed)

lemma validate_item_error:
  "outcome_error (validate_item i q) =
     (if TrimSpace i = '''' then Some (ErrValidationConstrain ''itemName'' ''must not be blank'')
      else if q \<le> 0 then Some (ErrValidationConstrain ''quantity'' ''must be greater than 0'')
      else None)"
  by (simp add: validate_item_def outcome_error_def NotBlank_def PositiveValue_def)

subsection \<open>The methods against the contract of the driver\<close>

locale mongo_collection =
  fixes C :: "'db collection" and content :: "'db \<Rightarrow> doc list" and up :: "'db \<Rightarrow> bool"
  assumes contract: "mongo_contract C content up"
begin

lemma find_all:
  assumes "content db = [d]" "FindOne C [] db = (r, db')"
  shows "content db' = [d] \<and> (up db \<longrightarrow> up db') \<and>
    (r = Inr d \<or> \<not> up db \<and> (\<exists>e. r = Inl e \<and> \<not> errors_Is_noDocuments e))"
  using contract assms unfolding mongo_contract_def find_contract_def
  by (cases r) (force simp: matches_def)+

lemma update_one:
  assumes "content db = [d]" "matches f d" "apply_update u d = Some d'" "UpdateOne C f u db = (r, db')"
  shows "(up db \<longrightarrow> up db') \<and>
    ((\<exists>n. r = Inr n \<and> content db' = [d'] \<and> MatchedCount n = 1 \<and> ModifiedCount n = (if d' = d then 0 else 1)) \<or>
     (\<exists>e. r = Inl e \<and> \<not> up db \<and> content db' \<in> {[d], [d']}))"
  using contract assms unfolding mongo_contract_def update_contract_def
  by (cases r) force+

lemma update_none:
  assumes "content db = [d]" "\<not> matches f d" "UpdateOne C f u db = (r, db')"
  shows "content db' = [d] \<and> (up db \<longrightarrow> up db') \<and>
    ((\<exists>n. r = Inr n \<and> MatchedCount n = 0) \<or> (\<exists>e. r = Inl e \<and> \<not> up db))"
  using contract assms unfolding mongo_contract_def update_contract_def
  by (cases r) force+

lemma consume_rejected:
  assumes "map_of item_tag i = None \<or> q \<le> 0" "repo_ConsumeItem C i q db = (r, db')"
  shows "db' = db \<and> (\<exists>e. r = Some e \<and> errors_As_stock e = None)"
  using assms by (auto simp: repo_ConsumeItem_def validate_item_error field_managed split: if_splits)

lemma restock_rejected:
  assumes "map_of item_tag i = None \<or> q \<le> 0" "repo_RestockItem C i q db = (r, db')"
  shows "db' = db \<and> (\<exists>e. r = Some e)"
  using assms by (auto simp: repo_RestockItem_def validate_item_error field_managed split: if_splits)

lemma managed_item:
  assumes "map_of item_tag i = Some tag"
  shows "TrimSpace i \<noteq> ''''" and "stockItemQuantityField i = Inr (quantity_path tag)"
  using assms map_of_item_tag_iff [of i] item_not_blank [of i]
  by (auto simp: field_managed quantity_path_def)

lemma consume_accepted:
  assumes d: "content db = [d]" and tag: "map_of item_tag i = Some tag" and "0 < q"
    and n: "map_of d (quantity_path tag) = Some (BInt n)" and c: "repo_ConsumeItem C i q db = (r, db')"
  defines "d' \<equiv> AList.update (quantity_path tag) (BInt (n - q)) d"
  shows "(up db \<longrightarrow> up db') \<and>
    (if n < q then content db' = [d] \<and>
        (r = Some (StockInsufficientQuantityErr i q) \<or> \<not> up db \<and> (\<exists>m e. r = Some (DbUnexpectedErr m e)))
     else r = None \<and> content db' = [d'] \<or>
        \<not> up db \<and> (\<exists>m e. r = Some (DbUnexpectedErr m e)) \<and> content db' \<in> {[d], [d']})"
proof -
  let ?p = "quantity_path tag"
  let ?f = "[(?p, BDoc [(''$gte'', BInt q)])]" and ?u = "[(''$inc'', BDoc [(?p, BInt (- q))])]"
  obtain r1 db1 where u: "UpdateOne C ?f ?u db = (r1, db1)" by fastforce
  have m: "matches ?f d \<longleftrightarrow> q \<le> n" by (simp add: matches_def n)
  have a: "apply_update ?u d = Some d'" by (simp add: n d'_def)
  have ne: "d' \<noteq> d" using \<open>0 < q\<close> n by (simp add: d'_def AList_update_eq)
  have q: "\<not> q \<le> 0" using \<open>0 < q\<close> by simp
  note defs = repo_ConsumeItem_def validate_item_error managed_item [OF tag] q u Let_def
  show ?thesis
  proof (cases "n < q")
    case True
    then have nm: "\<not> matches ?f d" using m by simp
    from update_none [OF d nm u] have u': "content db1 = [d]" "up db \<longrightarrow> up db1"
      "(\<exists>k. r1 = Inr k \<and> MatchedCount k = 0) \<or> (\<exists>e. r1 = Inl e \<and> \<not> up db)" by blast+
    obtain r2 db2 where f: "FindOne C [] db1 = (r2, db2)" by fastforce
    from find_all [OF u'(1) f] u' True c show ?thesis
      by (auto simp: defs f stockDocumentExists_def split: if_splits)
  next
    case False
    then have "matches ?f d" using m by simp
    from update_one [OF d this a u] False c ne show ?thesis
      by (auto simp: defs split: if_splits)
  qed
qed

lemma restock_accepted:
  assumes d: "content db = [d]" and tag: "map_of item_tag i = Some tag" and "0 < q"
    and n: "map_of d (quantity_path tag) = Some (BInt n)" and c: "repo_RestockItem C i q db = (r, db')"
  defines "d' \<equiv> AList.update (quantity_path tag) (BInt (n + q)) d"
  shows "(up db \<longrightarrow> up db') \<and>
    (r = None \<and> content db' = [d'] \<or>
     \<not> up db \<and> (\<exists>m e. r = Some (DbUnexpectedErr m e)) \<and> content db' \<in> {[d], [d']})"
proof -
  let ?u = "[(''$inc'', BDoc [(quantity_path tag, BInt q)])]"
  obtain r1 db1 where u: "UpdateOne C [] ?u db = (r1, db1)" by fastforce
  have m: "matches [] d" by (simp add: matches_def)
  have a: "apply_update ?u d = Some d'" by (simp add: n d'_def)
  have ne: "d' \<noteq> d" using \<open>0 < q\<close> n by (simp add: d'_def AList_update_eq)
  have q: "\<not> q \<le> 0" using \<open>0 < q\<close> by simp
  from update_one [OF d m a u] c ne show ?thesis
    by (auto simp: repo_RestockItem_def validate_item_error managed_item [OF tag] q u
        split: if_splits)
qed

end

context mongo_collection
begin

lemma one_stock_item:
  assumes "one_stock content db" "map_of item_tag i = Some tag"
  obtains d n where "content db = [d]" "wf_stock d" "map_of d (quantity_path tag) = Some (BInt n)"
    "0 \<le> n" "doc_qty d i = Some n" "stock_qty content db = doc_qty d"
  using assms wf_stock_item [OF _ assms(2)] stock_qty_one unfolding one_stock_def by metis

lemma one_stock_set:
  assumes "wf_stock d" "map_of item_tag i = Some tag" "0 \<le> n"
    and "content db' = [AList.update (quantity_path tag) (BInt n) d]"
  shows "one_stock content db' \<and> stock_qty content db' = (doc_qty d)(i \<mapsto> n)"
  using assms by (simp add: one_stock_def wf_stock_set stock_qty_one doc_qty_set)

lemma one_stock_same:
  assumes "content db = [d]" "wf_stock d" "content db' = [d]"
  shows "one_stock content db' \<and> stock_qty content db' = doc_qty d"
  using assms by (simp add: one_stock_def stock_qty_one)

lemma repo_consume:
  assumes inv: "one_stock content db" and c: "repo_ConsumeItem C i q db = (r, db')"
  shows "one_stock content db' \<and> (up db \<longrightarrow> up db') \<and>
    (case r of
       None \<Rightarrow> 0 < q \<and> (\<exists>n. stock_qty content db i = Some n \<and> q \<le> n \<and>
                    stock_qty content db' = (stock_qty content db)(i \<mapsto> n - q))
     | Some e \<Rightarrow>
         (case errors_As_stock e of
            Some s \<Rightarrow> s = StockInsufficientQuantityErr i q \<and> 0 < q \<and>
              (\<exists>n. stock_qty content db i = Some n \<and> n < q) \<and> stock_qty content db' = stock_qty content db
          | None \<Rightarrow> (\<not> up db \<or> i \<notin> set ManagedStockItemNames \<or> q \<le> 0) \<and>
              (stock_qty content db' = stock_qty content db \<or>
               0 < q \<and> (\<exists>n. stock_qty content db i = Some n \<and> q \<le> n \<and>
                    stock_qty content db' = (stock_qty content db)(i \<mapsto> n - q)))))"
proof (cases "map_of item_tag i = None \<or> q \<le> 0")
  case True
  with consume_rejected [OF True c] inv map_of_item_tag_iff [of i] show ?thesis by auto
next
  case False
  then obtain tag where tag: "map_of item_tag i = Some tag" and q: "0 < q" by auto
  obtain d n where d: "content db = [d]" "wf_stock d" and n: "map_of d (quantity_path tag) = Some (BInt n)"
    "0 \<le> n" "doc_qty d i = Some n" "stock_qty content db = doc_qty d"
    by (rule one_stock_item [OF inv tag])
  note same = one_stock_same [OF d] and upd = one_stock_set [OF d(2) tag, of "n - q" db']
  from consume_accepted [OF d(1) tag q n(1) c] show ?thesis
    using same [of db'] upd n q by (cases "n < q") auto
qed

lemma repo_restock:
  assumes inv: "one_stock content db" and c: "repo_RestockItem C i q db = (r, db')"
  shows "one_stock content db' \<and> (up db \<longrightarrow> up db') \<and>
    (if r = None then 0 < q \<and> (\<exists>n. stock_qty content db i = Some n \<and>
                    stock_qty content db' = (stock_qty content db)(i \<mapsto> n + q))
     else (\<not> up db \<or> i \<notin> set ManagedStockItemNames \<or> q \<le> 0) \<and>
          (stock_qty content db' = stock_qty content db \<or>
           0 < q \<and> (\<exists>n. stock_qty content db i = Some n \<and>
                    stock_qty content db' = (stock_qty content db)(i \<mapsto> n + q))))"
proof (cases "map_of item_tag i = None \<or> q \<le> 0")
  case True
  with restock_rejected [OF True c] inv map_of_item_tag_iff [of i] show ?thesis by auto
next
  case False
  then obtain tag where tag: "map_of item_tag i = Some tag" and q: "0 < q" by auto
  obtain d n where d: "content db = [d]" "wf_stock d" and n: "map_of d (quantity_path tag) = Some (BInt n)"
    "0 \<le> n" "doc_qty d i = Some n" "stock_qty content db = doc_qty d"
    by (rule one_stock_item [OF inv tag])
  note same = one_stock_same [OF d] and upd = one_stock_set [OF d(2) tag, of "n + q" db']
  from restock_accepted [OF d(1) tag q n(1) c] show ?thesis
    using same [of db'] upd n q by auto
qed

lemma repo_get:
  assumes inv: "one_stock content db" and g: "repo_GetStock C db = (r, db')"
  shows "one_stock content db' \<and> stock_qty content db' = stock_qty content db \<and> (up db \<longrightarrow> up db' \<and> \<not> isl r) \<and>
    (\<forall>m. r = Inr m \<longrightarrow> dom m = set ManagedStockItemNames \<and>
       (\<forall>i x. m i = Some x \<longrightarrow> stock_qty content db i = Some (Quantity x)))"
proof -
  from inv obtain d where d: "content db = [d]" "wf_stock d" by (auto simp: one_stock_def)
  then have wt: "well_typed d" by (simp add: wf_stock_def)
  have dec: "\<not> isl (DecodeStock C d)"
    and rd: "\<And>s tag f. DecodeStock C d = Inr s \<Longrightarrow> (tag, f) \<in> set stock_tags \<Longrightarrow> decodes_item d tag (f s)"
    using contract wt unfolding mongo_contract_def decode_contract_def by fastforce+
  have val: "stock_qty content db i = Some (Quantity x)"
    if "DecodeStock C d = Inr s" "AsMap s i = Some x" for s i x
  proof -
    from that(2) have "i \<in> set ManagedStockItemNames" using dom_AsMap [of s] by blast
    then obtain tag where tag: "map_of item_tag i = Some tag" using map_of_item_tag_iff by blast
    then obtain f where f: "(tag, f) \<in> set stock_tags" "AsMap s i = Some (f s)" using item_tag_reads by blast
    from wf_stock_item [OF d(2) tag] obtain n where n: "map_of d (quantity_path tag) = Some (BInt n)"
      "doc_qty d i = Some n" by blast
    from rd [OF that(1) f(1)] n(1) have "Quantity (f s) = n"
      by (simp add: decodes_item_def quantity_path_def)
    with f(2) that(2) n(2) d(1) show ?thesis by (simp add: stock_qty_one)
  qed
  obtain r1 db1 where fo: "FindOne C [] db = (r1, db1)" by fastforce
  note fa = find_all [OF d(1) fo] and same = one_stock_same [OF d, of db1]
  have sq: "stock_qty content db = doc_qty d" by (rule stock_qty_one [of content, OF d(1)])
  show ?thesis
  proof (cases r1)
    case (Inl e)
    with fa same g sq show ?thesis by (auto simp: repo_GetStock_def fo)
  next
    case (Inr d1)
    with fa have "d1 = d" by simp
    from dec obtain s where s: "DecodeStock C d = Inr s" by (cases "DecodeStock C d") auto
    with g Inr \<open>d1 = d\<close> have r: "r = Inr (AsMap s)" "db' = db1" by (simp_all add: repo_GetStock_def fo)
    have "\<forall>i x. AsMap s i = Some x \<longrightarrow> stock_qty content db i = Some (Quantity x)"
      using val [OF s] by blast
    with fa same sq r show ?thesis by (simp add: dom_AsMap)
  qed
qed

end

text \<open>Every collection that keeps the driver's contract gives a stock repository.\<close>

sublocale mongo_collection \<subseteq> repo: stock_repo
  "repo_GetStock C" "repo_ConsumeItem C" "repo_RestockItem C" "stock_qty content" "one_stock content" up
proof (unfold_locales, goal_cases)
  case (1 w i)
  then show ?case using map_of_item_tag_iff [of i] one_stock_item [of w i] by metis
next
  case (2 w r w')
  then show ?case using repo_get by blast
next
  case (3 w m w')
  then show ?case using repo_get by blast
next
  case (4 w i q w')
  from repo_consume [OF 4] show ?case by auto
next
  case (5 w i q e w' s)
  from repo_consume [OF 5(1,2)] 5(3) show ?case by auto
next
  case (6 w i q e w')
  from repo_consume [OF 6(1,2)] 6(3) show ?case by auto
next
  case (7 w i q e w')
  from repo_consume [OF 7(1,5)] 7(2-4) show ?case by (auto split: option.splits)
next
  case (8 w i q w')
  from repo_restock [OF 8] show ?case by auto
next
  case (9 w i q e w')
  from repo_restock [OF 9] show ?case by auto
next
  case (10 w i q)
  from repo_restock [OF 10(1) prod.collapse [symmetric], of i q] 10(2-4) show ?case
    by (auto split: if_splits)
qed

interpretation mem: mongo_collection mem_collection docs mem_up
  by unfold_locales (rule mem_contract)

subsection \<open>Properties\<close>

text \<open>A stock document with given quantities, and a healthy server that holds it.\<close>

definition stock_doc :: "int list \<Rightarrow> doc" where
  "stock_doc qs = map2 (\<lambda>(tag, f) q. (tag @ ''.quantity'', BInt q)) stock_tags qs"

definition stock_server :: "int list \<Rightarrow> outage list \<Rightarrow> memory" where
  "stock_server qs os = \<lparr>docs = [stock_doc qs], outages = os\<rparr>"

definition example_quantities :: "int list" where
  "example_quantities = [30, 12, 5, 3, 40, 2, 50, 9, 10]"

lemma stock_server_ok:
  assumes "length qs = length stock_tags" "\<forall>q \<in> set qs. 0 \<le> q"
  shows "one_stock docs (stock_server qs os)"
proof -
  from assms(1) obtain a b c d e f g h i where qs: "qs = [a, b, c, d, e, f, g, h, i]"
    by (auto simp: stock_tags_def length_Suc_conv)
  with assms(2) have "wf_stock (stock_doc qs)"
    unfolding wf_stock_def well_typed_def by (simp add: stock_doc_def stock_tags_def)
  then show ?thesis by (simp add: one_stock_def stock_server_def)
qed

lemma example_ok: "one_stock docs (stock_server example_quantities os)"
  by (rule stock_server_ok) (simp_all add: example_quantities_def stock_tags_def)

lemma stock_level_managed: "stock_qty content db i = Some n \<Longrightarrow> i \<in> set ManagedStockItemNames"
  using doc_qty_unmanaged [of i] map_of_item_tag_iff [of i]
  by (cases "map_of item_tag i") (auto simp: stock_qty_def split: list.splits)

text \<open>C6: whatever the server does within its contract, \<open>ConsumeItem\<close> keeps the stock document
  well-formed with no negative level; success takes exactly the quantity from a level that had
  enough of it; \<open>StockInsufficientQuantityErr\<close> is returned exactly for a level below the quantity
  and changes nothing; every other error needs an outage or a rejected argument, and leaves the
  levels as they were or with the one withdrawal done.\<close>

theorem consume_item_levels:
  assumes "mongo_contract C content up" "one_stock content db" "repo_ConsumeItem C i q db = (r, db')"
  shows "one_stock content db' \<and> (up db \<longrightarrow> up db') \<and>
    (case r of
       None \<Rightarrow> 0 < q \<and> (\<exists>n. stock_qty content db i = Some n \<and> q \<le> n \<and>
                    stock_qty content db' = (stock_qty content db)(i \<mapsto> n - q))
     | Some e \<Rightarrow>
         (case errors_As_stock e of
            Some s \<Rightarrow> s = StockInsufficientQuantityErr i q \<and> 0 < q \<and>
              (\<exists>n. stock_qty content db i = Some n \<and> n < q) \<and> stock_qty content db' = stock_qty content db
          | None \<Rightarrow> (\<not> up db \<or> i \<notin> set ManagedStockItemNames \<or> q \<le> 0) \<and>
              (stock_qty content db' = stock_qty content db \<or>
               0 < q \<and> (\<exists>n. stock_qty content db i = Some n \<and> q \<le> n \<and>
                    stock_qty content db' = (stock_qty content db)(i \<mapsto> n - q)))))"
  by (rule mongo_collection.repo_consume [OF mongo_collection.intro [OF assms(1)] assms(2,3)])

theorem consume_item_levels_witness:
  "let db = stock_server example_quantities [Fine];
       (r, db') = repo_ConsumeItem mem_collection Soap 10 db
   in r = None \<and> stock_qty docs db Soap = Some 12 \<and> stock_qty docs db' Soap = Some 2"
proof -
  define db where "db = stock_server example_quantities [Fine]"
  obtain r db' where c: "repo_ConsumeItem mem_collection Soap 10 db = (r, db')" by fastforce
  have n: "stock_qty docs db Soap = Some 12" unfolding db_def by code_simp
  have "fst (repo_ConsumeItem mem_collection Soap 10 db) = None" unfolding db_def by code_simp
  with c have r: "r = None" by simp
  from consume_item_levels [OF mem_contract example_ok [of "[Fine]", folded db_def] c] r n
  show ?thesis by (simp add: db_def [symmetric] c)
qed

text \<open>\<open>RestockItem\<close> likewise: success adds exactly the quantity, a managed item with a
  positive quantity only fails in an outage, and a failed call has added the quantity at most
  once.\<close>

theorem restock_item_levels:
  assumes "mongo_contract C content up" "one_stock content db" "repo_RestockItem C i q db = (r, db')"
  shows "one_stock content db' \<and> (up db \<longrightarrow> up db') \<and>
    (if r = None then 0 < q \<and> (\<exists>n. stock_qty content db i = Some n \<and>
                    stock_qty content db' = (stock_qty content db)(i \<mapsto> n + q))
     else (\<not> up db \<or> i \<notin> set ManagedStockItemNames \<or> q \<le> 0) \<and>
          (stock_qty content db' = stock_qty content db \<or>
           0 < q \<and> (\<exists>n. stock_qty content db i = Some n \<and>
                    stock_qty content db' = (stock_qty content db)(i \<mapsto> n + q))))"
  by (rule mongo_collection.repo_restock [OF mongo_collection.intro [OF assms(1)] assms(2,3)])

theorem restock_item_levels_witness:
  "let db = stock_server example_quantities [LostReply];
       (r, db') = repo_RestockItem mem_collection WineBottle 50 db
   in r \<noteq> None \<and> one_stock docs db' \<and> stock_qty docs db' WineBottle = Some 52"
proof -
  define db where "db = stock_server example_quantities [LostReply]"
  obtain r db' where c: "repo_RestockItem mem_collection WineBottle 50 db = (r, db')" by fastforce
  have "fst (repo_RestockItem mem_collection WineBottle 50 db) \<noteq> None \<and>
      stock_qty docs (snd (repo_RestockItem mem_collection WineBottle 50 db)) WineBottle = Some 52"
    unfolding db_def by code_simp
  with restock_item_levels [OF mem_contract example_ok [of "[LostReply]", folded db_def] c]
  show ?thesis by (simp add: db_def [symmetric] c)
qed

text \<open>\<open>GetStock\<close> changes nothing, always answers when the server is up, and what it answers
  are the nine managed items with their present levels.\<close>

theorem get_stock_levels:
  assumes "mongo_contract C content up" "one_stock content db" "repo_GetStock C db = (r, db')"
  shows "one_stock content db' \<and> stock_qty content db' = stock_qty content db \<and> (up db \<longrightarrow> up db' \<and> \<not> isl r) \<and>
    (\<forall>m. r = Inr m \<longrightarrow> dom m = set ManagedStockItemNames \<and>
       (\<forall>i x. m i = Some x \<longrightarrow> stock_qty content db i = Some (Quantity x)))"
  by (rule mongo_collection.repo_get [OF mongo_collection.intro [OF assms(1)] assms(2,3)])

theorem get_stock_levels_witness:
  "\<exists>m db'. repo_GetStock mem_collection (stock_server example_quantities []) = (Inr m, db') \<and>
     dom m = set ManagedStockItemNames \<and> map_option Quantity (m TeaBags) = Some 50"
proof -
  let ?db = "stock_server example_quantities []"
  obtain r db' where g: "repo_GetStock mem_collection ?db = (r, db')" by fastforce
  note p = get_stock_levels [OF mem_contract example_ok g]
  have "mem_up ?db" by (simp add: mem_up_def stock_server_def)
  with p obtain m where m: "r = Inr m" by (cases r) auto
  have "stock_qty docs ?db TeaBags = Some 50" by code_simp
  moreover have "\<exists>x. m TeaBags = Some x"
    using p m by (auto simp: ManagedStockItemNames_def)
  ultimately show ?thesis using p m g by auto
qed

text \<open>The three tables of the stock agree: an item has an update path exactly if it is one of
  the managed items, and the path is the quantity field of the very struct field from which
  \<open>AsMap\<close> reads the item.\<close>

theorem item_tables_agree:
  "(\<exists>p. stockItemQuantityField i = Inr p) = (i \<in> set ManagedStockItemNames) \<and>
   (case stockItemQuantityField i of
      Inl e \<Rightarrow> e = StockItemQuantityNotUpdatedErr i \<and> (\<forall>s. AsMap s i = None)
    | Inr p \<Rightarrow> (\<exists>tag f. p = tag @ ''.quantity'' \<and> (tag, f) \<in> set stock_tags \<and> (\<forall>s. AsMap s i = Some (f s))))"
proof (cases "map_of item_tag i")
  case None
  then have "i \<notin> set ManagedStockItemNames" using map_of_item_tag_iff [of i] by simp
  moreover from this have "AsMap s i = None" for s using dom_AsMap [of s] by blast
  ultimately show ?thesis using None by (simp add: field_managed)
next
  case (Some tag)
  with item_tag_reads [OF Some] map_of_item_tag_iff [of i] show ?thesis by (auto simp: field_managed)
qed

text \<open>Any sequence of calls on the repository.\<close>

datatype stock_call = GetCall | ConsumeCall string int | RestockCall string int

fun run_call :: "'db collection \<Rightarrow> stock_call \<Rightarrow> 'db \<Rightarrow> 'db" where
  "run_call C GetCall db = snd (repo_GetStock C db)"
| "run_call C (ConsumeCall i q) db = snd (repo_ConsumeItem C i q db)"
| "run_call C (RestockCall i q) db = snd (repo_RestockItem C i q db)"

definition attempted :: "(stock_call \<Rightarrow> (string \<times> int) option) \<Rightarrow> string \<Rightarrow> stock_call list \<Rightarrow> int" where
  "attempted f i cs =
     sum_list (map (\<lambda>c. case f c of Some (j, q) \<Rightarrow> if j = i then max 0 q else 0 | None \<Rightarrow> 0) cs)"

definition restock_of :: "stock_call \<Rightarrow> (string \<times> int) option" where
  "restock_of c = (case c of RestockCall i q \<Rightarrow> Some (i, q) | _ \<Rightarrow> None)"

definition consume_of :: "stock_call \<Rightarrow> (string \<times> int) option" where
  "consume_of c = (case c of ConsumeCall i q \<Rightarrow> Some (i, q) | _ \<Rightarrow> None)"

context mongo_collection
begin

lemma run_call_level:
  assumes "one_stock content db" "stock_qty content db i = Some n"
  shows "one_stock content (run_call C c db) \<and>
    (\<exists>m. stock_qty content (run_call C c db) i = Some m \<and>
       n - attempted consume_of i [c] \<le> m \<and> m \<le> n + attempted restock_of i [c])"
proof (cases c)
  case GetCall
  with repo_get [OF assms(1), of "fst (repo_GetStock C db)"] assms(2) show ?thesis
    by (simp add: attempted_def restock_of_def consume_of_def)
next
  case (ConsumeCall j q)
  obtain r db' where c: "repo_ConsumeItem C j q db = (r, db')" by fastforce
  from repo_consume [OF assms(1) c] have "one_stock content db'" and
    "stock_qty content db' = stock_qty content db \<or>
     0 < q \<and> (\<exists>n. stock_qty content db j = Some n \<and> stock_qty content db' = (stock_qty content db)(j \<mapsto> n - q))"
    by (auto split: option.splits)
  with ConsumeCall c assms(2) show ?thesis
    by (auto simp: attempted_def restock_of_def consume_of_def)
next
  case (RestockCall j q)
  obtain r db' where c: "repo_RestockItem C j q db = (r, db')" by fastforce
  from repo_restock [OF assms(1) c] have "one_stock content db'" and
    "stock_qty content db' = stock_qty content db \<or>
     0 < q \<and> (\<exists>n. stock_qty content db j = Some n \<and> stock_qty content db' = (stock_qty content db)(j \<mapsto> n + q))"
    by (auto split: if_splits)
  with RestockCall c assms(2) show ?thesis
    by (auto simp: attempted_def restock_of_def consume_of_def)
qed

lemma run_calls_level:
  assumes "one_stock content db" "stock_qty content db i = Some n"
  shows "one_stock content (fold (run_call C) cs db) \<and>
    (\<exists>m. stock_qty content (fold (run_call C) cs db) i = Some m \<and>
       n - attempted consume_of i cs \<le> m \<and> m \<le> n + attempted restock_of i cs)"
  using assms
proof (induction cs arbitrary: db n)
  case Nil
  then show ?case by (simp add: attempted_def)
next
  case (Cons c cs)
  from run_call_level [OF Cons.prems, of c] obtain m where m: "one_stock content (run_call C c db)"
    "stock_qty content (run_call C c db) i = Some m"
    "n - attempted consume_of i [c] \<le> m" "m \<le> n + attempted restock_of i [c]" by blast
  have "attempted f i (c # cs) = attempted f i [c] + attempted f i cs" for f by (simp add: attempted_def)
  with Cons.IH [OF m(1,2)] m(3,4) show ?case by fastforce
qed

end

text \<open>C20: no sequence of calls, with outages and lost replies at any point, makes a level negative
  or takes or adds more than was asked for.\<close>

theorem stock_calls_bounds:
  assumes "mongo_contract C content up" "one_stock content db" "i \<in> set ManagedStockItemNames"
  shows "\<exists>n m. stock_qty content db i = Some n \<and> stock_qty content (fold (run_call C) cs db) i = Some m \<and>
    0 \<le> m \<and> n - attempted consume_of i cs \<le> m \<and> m \<le> n + attempted restock_of i cs"
proof -
  note mc = mongo_collection.intro [OF assms(1)]
  from mongo_collection.one_stock_item [OF mc assms(2)] obtain n where n: "stock_qty content db i = Some n"
    using assms(3) map_of_item_tag_iff [of i] by metis
  from mongo_collection.run_calls_level [OF mc assms(2) n, of cs] obtain m where
    m: "one_stock content (fold (run_call C) cs db)" "stock_qty content (fold (run_call C) cs db) i = Some m"
    "n - attempted consume_of i cs \<le> m" "m \<le> n + attempted restock_of i cs" by blast
  have "0 \<le> m" using mongo_collection.one_stock_item [OF mc m(1)] assms(3) map_of_item_tag_iff [of i] m(2)
    by (metis option.inject)
  with n m show ?thesis by blast
qed

theorem stock_calls_bounds_witness:
  "\<exists>m. stock_qty docs (fold (run_call mem_collection)
       [ConsumeCall Soap 10, ConsumeCall Soap 10, RestockCall Soap 50, GetCall]
       (stock_server example_quantities [LostReply, Fine, Fine, Lost])) Soap = Some m \<and> 0 \<le> m \<and> m \<le> 62"
proof -
  let ?cs = "[ConsumeCall Soap 10, ConsumeCall Soap 10, RestockCall Soap 50, GetCall]"
  have n: "stock_qty docs (stock_server example_quantities [LostReply, Fine, Fine, Lost]) Soap = Some 12" by code_simp
  have a: "attempted restock_of Soap ?cs = 50" by (simp add: attempted_def restock_of_def)
  have "Soap \<in> set ManagedStockItemNames" by (simp add: ManagedStockItemNames_def)
  from stock_calls_bounds [OF mem_contract example_ok [of "[LostReply, Fine, Fine, Lost]"] this, of ?cs] n a
  show ?thesis by auto
qed

text \<open>
  The type of the stock document: what is a quantity field holds a count that is not negative,
  and the calls touch nothing but these counts.
\<close>

definition same_but_quantities :: "doc \<Rightarrow> doc \<Rightarrow> bool" where
  "same_but_quantities d d' \<longleftrightarrow> map fst d' = map fst d \<and>
     (\<forall>p. p \<notin> quantity_path ` fst ` set stock_tags \<longrightarrow> map_of d' p = map_of d p)"

lemma same_but_quantities_refl: "same_but_quantities d d"
  by (simp add: same_but_quantities_def)

lemma same_but_quantities_trans:
  "same_but_quantities d d' \<Longrightarrow> same_but_quantities d' d'' \<Longrightarrow> same_but_quantities d d''"
  by (simp add: same_but_quantities_def)

lemma same_but_quantities_set:
  assumes "map_of item_tag i = Some tag" "map_of d (quantity_path tag) = Some v"
  shows "same_but_quantities d (AList.update (quantity_path tag) w d)"
proof -
  from assms(2) have "quantity_path tag \<in> set (map fst d)" by (force dest: map_of_SomeD)
  moreover have "quantity_path tag \<in> quantity_path ` fst ` set stock_tags"
    using tag_in_stock_tags [OF assms(1)] by force
  ultimately show ?thesis by (auto simp: same_but_quantities_def update_keys map_of_AList_update)
qed

context mongo_collection
begin

lemma run_call_type:
  assumes d: "content db = [d]" "wf_stock d"
  shows "\<exists>d'. content (run_call C c db) = [d'] \<and> wf_stock d' \<and> same_but_quantities d d'"
proof -
  have one: "one_stock content db" using d by (simp add: one_stock_def)
  have kept: ?thesis if "content (run_call C c db) = [d]" using that d same_but_quantities_refl by blast
  have set: ?thesis if "content (run_call C c db) \<in> {[d], [AList.update (quantity_path tag) (BInt m) d]}" "0 \<le> m"
      "map_of item_tag i = Some tag" "map_of d (quantity_path tag) = Some (BInt n)" for i tag m n
    using that(1) kept same_but_quantities_set [OF that(3,4)] wf_stock_set [OF d(2) that(2)] by blast
  show ?thesis
  proof (cases c)
    case GetCall
    obtain r1 db1 where "FindOne C [] db = (r1, db1)" by fastforce
    with find_all [OF d(1) this] kept GetCall show ?thesis
      by (auto simp: repo_GetStock_def split: sum.splits)
  next
    case (ConsumeCall i q)
    show ?thesis
    proof (cases "map_of item_tag i = None \<or> q \<le> 0")
      case True
      from consume_rejected [OF True prod.collapse [symmetric]] kept ConsumeCall d(1) show ?thesis by simp
    next
      case False
      then obtain tag where tag: "map_of item_tag i = Some tag" "0 < q" by auto
      from wf_stock_item [OF d(2) tag(1)] obtain n where n: "map_of d (quantity_path tag) = Some (BInt n)" "0 \<le> n" .
      from consume_accepted [OF d(1) tag n(1) prod.collapse [symmetric]] kept ConsumeCall
        set [OF _ _ tag(1) n(1), of "n - q"] show ?thesis by (auto split: if_splits)
    qed
  next
    case (RestockCall i q)
    show ?thesis
    proof (cases "map_of item_tag i = None \<or> q \<le> 0")
      case True
      from restock_rejected [OF True prod.collapse [symmetric]] kept RestockCall d(1) show ?thesis by simp
    next
      case False
      then obtain tag where tag: "map_of item_tag i = Some tag" "0 < q" by auto
      from wf_stock_item [OF d(2) tag(1)] obtain n where n: "map_of d (quantity_path tag) = Some (BInt n)" "0 \<le> n" .
      from restock_accepted [OF d(1) tag n(1) prod.collapse [symmetric]] RestockCall n(2) tag(2)
        set [OF _ _ tag(1) n(1), of "n + q"] show ?thesis by auto
    qed
  qed
qed

lemma run_calls_type:
  "content db = [d] \<Longrightarrow> wf_stock d \<Longrightarrow>
   \<exists>d'. content (fold (run_call C) cs db) = [d'] \<and> wf_stock d' \<and> same_but_quantities d d'"
proof (induction cs arbitrary: db d)
  case Nil
  then show ?case using same_but_quantities_refl by simp
next
  case (Cons c cs)
  from run_call_type [OF Cons.prems] obtain e where e: "content (run_call C c db) = [e]" "wf_stock e"
    "same_but_quantities d e" by blast
  from Cons.IH [OF e(1,2)] e(3) same_but_quantities_trans show ?case by (simp, blast)
qed

lemma decode_wf:
  assumes "wf_stock d"
  shows "\<exists>s. DecodeStock C d = Inr s"
proof -
  from assms have "well_typed d" by (simp add: wf_stock_def)
  with contract have "\<not> isl (DecodeStock C d)" unfolding mongo_contract_def decode_contract_def by blast
  then show ?thesis by (cases "DecodeStock C d") auto
qed

end

text \<open>C21: the stock document keeps its type: after any sequence of calls of the repository, with any
  outages, it is still the only document, has the same fields in the same order, its names and
  other fields are untouched, each of the nine quantities is an integer that is not negative, and
  it decodes into the \<open>Stock\<close> struct; so no later \<open>GetStock\<close> fails for what is stored.\<close>

theorem stock_document_keeps_type:
  assumes "mongo_contract C content up" "content db = [d]" "wf_stock d"
  shows "\<exists>d' s. content (fold (run_call C) cs db) = [d'] \<and> map fst d' = map fst d \<and>
    (\<forall>p. p \<notin> quantity_path ` fst ` set stock_tags \<longrightarrow> map_of d' p = map_of d p) \<and>
    (\<forall>tag \<in> fst ` set stock_tags. \<exists>q \<ge> 0. map_of d' (quantity_path tag) = Some (BInt q)) \<and>
    DecodeStock C d' = Inr s"
proof -
  note mc = mongo_collection.intro [OF assms(1)]
  from mongo_collection.run_calls_type [OF mc assms(2,3), of cs] obtain d' where
    d': "content (fold (run_call C) cs db) = [d']" "wf_stock d'" "same_but_quantities d d'" by blast
  from mongo_collection.decode_wf [OF mc d'(2)] d' show ?thesis
    unfolding same_but_quantities_def wf_stock_iff by blast
qed

theorem stock_document_keeps_type_witness:
  "\<exists>d s. docs (fold (run_call mem_collection)
       [ConsumeCall Soap 10, ConsumeCall Soap 10, RestockCall Soap 50, GetCall]
       (stock_server example_quantities [LostReply, Fine, Fine, Lost])) = [d] \<and>
     map fst d = map fst (stock_doc example_quantities) \<and> DecodeStock mem_collection d = Inr s"
proof -
  let ?db = "stock_server example_quantities [LostReply, Fine, Fine, Lost]"
  from example_ok [of "[LostReply, Fine, Fine, Lost]"] have "docs ?db = [stock_doc example_quantities]"
    "wf_stock (stock_doc example_quantities)" by (auto simp: one_stock_def stock_server_def)
  from stock_document_keeps_type [OF mem_contract this, of "[ConsumeCall Soap 10, ConsumeCall Soap 10, RestockCall Soap 50, GetCall]"]
  show ?thesis by blast
qed

end
