(* ===== verification/Cottage_Repo.thy ===== *)
theory Cottage_Repo
  imports Stock_Repo
begin

text \<open>
  \<^verbatim>\<open>internal/infra/mdb/cottage_repo.go\<close> over a collection that keeps the driver's
  contract, and the proof that it gives the interface \<open>port.CottageRepo\<close>. The repository has
  no lock: each call is one \<open>UpdateOne\<close>, which the server applies atomically.
\<close>

definition cottage_filter :: "string \<Rightarrow> M" where
  "cottage_filter cottageName = [(''name'', BStr cottageName)]"

definition cottage_update :: "string \<Rightarrow> M" where
  "cottage_update cleaningStatus = [(''$set'', BDoc [(''cleaning_status'', BStr cleaningStatus)])]"

definition repo_UpdateCleaningStatus ::
    "'db collection \<Rightarrow> string \<Rightarrow> string \<Rightarrow> 'db \<Rightarrow> go_error option \<times> 'db" where
  "repo_UpdateCleaningStatus C cottageName cleaningStatus db =
     (case outcome_error (Validate (NotBlank ''cleaningStatus'' cleaningStatus
                                   (NotBlank ''cottageName'' cottageName New))) of
        Some e \<Rightarrow> (Some e, db)
      | None \<Rightarrow>
     (case outcome_error (Validate (ValidCleaningStatus ''cleaningStatus'' cleaningStatus New)) of
        Some e \<Rightarrow> (Some e, db)
      | None \<Rightarrow>
     (case UpdateOne C (cottage_filter cottageName) (cottage_update cleaningStatus) db of
        (Inl e, db') \<Rightarrow> (Some (DbUnexpectedErr ''failed to update cottage clean status'' e), db')
      | (Inr result, db') \<Rightarrow>
          if MatchedCount result = 0 then (Some (ErrCottageDoesNotExist cottageName), db')
          else if ModifiedCount result = 0
               then (Some (CottageCleaningStatusNotUpdatedErr cottageName), db')
          else (None, db'))))"

subsection \<open>The status of a cottage\<close>

text \<open>
  A cottage whose status field holds something else than text has no status in the sense of
  the interface; the invariant \<open>text_status\<close> leaves that case out.
\<close>

definition doc_status :: "doc \<Rightarrow> string option" where
  "doc_status d = (case map_of d ''cleaning_status'' of Some (BStr s) \<Rightarrow> Some s | _ \<Rightarrow> None)"

definition cottage_status :: "('db \<Rightarrow> doc list) \<Rightarrow> 'db \<Rightarrow> string \<Rightarrow> string option option" where
  "cottage_status content db n =
     map_option doc_status (List.find (matches (cottage_filter n)) (content db))"

definition text_status :: "('db \<Rightarrow> doc list) \<Rightarrow> 'db \<Rightarrow> bool" where
  "text_status content db \<longleftrightarrow>
     (\<forall>d \<in> set (content db). \<forall>v. map_of d ''cleaning_status'' = Some v \<longrightarrow> (\<exists>s. v = BStr s))"

lemma matches_cottage: "matches (cottage_filter n) d \<longleftrightarrow> map_of d ''name'' = Some (BStr n)"
  by (simp add: matches_def cottage_filter_def)

lemma set_update_first: "set (update_first P f xs) \<subseteq> set xs \<union> f ` set xs"
  by (induction xs) auto

lemma update_validation:
  "outcome_error (Validate (NotBlank ''cleaningStatus'' s (NotBlank ''cottageName'' n New))) =
     (if TrimSpace n = '''' then Some (ErrValidationConstrain ''cottageName'' ''must not be blank'')
      else if TrimSpace s = '''' then Some (ErrValidationConstrain ''cleaningStatus'' ''must not be blank'')
      else None)"
  "outcome_error (Validate (ValidCleaningStatus ''cleaningStatus'' s New)) = None \<longleftrightarrow> valid_status s"
  by (simp_all add: outcome_error_def NotBlank_def ValidCleaningStatus_def valid_status_def)

lemma valid_status_not_blank: "valid_status s \<Longrightarrow> TrimSpace s \<noteq> ''''"
proof -
  have "list_all (\<lambda>s. TrimSpace s \<noteq> '''') [CleaningStatusPreparedForGuest, CleaningStatusDailyCleaned,
          CleaningStatusPreparedForSleep, CleaningStatusFullyCleaned]" by code_simp
  then show "valid_status s \<Longrightarrow> TrimSpace s \<noteq> ''''" by (auto simp: valid_status_def)
qed

context mongo_collection
begin

lemma cottage_rejected:
  assumes "TrimSpace n = '''' \<or> \<not> valid_status s" "repo_UpdateCleaningStatus C n s db = (r, db')"
  shows "db' = db \<and> r \<noteq> None"
  using assms update_validation(2) [of s]
  by (cases "outcome_error (Validate (ValidCleaningStatus ''cleaningStatus'' s New))")
    (auto simp: repo_UpdateCleaningStatus_def update_validation(1) split: if_splits, metis)

lemma cottage_written:
  fixes d s
  defines "d' \<equiv> AList.update ''cleaning_status'' (BStr s) d"
  assumes inv: "text_status content db" and d: "List.find (matches (cottage_filter n)) (content db) = Some d"
    and db': "content db' = update_first (matches (cottage_filter n)) (\<lambda>_. d') (content db)"
  shows "text_status content db' \<and> cottage_status content db' = (cottage_status content db)(n \<mapsto> Some s)"
proof
  have m: "matches (cottage_filter n) d'"
    using find_SomeD [OF d] by (simp add: matches_cottage d'_def map_of_AList_update)
  have "\<forall>v. map_of d' ''cleaning_status'' = Some v \<longrightarrow> (\<exists>s. v = BStr s)"
    by (simp add: d'_def map_of_AList_update)
  then show "text_status content db'"
    using inv set_update_first [of "matches (cottage_filter n)" "\<lambda>_. d'" "content db"]
    unfolding text_status_def db' by blast
  show "cottage_status content db' = (cottage_status content db)(n \<mapsto> Some s)"
  proof
    fix k
    show "cottage_status content db' k = ((cottage_status content db)(n \<mapsto> Some s)) k"
    proof (cases "k = n")
      case True
      with find_update_first_same [OF d m] show ?thesis
        by (simp add: cottage_status_def db' doc_status_def d'_def map_of_AList_update)
    next
      case False
      then have "List.find (matches (cottage_filter k)) (content db') = List.find (matches (cottage_filter k)) (content db)"
        unfolding db' using m by (intro find_update_first_other) (simp add: matches_cottage)
      with False show ?thesis by (simp add: cottage_status_def)
    qed
  qed
qed

lemma repo_update:
  assumes inv: "text_status content db" and u: "repo_UpdateCleaningStatus C n s db = (r, db')"
  shows "text_status content db' \<and> (up db \<longrightarrow> up db') \<and>
    (if r = None then valid_status s \<and> (\<exists>old. cottage_status content db n = Some old \<and> old \<noteq> Some s) \<and>
                      cottage_status content db' = (cottage_status content db)(n \<mapsto> Some s)
     else cottage_status content db' = cottage_status content db \<or>
          valid_status s \<and> cottage_status content db n \<noteq> None \<and>
          cottage_status content db' = (cottage_status content db)(n \<mapsto> Some s)) \<and>
    (up db \<longrightarrow> TrimSpace n \<noteq> '''' \<longrightarrow> valid_status s \<longrightarrow>
       r = (case cottage_status content db n of
              None \<Rightarrow> Some (ErrCottageDoesNotExist n)
            | Some old \<Rightarrow> if old = Some s then Some (CottageCleaningStatusNotUpdatedErr n) else None))"
proof (cases "TrimSpace n = '''' \<or> \<not> valid_status s")
  case True
  with cottage_rejected [OF True u] inv show ?thesis by auto
next
  case False
  then have ok: "TrimSpace n \<noteq> ''''" "valid_status s" "TrimSpace s \<noteq> ''''"
    using valid_status_not_blank by auto
  obtain r1 db1 where w: "UpdateOne C (cottage_filter n) (cottage_update s) db = (r1, db1)" by fastforce
  have r: "(r, db') = (case r1 of
      Inl e \<Rightarrow> (Some (DbUnexpectedErr ''failed to update cottage clean status'' e), db1)
    | Inr result \<Rightarrow>
        if MatchedCount result = 0 then (Some (ErrCottageDoesNotExist n), db1)
        else if ModifiedCount result = 0 then (Some (CottageCleaningStatusNotUpdatedErr n), db1)
        else (None, db1))"
    using u w ok update_validation(2) [of s]
    by (simp add: repo_UpdateCleaningStatus_def update_validation(1) split: sum.splits)
  then have "db' = db1" by (auto split: sum.splits if_splits)
  have uc: "update_contract C content up" using contract by (simp add: mongo_contract_def)
  note w' = uc [unfolded update_contract_def, rule_format, OF w]
  show ?thesis
  proof (cases "List.find (matches (cottage_filter n)) (content db)")
    case None
    then have none: "cottage_status content db n = None" by (simp add: cottage_status_def)
    from w' None have "content db1 = content db" by auto
    then have "text_status content db1" "cottage_status content db1 = cottage_status content db"
      using inv by (simp_all add: text_status_def cottage_status_def [abs_def])
    with w' None none r \<open>db' = db1\<close> show ?thesis by (auto split: sum.splits)
  next
    case (Some d)
    define d' where "d' = AList.update ''cleaning_status'' (BStr s) d"
    have a: "apply_update (cottage_update s) d = Some d'" by (simp add: cottage_update_def d'_def)
    have old: "cottage_status content db n = Some (doc_status d)" by (simp add: cottage_status_def Some)
    have same: "d' = d \<longleftrightarrow> doc_status d = Some s"
    proof -
      have "d \<in> set (content db)" using find_SomeD [OF Some] by blast
      with inv have "map_of d ''cleaning_status'' = Some v \<Longrightarrow> \<exists>s. v = BStr s" for v
        by (auto simp: text_status_def)
      then show ?thesis by (auto simp: d'_def AList_update_eq doc_status_def split: option.splits bson.splits)
    qed
    have unchanged: "text_status content db1 \<and> cottage_status content db1 = cottage_status content db"
      if "content db1 = content db"
      using inv that by (simp add: text_status_def cottage_status_def [abs_def])
    note written = cottage_written [OF inv Some, of db1 s, folded d'_def]
    show ?thesis
      using w' r a Some old same unchanged written ok(2) \<open>db' = db1\<close>
      by (cases r1) (auto split: if_splits)
  qed
qed

end

sublocale mongo_collection \<subseteq> crepo: cottage_repo
  "repo_UpdateCleaningStatus C" "cottage_status content" "text_status content" up
proof (unfold_locales, goal_cases)
  case (1 w n s w')
  from repo_update [OF 1] show ?case by auto
next
  case (2 w n s e w')
  from repo_update [OF 2] show ?case by auto
next
  case (3 w n s)
  from repo_update [OF 3(1) prod.collapse [symmetric], of n s] 3(2-4) show ?case by blast
qed

subsection \<open>Properties\<close>

definition cottage_doc :: "string \<Rightarrow> string \<Rightarrow> doc" where
  "cottage_doc n s = [(''name'', BStr n), (''cleaning_status'', BStr s)]"

definition example_cottages :: "outage list \<Rightarrow> memory" where
  "example_cottages os =
     \<lparr>docs = [cottage_doc ''pine'' CleaningStatusDailyCleaned, cottage_doc ''oak'' ''''], outages = os\<rparr>"

lemma example_cottages_ok: "text_status docs (example_cottages os)"
  by (auto simp: text_status_def example_cottages_def cottage_doc_def)

text \<open>C24: \<open>UpdateCleaningStatus\<close> accepts the four statuses only; when it returns nil the cottage
  existed with another status and now has the new one, no other cottage having changed; with the
  server up its answer is determined by the cottage: unknown, already in that status (reported as
  an error), or updated.\<close>

theorem update_status_effect:
  assumes "mongo_contract C content up" "text_status content db" "repo_UpdateCleaningStatus C n s db = (r, db')"
  shows "text_status content db' \<and> (up db \<longrightarrow> up db') \<and>
    (if r = None then valid_status s \<and> (\<exists>old. cottage_status content db n = Some old \<and> old \<noteq> Some s) \<and>
                      cottage_status content db' = (cottage_status content db)(n \<mapsto> Some s)
     else cottage_status content db' = cottage_status content db \<or>
          valid_status s \<and> cottage_status content db n \<noteq> None \<and>
          cottage_status content db' = (cottage_status content db)(n \<mapsto> Some s)) \<and>
    (up db \<longrightarrow> TrimSpace n \<noteq> '''' \<longrightarrow> valid_status s \<longrightarrow>
       r = (case cottage_status content db n of
              None \<Rightarrow> Some (ErrCottageDoesNotExist n)
            | Some old \<Rightarrow> if old = Some s then Some (CottageCleaningStatusNotUpdatedErr n) else None))"
  by (rule mongo_collection.repo_update [OF mongo_collection.intro [OF assms(1)] assms(2,3)])

theorem update_status_effect_witness:
  "let (r, db') = repo_UpdateCleaningStatus mem_collection ''oak'' CleaningStatusFullyCleaned (example_cottages [])
   in r = None \<and> cottage_status docs db' ''oak'' = Some (Some CleaningStatusFullyCleaned) \<and>
      cottage_status docs db' ''pine'' = Some (Some CleaningStatusDailyCleaned)"
proof -
  obtain r db' where u: "repo_UpdateCleaningStatus mem_collection ''oak'' CleaningStatusFullyCleaned (example_cottages []) = (r, db')"
    by fastforce
  have "fst (repo_UpdateCleaningStatus mem_collection ''oak'' CleaningStatusFullyCleaned (example_cottages [])) = None"
    "cottage_status docs (example_cottages []) ''pine'' = Some (Some CleaningStatusDailyCleaned)" by code_simp+
  with update_status_effect [OF mem_contract example_cottages_ok u] show ?thesis by (simp add: u)
qed

text \<open>Repeating a successful update is an error although the cottage has the status asked for:
  the second call returns \<open>CottageCleaningStatusNotUpdatedErr\<close> and changes nothing.\<close>

theorem repeated_update_reports_error:
  assumes "mongo_contract C content up" "text_status content db" "up db" "TrimSpace n \<noteq> ''''"
    and "repo_UpdateCleaningStatus C n s db = (None, db1)" "repo_UpdateCleaningStatus C n s db1 = (r, db2)"
  shows "r = Some (CottageCleaningStatusNotUpdatedErr n) \<and> cottage_status content db2 = cottage_status content db1"
proof -
  note mc = mongo_collection.intro [OF assms(1)]
  from mongo_collection.repo_update [OF mc assms(2,5)] assms(3) have
    1: "text_status content db1" "up db1" "valid_status s" "cottage_status content db1 n = Some (Some s)" by auto
  with mongo_collection.repo_update [OF mc 1(1) assms(6)] assms(4)
  have r: "r = Some (CottageCleaningStatusNotUpdatedErr n)" by simp
  with mongo_collection.repo_update [OF mc 1(1) assms(6)] 1(4)
  have "cottage_status content db2 = cottage_status content db1 \<or>
    cottage_status content db2 = (cottage_status content db1)(n \<mapsto> Some s)" by auto
  with 1(4) r show ?thesis by (auto simp: map_upd_triv)
qed

theorem repeated_update_reports_error_witness:
  "fst (repo_UpdateCleaningStatus mem_collection ''oak'' CleaningStatusDailyCleaned
     (snd (repo_UpdateCleaningStatus mem_collection ''oak'' CleaningStatusDailyCleaned (example_cottages []))))
   = Some (CottageCleaningStatusNotUpdatedErr ''oak'')"
proof -
  let ?u = "repo_UpdateCleaningStatus mem_collection ''oak'' CleaningStatusDailyCleaned"
  have "fst (?u (example_cottages [])) = None" by code_simp
  then have 1: "?u (example_cottages []) = (None, snd (?u (example_cottages [])))" by (metis prod.collapse)
  have "TrimSpace ''oak'' \<noteq> ''''" by code_simp
  moreover have "mem_up (example_cottages [])" by (simp add: mem_up_def example_cottages_def)
  ultimately show ?thesis
    using repeated_update_reports_error [OF mem_contract example_cottages_ok _ _ 1 prod.collapse [symmetric]]
    by simp
qed

end
