(* ===== verification/Employee_Service.thy ===== *)
theory Employee_Service
  imports Ports
begin

text \<open>
  \<^verbatim>\<open>internal/app/employee_service.go\<close> and \<^verbatim>\<open>employee_metrics_service.go\<close>: the table of
  employees with its operations, and \<open>Work\<close> as a transition system: one goroutine per
  employee, a shared request channel, a context that may be cancelled at any time. \<open>pool\<close> is
  the state of one running service for any request type \<open>'r\<close> and any handler
  \<open>work :: string \<Rightarrow> 'r \<Rightarrow> unit prog\<close>; the handler's calls are answered by an arbitrary
  environment, so what is proved here holds for the three services.
\<close>

subsection \<open>The table of employees\<close>

record 'r employeeStatus =
  isIdle :: bool
  currentRequest :: 'r
  handledRequests :: int

record 'r employeeService =
  employeeCount :: int
  employees :: "string \<rightharpoonup> 'r employeeStatus"

definition setEmployeeWorkingStatus ::
    "string \<Rightarrow> 'r \<Rightarrow> 'r employeeService \<Rightarrow> int \<times> 'r employeeService" where
  "setEmployeeWorkingStatus employeeName request s =
     (case employees s employeeName of
        None \<Rightarrow> (0, s)
      | Some status \<Rightarrow>
          (let status' = status\<lparr>isIdle := False, handledRequests := handledRequests status + 1,
                                currentRequest := request\<rparr>
           in (handledRequests status', s\<lparr>employees := (employees s)(employeeName \<mapsto> status')\<rparr>)))"

definition setEmployeeIdleStatus :: "'r \<Rightarrow> string \<Rightarrow> 'r employeeService \<Rightarrow> 'r employeeService" where
  "setEmployeeIdleStatus emptyRequest employeeName s =
     (case employees s employeeName of
        None \<Rightarrow> s
      | Some status \<Rightarrow>
          s\<lparr>employees := (employees s)(employeeName \<mapsto>
               status\<lparr>isIdle := True, currentRequest := emptyRequest\<rparr>)\<rparr>)"

text \<open>The constructors' loop: one idle entry per name; a name given twice keeps one entry.\<close>

fun add_employees :: "'r \<Rightarrow> string list \<Rightarrow> (string \<rightharpoonup> 'r employeeStatus) \<Rightarrow> (string \<rightharpoonup> 'r employeeStatus)" where
  "add_employees zero [] m = m"
| "add_employees zero (n # ns) m =
     add_employees zero ns (m(n \<mapsto> \<lparr>isIdle = True, currentRequest = zero, handledRequests = 0\<rparr>))"

definition new_employeeService :: "'r \<Rightarrow> string list \<Rightarrow> 'r employeeService" where
  "new_employeeService zero names =
     \<lparr>employeeCount = int (length names), employees = add_employees zero names Map.empty\<rparr>"

subsection \<open>Metrics\<close>

text \<open>
  Both metrics iterate over the map. The order does not matter for a count or for building a
  map, so the iteration runs over any list \<open>names\<close> that enumerates the keys.
\<close>

definition IdleEmployeeCount :: "string list \<Rightarrow> 'r employeeService \<Rightarrow> int" where
  "IdleEmployeeCount names s =
     fold (\<lambda>n idle. case employees s n of
             Some status \<Rightarrow> if isIdle status then idle + 1 else idle | None \<Rightarrow> idle) names 0"

definition EmployeeMetrics :: "string list \<Rightarrow> 'r employeeService \<Rightarrow> (string \<rightharpoonup> 'r employeeStatus)" where
  "EmployeeMetrics names s =
     fold (\<lambda>n m. case employees s n of
             Some status \<Rightarrow> m(n \<mapsto> \<lparr>isIdle = isIdle status, currentRequest = currentRequest status,
                                   handledRequests = handledRequests status\<rparr>)
           | None \<Rightarrow> m) names Map.empty"

lemma add_employees_apply:
  "add_employees zero ns m n =
     (if n \<in> set ns then Some \<lparr>isIdle = True, currentRequest = zero, handledRequests = 0\<rparr> else m n)"
  by (induction ns arbitrary: m) auto

lemma new_employeeService_apply:
  "employees (new_employeeService zero names) n =
     (if n \<in> set names then Some \<lparr>isIdle = True, currentRequest = zero, handledRequests = 0\<rparr> else None)"
  by (simp add: new_employeeService_def add_employees_apply)

lemma fold_count: "fold (\<lambda>x c. if P x then c + 1 else c) xs (c :: int) = c + int (length (List.filter P xs))"
  by (induction xs arbitrary: c) auto

lemma IdleEmployeeCount_filter:
  "IdleEmployeeCount names s =
     int (length (List.filter (\<lambda>n. \<exists>st. employees s n = Some st \<and> isIdle st) names))"
proof -
  have "(\<lambda>n idle. case employees s n of
             Some status \<Rightarrow> if isIdle status then idle + 1 else idle | None \<Rightarrow> idle) =
        (\<lambda>n (idle :: int). if \<exists>st. employees s n = Some st \<and> isIdle st then idle + 1 else idle)"
    by (intro ext) (auto split: option.splits)
  then show ?thesis by (simp add: IdleEmployeeCount_def fold_count)
qed

lemma EmployeeMetrics_fold:
  "set names \<subseteq> dom (employees s) \<Longrightarrow>
   fold (\<lambda>n m. case employees s n of
             Some status \<Rightarrow> m(n \<mapsto> \<lparr>isIdle = isIdle status, currentRequest = currentRequest status,
                                   handledRequests = handledRequests status\<rparr>)
           | None \<Rightarrow> m) names m0 = (\<lambda>n. if n \<in> set names then employees s n else m0 n)"
  by (induction names arbitrary: m0) (auto simp: fun_eq_iff)

lemma EmployeeMetrics_copies:
  "set names = dom (employees s) \<Longrightarrow> EmployeeMetrics names s = employees s"
  by (auto simp: EmployeeMetrics_def EmployeeMetrics_fold fun_eq_iff)

subsection \<open>Work: one goroutine per employee\<close>

text \<open>
  \<open>Waiting\<close> is a goroutine at its \<open>select\<close>, \<open>Working r p\<close> one that handles \<open>r\<close> with the
  effect tree \<open>p\<close> left to run, \<open>Stopped\<close> one that has returned. Where several cases of the
  \<open>select\<close> are ready Go picks any of them, so a cancelled context does not keep a goroutine
  from taking another request.
\<close>

datatype 'r worker = Waiting | Working 'r "unit prog" | Stopped

record 'r pool =
  service :: "'r employeeService"
  workers :: "string \<rightharpoonup> 'r worker"
  buffer :: "'r list"
  chanClosed :: bool
  ctxDone :: bool

definition start_pool :: "'r employeeService \<Rightarrow> 'r pool" where
  "start_pool s =
     \<lparr>service = s, workers = (\<lambda>n. map_option (\<lambda>_. Waiting) (employees s n)),
      buffer = [], chanClosed = False, ctxDone = False\<rparr>"

datatype 'r pool_event =
    Enqueue 'r | CloseChan | Cancel
  | StopCtx string | StopClosed string
  | Receive string 'r int
  | Act string event
  | Finish string 'r

inductive pool_step ::
    "(string \<Rightarrow> 'r \<Rightarrow> unit prog) \<Rightarrow> 'r \<Rightarrow> nat \<Rightarrow> 'r pool \<Rightarrow> 'r pool_event \<Rightarrow> 'r pool \<Rightarrow> bool"
  for work :: "string \<Rightarrow> 'r \<Rightarrow> unit prog" and zero :: 'r and cap :: nat where
  enqueue: "\<not> chanClosed p \<Longrightarrow> length (buffer p) < cap \<Longrightarrow>
     pool_step work zero cap p (Enqueue r) (p\<lparr>buffer := buffer p @ [r]\<rparr>)"
| close: "pool_step work zero cap p CloseChan (p\<lparr>chanClosed := True\<rparr>)"
| cancel: "pool_step work zero cap p Cancel (p\<lparr>ctxDone := True\<rparr>)"
| stop_ctx: "workers p n = Some Waiting \<Longrightarrow> ctxDone p \<Longrightarrow>
     pool_step work zero cap p (StopCtx n) (p\<lparr>workers := (workers p)(n \<mapsto> Stopped)\<rparr>)"
| stop_closed: "workers p n = Some Waiting \<Longrightarrow> chanClosed p \<Longrightarrow> buffer p = [] \<Longrightarrow>
     pool_step work zero cap p (StopClosed n) (p\<lparr>workers := (workers p)(n \<mapsto> Stopped)\<rparr>)"
| receive: "workers p n = Some Waiting \<Longrightarrow> buffer p = r # rs \<Longrightarrow>
     setEmployeeWorkingStatus n r (service p) = (k, s') \<Longrightarrow>
     pool_step work zero cap p (Receive n r k)
       (p\<lparr>service := s', workers := (workers p)(n \<mapsto> Working r (work n r)), buffer := rs\<rparr>)"
| act: "workers p n = Some (Working r q) \<Longrightarrow> lstep q e q' \<Longrightarrow>
     pool_step work zero cap p (Act n e) (p\<lparr>workers := (workers p)(n \<mapsto> Working r q')\<rparr>)"
| finish: "workers p n = Some (Working r (Return ())) \<Longrightarrow>
     pool_step work zero cap p (Finish n r)
       (p\<lparr>service := setEmployeeIdleStatus zero n (service p), workers := (workers p)(n \<mapsto> Waiting)\<rparr>)"

inductive pool_run ::
    "(string \<Rightarrow> 'r \<Rightarrow> unit prog) \<Rightarrow> 'r \<Rightarrow> nat \<Rightarrow> 'r pool \<Rightarrow> 'r pool_event list \<Rightarrow> 'r pool \<Rightarrow> bool"
  for work :: "string \<Rightarrow> 'r \<Rightarrow> unit prog" and zero :: 'r and cap :: nat where
  refl: "pool_run work zero cap p [] p"
| step: "pool_run work zero cap p es p' \<Longrightarrow> pool_step work zero cap p' e p'' \<Longrightarrow>
     pool_run work zero cap p (es @ [e]) p''"

subsection \<open>What the trace of a pool says\<close>

fun received_by :: "string \<Rightarrow> 'r pool_event list \<Rightarrow> 'r list" where
  "received_by n [] = []"
| "received_by n (Receive m r k # es) = (if m = n then r # received_by n es else received_by n es)"
| "received_by n (_ # es) = received_by n es"

fun finished_by :: "string \<Rightarrow> 'r pool_event list \<Rightarrow> 'r list" where
  "finished_by n [] = []"
| "finished_by n (Finish m r # es) = (if m = n then r # finished_by n es else finished_by n es)"
| "finished_by n (_ # es) = finished_by n es"

fun received :: "'r pool_event list \<Rightarrow> 'r list" where
  "received [] = []"
| "received (Receive m r k # es) = r # received es"
| "received (_ # es) = received es"

fun enqueued :: "'r pool_event list \<Rightarrow> 'r list" where
  "enqueued [] = []"
| "enqueued (Enqueue r # es) = r # enqueued es"
| "enqueued (_ # es) = enqueued es"

lemma received_by_append [simp]: "received_by n (es @ fs) = received_by n es @ received_by n fs"
  by (induction n es rule: received_by.induct) auto

lemma finished_by_append [simp]: "finished_by n (es @ fs) = finished_by n es @ finished_by n fs"
  by (induction n es rule: finished_by.induct) auto

lemma received_append [simp]: "received (es @ fs) = received es @ received fs"
  by (induction es rule: received.induct) auto

lemma enqueued_append [simp]: "enqueued (es @ fs) = enqueued es @ enqueued fs"
  by (induction es rule: enqueued.induct) auto

definition in_hand :: "'r worker option \<Rightarrow> 'r list" where
  "in_hand w = (case w of Some (Working r q) \<Rightarrow> [r] | _ \<Rightarrow> [])"

text \<open>How the entry of an employee reflects its goroutine and its part of the trace.\<close>

definition entry_ok :: "'r \<Rightarrow> 'r worker \<Rightarrow> 'r list \<Rightarrow> 'r employeeStatus \<Rightarrow> bool" where
  "entry_ok zero w rs st \<longleftrightarrow>
     handledRequests st = int (length rs) \<and>
     (case w of Working r q \<Rightarrow> \<not> isIdle st \<and> currentRequest st = r
              | _ \<Rightarrow> isIdle st \<and> currentRequest st = zero)"

definition pool_inv :: "'r \<Rightarrow> string list \<Rightarrow> nat \<Rightarrow> 'r pool_event list \<Rightarrow> 'r pool \<Rightarrow> bool" where
  "pool_inv zero names cap es p \<longleftrightarrow>
     employeeCount (service p) = int (length names) \<and>
     dom (employees (service p)) = set names \<and> dom (workers p) = set names \<and>
     length (buffer p) \<le> cap \<and>
     enqueued es = received es @ buffer p \<and>
     (\<forall>n \<in> set names. \<exists>w st. workers p n = Some w \<and> employees (service p) n = Some st \<and>
        entry_ok zero w (received_by n es) st) \<and>
     (\<forall>n. received_by n es = finished_by n es @ in_hand (workers p n))"

lemma pool_inv_start: "pool_inv zero names cap [] (start_pool (new_employeeService zero names))"
  by (auto simp: pool_inv_def start_pool_def new_employeeService_apply entry_ok_def in_hand_def
      new_employeeService_def add_employees_apply split: if_splits)

lemma setEmployeeWorkingStatus_known:
  "employees s n = Some st \<Longrightarrow> setEmployeeWorkingStatus n r s =
     (handledRequests st + 1,
      s\<lparr>employees := (employees s)(n \<mapsto>
          st\<lparr>isIdle := False, handledRequests := handledRequests st + 1, currentRequest := r\<rparr>)\<rparr>)"
  by (simp add: setEmployeeWorkingStatus_def Let_def)

lemma setEmployeeIdleStatus_known:
  "employees s n = Some st \<Longrightarrow> setEmployeeIdleStatus zero n s =
     s\<lparr>employees := (employees s)(n \<mapsto> st\<lparr>isIdle := True, currentRequest := zero\<rparr>)\<rparr>"
  by (simp add: setEmployeeIdleStatus_def)

lemma pool_inv_entry:
  assumes "pool_inv zero names cap es p" "workers p n = Some w"
  obtains st where "n \<in> set names" "employees (service p) n = Some st"
    "entry_ok zero w (received_by n es) st"
proof -
  from assms have "n \<in> set names" unfolding pool_inv_def by blast
  with assms that show thesis unfolding pool_inv_def by fastforce
qed

lemma pool_step_inv:
  assumes "pool_step work zero cap p e p'" and inv: "pool_inv zero names cap es p"
  shows "pool_inv zero names cap (es @ [e]) p'"
  using assms(1)
proof cases
  case (enqueue r)
  with inv show ?thesis by (auto simp: pool_inv_def)
next
  case close
  with inv show ?thesis by (auto simp: pool_inv_def)
next
  case cancel
  with inv show ?thesis by (auto simp: pool_inv_def)
next
  case (stop_ctx n)
  then obtain st where "n \<in> set names" "employees (service p) n = Some st"
    "entry_ok zero Waiting (received_by n es) st" using pool_inv_entry [OF inv] by metis
  with inv stop_ctx show ?thesis by (auto simp: pool_inv_def entry_ok_def in_hand_def)
next
  case (stop_closed n)
  then obtain st where "n \<in> set names" "employees (service p) n = Some st"
    "entry_ok zero Waiting (received_by n es) st" using pool_inv_entry [OF inv] by metis
  with inv stop_closed show ?thesis by (auto simp: pool_inv_def entry_ok_def in_hand_def)
next
  case (receive n r rs k s')
  then obtain st where st: "n \<in> set names" "employees (service p) n = Some st"
    "entry_ok zero Waiting (received_by n es) st" using pool_inv_entry [OF inv] by metis
  with receive(5) have "s' = (service p)\<lparr>employees := (employees (service p))(n \<mapsto>
      st\<lparr>isIdle := False, handledRequests := handledRequests st + 1, currentRequest := r\<rparr>)\<rparr>"
    by (auto simp: setEmployeeWorkingStatus_known)
  with inv receive st show ?thesis by (auto simp: pool_inv_def entry_ok_def in_hand_def)
next
  case (act n r q ev q')
  then obtain st where "n \<in> set names" "employees (service p) n = Some st"
    "entry_ok zero (Working r q) (received_by n es) st" using pool_inv_entry [OF inv] by metis
  with inv act show ?thesis by (auto simp: pool_inv_def entry_ok_def in_hand_def)
next
  case (finish n r)
  then obtain st where st: "n \<in> set names" "employees (service p) n = Some st"
    "entry_ok zero (Working r (Return ())) (received_by n es) st" using pool_inv_entry [OF inv] by metis
  with inv finish show ?thesis
    by (auto simp: pool_inv_def entry_ok_def in_hand_def setEmployeeIdleStatus_known)
qed

lemma pool_run_inv:
  "pool_run work zero cap p0 es p \<Longrightarrow> p0 = start_pool (new_employeeService zero names) \<Longrightarrow>
   pool_inv zero names cap es p"
  by (induction rule: pool_run.induct) (auto intro: pool_inv_start pool_step_inv)

text \<open>Progress: a goroutine is stuck only at an empty open channel with a live context.\<close>

lemma waiting_can_move:
  assumes "workers p n = Some Waiting" "buffer p \<noteq> [] \<or> chanClosed p \<or> ctxDone p"
  shows "\<exists>e p'. pool_step work zero cap p e p'"
proof (cases "buffer p")
  case Nil
  with assms show ?thesis by (auto intro: pool_step.stop_ctx pool_step.stop_closed)
next
  case (Cons r rs)
  obtain k s' where "setEmployeeWorkingStatus n r (service p) = (k, s')" by fastforce
  from pool_step.receive [OF assms(1) Cons this] show ?thesis by blast
qed

subsection \<open>Stopping\<close>

text \<open>Every handler can be run to its end: each of its calls returns, and a wait ends with the context.\<close>

lemma prog_finishes: "\<exists>es. runs q es ()" for q :: "unit prog"
proof (induction q)
  case (AwaitHours c st h k)
  then obtain es where "runs (k zeroTime) es ()" by blast
  then have "runs (AwaitHours c st h k) (EvCtxDone # es) ()" by (auto intro: runs.step lstep.ctx_done)
  then show ?case by blast
qed (fastforce simp: runs_simps intro: runs.finished)+

lemma pool_run_trans:
  "pool_run work zero cap p es p' \<Longrightarrow> pool_run work zero cap p0 es0 p \<Longrightarrow> pool_run work zero cap p0 (es0 @ es) p'"
proof (induction rule: pool_run.induct)
  case (step p es p' e p'')
  then show ?case using pool_run.step by (metis append_assoc)
qed simp

lemma worker_finishes:
  "runs q es u \<Longrightarrow> workers p n = Some (Working r q) \<Longrightarrow>
   \<exists>es' p'. pool_run work zero cap p es' p' \<and> workers p' = (workers p)(n \<mapsto> Waiting) \<and> ctxDone p' = ctxDone p"
proof (induction arbitrary: p rule: runs.induct)
  case (finished x)
  then have "pool_step work zero cap p (Finish n r)
     (p\<lparr>service := setEmployeeIdleStatus zero n (service p), workers := (workers p)(n \<mapsto> Waiting)\<rparr>)"
    by (intro pool_step.finish) simp
  from pool_run.step [OF pool_run.refl this] show ?case by fastforce
next
  case (step q e q' es x)
  let ?p1 = "p\<lparr>workers := (workers p)(n \<mapsto> Working r q')\<rparr>"
  have "pool_step work zero cap p (Act n e) ?p1" using step by (intro pool_step.act)
  then have 1: "pool_run work zero cap p ([] @ [Act n e]) ?p1" by (rule pool_run.step [OF pool_run.refl])
  from step.IH [of ?p1] obtain es' p' where "pool_run work zero cap ?p1 es' p'"
    "workers p' = (workers p)(n \<mapsto> Waiting)" "ctxDone p' = ctxDone p" by (auto simp: fun_upd_def fun_eq_iff)
  with pool_run_trans [OF _ 1] show ?case by blast
qed

lemma worker_stops:
  assumes "ctxDone p" "workers p n = Some w"
  shows "\<exists>es p'. pool_run work zero cap p es p' \<and> workers p' = (workers p)(n \<mapsto> Stopped) \<and> ctxDone p'"
proof -
  have waiting: "\<exists>es p'. pool_run work zero cap p es p' \<and> workers p' = (workers p)(n \<mapsto> Stopped) \<and> ctxDone p'"
    if "ctxDone p" "workers p n = Some Waiting" for p :: "'a pool"
  proof -
    from that have "pool_step work zero cap p (StopCtx n) (p\<lparr>workers := (workers p)(n \<mapsto> Stopped)\<rparr>)"
      by (intro pool_step.stop_ctx)
    from pool_run.step [OF pool_run.refl this] that show ?thesis by fastforce
  qed
  show ?thesis
  proof (cases w)
    case Waiting
    with waiting assms show ?thesis by blast
  next
    case (Working r q)
    obtain qs where "runs q qs ()" using prog_finishes by blast
    from worker_finishes [OF this] Working assms obtain es p1 where 1: "pool_run work zero cap p es p1"
      "workers p1 = (workers p)(n \<mapsto> Waiting)" "ctxDone p1" by metis
    with waiting [of p1] obtain es2 p2 where "pool_run work zero cap p1 es2 p2"
      "workers p2 = (workers p1)(n \<mapsto> Stopped)" "ctxDone p2" by auto
    with 1 pool_run_trans show ?thesis by (metis fun_upd_upd)
  next
    case Stopped
    with assms have "(workers p)(n \<mapsto> Stopped) = workers p" by (auto simp: fun_eq_iff)
    with assms show ?thesis by (metis pool_run.refl)
  qed
qed

lemma workers_stop:
  "ctxDone p \<Longrightarrow> set ns \<subseteq> dom (workers p) \<Longrightarrow>
   \<exists>es p'. pool_run work zero cap p es p' \<and> ctxDone p' \<and> dom (workers p') = dom (workers p) \<and>
     (\<forall>n. n \<in> set ns \<or> workers p n = Some Stopped \<longrightarrow> workers p' n = Some Stopped)"
proof (induction ns arbitrary: p)
  case Nil
  then show ?case by (metis empty_iff list.set(1) pool_run.refl)
next
  case (Cons n ns)
  then obtain w where "workers p n = Some w" by auto
  from worker_stops [OF Cons.prems(1) this, of work zero cap] obtain es1 p1 where
    1: "pool_run work zero cap p es1 p1" "workers p1 = (workers p)(n \<mapsto> Stopped)" "ctxDone p1" by blast
  then have d: "dom (workers p1) = dom (workers p)" using Cons.prems(2) by auto
  with Cons.IH [OF 1(3)] Cons.prems(2) obtain es2 p2 where 2: "pool_run work zero cap p1 es2 p2" "ctxDone p2"
    "dom (workers p2) = dom (workers p1)"
    "\<forall>m. m \<in> set ns \<or> workers p1 m = Some Stopped \<longrightarrow> workers p2 m = Some Stopped" by auto
  with 1 d pool_run_trans [OF 2(1) 1(1)] show ?case by (intro exI [of _ "es1 @ es2"] exI [of _ p2]) auto
qed

subsection \<open>What an employee does, request by request\<close>

text \<open>Some steps of an effect tree, not yet a whole run.\<close>

inductive lsteps :: "'a prog \<Rightarrow> event list \<Rightarrow> 'a prog \<Rightarrow> bool" for p :: "'a prog" where
  none: "lsteps p [] p"
| more: "lsteps p es q \<Longrightarrow> lstep q e q' \<Longrightarrow> lsteps p (es @ [e]) q'"

lemma lsteps_runs: "lsteps p es q \<Longrightarrow> runs q fs x \<Longrightarrow> runs p (es @ fs) x"
proof (induction arbitrary: fs rule: lsteps.induct)
  case (more es q e q')
  from runs.step [OF more.hyps(2) more.prems] more.IH show ?case by simp
qed simp

text \<open>The effects of one employee, in order.\<close>

fun acts_by :: "string \<Rightarrow> 'r pool_event list \<Rightarrow> event list" where
  "acts_by n [] = []"
| "acts_by n (Act m e # es) = (if m = n then e # acts_by n es else acts_by n es)"
| "acts_by n (_ # es) = acts_by n es"

lemma acts_by_append [simp]: "acts_by n (es @ fs) = acts_by n es @ acts_by n fs"
  by (induction n es rule: acts_by.induct) auto

text \<open>
  The effects up to now are whole runs, one for each finished request, and the beginning of a
  run for the request in hand.
\<close>

definition split_acts :: "(string \<Rightarrow> 'r \<Rightarrow> unit prog) \<Rightarrow> string \<Rightarrow> 'r pool_event list \<Rightarrow> 'r worker option \<Rightarrow> bool" where
  "split_acts work n es w \<longleftrightarrow>
     (\<exists>done_runs rest. acts_by n es = concat (map snd done_runs) @ rest \<and>
        map fst done_runs = finished_by n es \<and> (\<forall>(r, fs) \<in> set done_runs. runs (work n r) fs ()) \<and>
        (case w of Some (Working r q) \<Rightarrow> lsteps (work n r) rest q | _ \<Rightarrow> rest = []))"

lemma split_acts_step:
  assumes "pool_step work zero cap p e p'" "split_acts work n es (workers p n)"
  shows "split_acts work n (es @ [e]) (workers p' n)"
proof -
  from assms(2) obtain ds rest where ds: "acts_by n es = concat (map snd ds) @ rest"
      "map fst ds = finished_by n es" "\<forall>(r, fs) \<in> set ds. runs (work n r) fs ()"
    and rest: "case workers p n of Some (Working r q) \<Rightarrow> lsteps (work n r) rest q | _ \<Rightarrow> rest = []"
    unfolding split_acts_def by blast
  note ex = exI [of _ ds]
  from assms(1) show ?thesis
  proof cases
    case (receive m r rs k s')
    have "m = n \<Longrightarrow> rest = []" using receive rest by simp
    with receive ds rest show ?thesis
      by (auto simp: split_acts_def intro!: ex exI [of _ rest] intro: lsteps.none)
  next
    case (act m r q ev q')
    show ?thesis
    proof (cases "m = n")
      case True
      with act rest have "lsteps (work n r) (rest @ [ev]) q'" by (auto intro: lsteps.more)
      with True act ds show ?thesis
        by (auto simp: split_acts_def intro!: ex exI [of _ "rest @ [ev]"])
    next
      case False
      with act ds rest show ?thesis by (auto simp: split_acts_def intro!: ex exI [of _ rest])
    qed
  next
    case (finish m r)
    show ?thesis
    proof (cases "m = n")
      case True
      with finish rest have "runs (work n r) rest ()"
        using lsteps_runs [OF _ runs.finished] by fastforce
      with ds have "acts_by n es = concat (map snd (ds @ [(r, rest)])) @ []"
        "map fst (ds @ [(r, rest)]) = finished_by n es @ [r]"
        "\<forall>(r, fs) \<in> set (ds @ [(r, rest)]). runs (work n r) fs ()" by auto
      with True finish show ?thesis
        unfolding split_acts_def by (intro exI [of _ "ds @ [(r, rest)]"] exI [of _ "[]"]) simp
    next
      case False
      with finish ds rest show ?thesis by (auto simp: split_acts_def intro!: ex exI [of _ rest])
    qed
  qed (use ds rest in \<open>auto simp: split_acts_def intro!: ex exI [of _ rest]\<close>)
qed

lemma split_acts_run:
  assumes "pool_run work zero cap (start_pool s) es p"
  shows "split_acts work n es (workers p n)"
proof -
  have "pool_run work zero cap p0 es p \<Longrightarrow> p0 = start_pool s \<Longrightarrow> split_acts work n es (workers p n)" for p0
  proof (induction rule: pool_run.induct)
    case (refl p)
    then show ?case by (auto simp: split_acts_def start_pool_def split: option.splits)
  next
    case (step p es p' e p'')
    show ?case by (rule split_acts_step [OF step.hyps(2) step.IH [OF step.prems]])
  qed
  with assms show ?thesis by simp
qed

text \<open>So every effect belongs to some whole run for a request the employee has received.\<close>

lemma act_belongs:
  assumes "pool_run work zero cap (start_pool (new_employeeService zero names)) es p" "e \<in> set (acts_by n es)"
  shows "\<exists>r fs. r \<in> set (received_by n es) \<and> runs (work n r) fs () \<and> e \<in> set fs"
proof -
  from split_acts_run [OF assms(1), of n] obtain ds rest where ds: "acts_by n es = concat (map snd ds) @ rest"
      "map fst ds = finished_by n es" "\<forall>(r, fs) \<in> set ds. runs (work n r) fs ()"
    and rest: "case workers p n of Some (Working r q) \<Rightarrow> lsteps (work n r) rest q | _ \<Rightarrow> rest = []"
    unfolding split_acts_def by blast
  from pool_run_inv [OF assms(1) HOL.refl] have rb: "received_by n es = finished_by n es @ in_hand (workers p n)"
    unfolding pool_inv_def by blast
  from assms(2) ds(1) consider (past) r fs where "(r, fs) \<in> set ds" "e \<in> set fs" | (present) "e \<in> set rest"
    by auto
  then show ?thesis
  proof cases
    case past
    with ds(2) have "r \<in> set (finished_by n es)" by (metis fst_conv image_eqI set_map)
    moreover from past ds(3) have "runs (work n r) fs ()" by auto
    ultimately show ?thesis using past(2) rb by auto
  next
    case present
    with rest obtain r q where w: "workers p n = Some (Working r q)" "lsteps (work n r) rest q"
      by (auto split: option.splits worker.splits)
    obtain gs where "runs q gs ()" using prog_finishes by blast
    from lsteps_runs [OF w(2) this] present w(1) rb show ?thesis by (fastforce simp: in_hand_def)
  qed
qed

subsection \<open>Properties\<close>

definition busy :: "'r worker option \<Rightarrow> bool" where
  "busy w \<longleftrightarrow> (\<exists>r q. w = Some (Working r q))"

lemma employee_entry:
  assumes "pool_inv zero names cap es p" "n \<in> set names"
  shows "\<exists>w st. workers p n = Some w \<and> employees (service p) n = Some st \<and>
    isIdle st = (\<not> busy (Some w)) \<and> handledRequests st = int (length (received_by n es)) \<and>
    currentRequest st = (case w of Working r q \<Rightarrow> r | _ \<Rightarrow> zero)"
proof -
  from assms obtain w st where "workers p n = Some w"
    "employees (service p) n = Some st" "entry_ok zero w (received_by n es) st"
    unfolding pool_inv_def by blast
  then show ?thesis by (cases w) (auto simp: entry_ok_def busy_def)
qed

text \<open>C4: at any moment of any execution, whatever the handlers do, the table describes the
  goroutines: an employee is idle exactly if his goroutine handles nothing, his current request is
  the one it handles (the zero value otherwise), and his counter is the number of requests it has
  received.\<close>

theorem employee_table_invariant:
  assumes "pool_run work zero cap (start_pool (new_employeeService zero names)) es p" "n \<in> set names"
  shows "\<exists>w st. workers p n = Some w \<and> employees (service p) n = Some st \<and>
    isIdle st = (\<not> busy (Some w)) \<and> handledRequests st = int (length (received_by n es)) \<and>
    currentRequest st = (case w of Working r q \<Rightarrow> r | _ \<Rightarrow> zero)"
  by (rule employee_entry [OF pool_run_inv [OF assms(1) HOL.refl] assms(2)])

text \<open>A short execution used by the witnesses: two employees, two requests, one finished.\<close>

definition example_work :: "string \<Rightarrow> string \<Rightarrow> unit prog" where
  "example_work n r = log Info r"

definition example_events :: "string pool_event list" where
  "example_events =
     [Enqueue ''a'', Enqueue ''b'', Receive ''ann'' ''a'' 1, Act ''ann'' (EvLog Info ''a''), Receive ''bob'' ''b'' 1,
      Finish ''ann'' ''a'', Cancel]"

text \<open>The steps as a function of the event: which event comes next is the scheduler's choice.\<close>

fun pool_exec :: "(string \<Rightarrow> 'r \<Rightarrow> unit prog) \<Rightarrow> 'r \<Rightarrow> nat \<Rightarrow> 'r pool_event \<Rightarrow> 'r pool \<Rightarrow> 'r pool option" where
  "pool_exec work zero cap (Enqueue r) p =
     (if \<not> chanClosed p \<and> length (buffer p) < cap then Some (p\<lparr>buffer := buffer p @ [r]\<rparr>) else None)"
| "pool_exec work zero cap CloseChan p = Some (p\<lparr>chanClosed := True\<rparr>)"
| "pool_exec work zero cap Cancel p = Some (p\<lparr>ctxDone := True\<rparr>)"
| "pool_exec work zero cap (StopCtx n) p =
     (case workers p n of
        Some Waiting \<Rightarrow> if ctxDone p then Some (p\<lparr>workers := (workers p)(n \<mapsto> Stopped)\<rparr>) else None
      | _ \<Rightarrow> None)"
| "pool_exec work zero cap (StopClosed n) p =
     (case workers p n of
        Some Waiting \<Rightarrow>
          if chanClosed p \<and> buffer p = [] then Some (p\<lparr>workers := (workers p)(n \<mapsto> Stopped)\<rparr>) else None
      | _ \<Rightarrow> None)"
| "pool_exec work zero cap (Receive n r k) p =
     (case (workers p n, buffer p) of
        (Some Waiting, x # xs) \<Rightarrow>
          (case setEmployeeWorkingStatus n x (service p) of (k', s') \<Rightarrow>
             if x = r \<and> k' = k
             then Some (p\<lparr>service := s', workers := (workers p)(n \<mapsto> Working r (work n r)), buffer := xs\<rparr>)
             else None)
      | _ \<Rightarrow> None)"
| "pool_exec work zero cap (Act n e) p =
     (case workers p n of
        Some (Working r q) \<Rightarrow>
          map_option (\<lambda>q'. p\<lparr>workers := (workers p)(n \<mapsto> Working r q')\<rparr>) (lnext q e)
      | _ \<Rightarrow> None)"
| "pool_exec work zero cap (Finish n r) p =
     (case workers p n of
        Some (Working r' (Return u)) \<Rightarrow>
          if r' = r
          then Some (p\<lparr>service := setEmployeeIdleStatus zero n (service p), workers := (workers p)(n \<mapsto> Waiting)\<rparr>)
          else None
      | _ \<Rightarrow> None)"

fun pool_execs :: "(string \<Rightarrow> 'r \<Rightarrow> unit prog) \<Rightarrow> 'r \<Rightarrow> nat \<Rightarrow> 'r pool_event list \<Rightarrow> 'r pool \<Rightarrow> 'r pool option" where
  "pool_execs work zero cap [] p = Some p"
| "pool_execs work zero cap (e # es) p =
     (case pool_exec work zero cap e p of None \<Rightarrow> None | Some p' \<Rightarrow> pool_execs work zero cap es p')"

lemma pool_exec_step: "pool_exec work zero cap e p = Some p' \<Longrightarrow> pool_step work zero cap p e p'"
  by (cases e)
    (auto simp: lstep_lnext split: if_splits option.splits worker.splits list.splits prod.splits prog.splits
      intro: pool_step.intros)

lemma pool_execs_run:
  "pool_execs work zero cap es p = Some p' \<Longrightarrow> pool_run work zero cap p es p'"
proof (induction es arbitrary: p)
  case Nil
  then show ?case by (simp add: pool_run.refl)
next
  case (Cons e es)
  then obtain p1 where 1: "pool_exec work zero cap e p = Some p1" "pool_execs work zero cap es p1 = Some p'"
    by (auto split: option.splits)
  from pool_run.step [OF pool_run.refl pool_exec_step [OF 1(1)]] have "pool_run work zero cap p [e] p1" by simp
  from pool_run_trans [OF Cons.IH [OF 1(2)] this] show ?case by simp
qed

definition example_pool :: "string pool option" where
  "example_pool =
     pool_execs example_work '''' 8 example_events (start_pool (new_employeeService '''' [''ann'', ''bob'']))"

lemma example_run:
  "\<exists>p. pool_run example_work '''' 8 (start_pool (new_employeeService '''' [''ann'', ''bob''])) example_events p \<and>
     ctxDone p \<and> busy (workers p ''bob'') \<and> \<not> busy (workers p ''ann'')"
proof -
  have "example_pool \<noteq> None \<and> ctxDone (the example_pool) \<and>
      workers (the example_pool) ''ann'' = Some Waiting \<and>
      (case workers (the example_pool) ''bob'' of Some (Working r q) \<Rightarrow> r = ''b'' | _ \<Rightarrow> False)"
    by (simp add: example_pool_def example_events_def example_work_def log_def start_pool_def
        new_employeeService_def setEmployeeWorkingStatus_known setEmployeeIdleStatus_known)
  note ex = this
  then obtain p where p1: "example_pool = Some p" by blast
  from ex have p: "example_pool = Some p" "ctxDone p" "workers p ''ann'' = Some Waiting"
    and b: "case workers p ''bob'' of Some (Working r q) \<Rightarrow> r = ''b'' | _ \<Rightarrow> False"
    unfolding p1 option.sel by blast+
  from b have "busy (workers p ''bob'')" by (auto simp: busy_def split: option.splits worker.splits)
  with p pool_execs_run [OF p(1) [unfolded example_pool_def]] show ?thesis by (auto simp: busy_def)
qed

theorem employee_table_invariant_witness:
  "\<exists>p st. pool_run example_work '''' 8 (start_pool (new_employeeService '''' [''ann'', ''bob''])) example_events p \<and>
     employees (service p) ''bob'' = Some st \<and> \<not> isIdle st \<and> handledRequests st = 1"
proof -
  from example_run obtain p where
    p: "pool_run example_work '''' 8 (start_pool (new_employeeService '''' [''ann'', ''bob''])) example_events p"
    and b: "busy (workers p ''bob'')" by blast
  have "length (received_by ''bob'' example_events) = 1" by (simp add: example_events_def)
  with employee_table_invariant [OF p, of "''bob''"] b p show ?thesis by auto
qed

text \<open>C11: what an employee does is, in order, one whole run of the handler for each request he has
  finished, in the order he received them, followed by the beginning of a run for the request in
  hand, if any: no effect is lost, doubled or mixed into another request of the same employee.\<close>

theorem effects_are_whole_runs:
  assumes "pool_run work zero cap (start_pool (new_employeeService zero names)) es p"
  shows "\<exists>done_runs rest. acts_by n es = concat (map snd done_runs) @ rest \<and>
    received_by n es = map fst done_runs @ in_hand (workers p n) \<and>
    (\<forall>(r, fs) \<in> set done_runs. runs (work n r) fs ()) \<and>
    (case workers p n of Some (Working r q) \<Rightarrow> lsteps (work n r) rest q | _ \<Rightarrow> rest = [])"
  using split_acts_run [OF assms, of n] pool_run_inv [OF assms HOL.refl] unfolding split_acts_def pool_inv_def
  by metis

theorem effects_are_whole_runs_witness:
  "\<exists>p ds rest. pool_run example_work '''' 8 (start_pool (new_employeeService '''' [''ann'', ''bob''])) example_events p \<and>
     acts_by ''ann'' example_events = concat (map snd ds) @ rest \<and> map fst ds = [''a''] \<and> rest = [] \<and>
     snd (hd ds) = [EvLog Info ''a'']"
proof -
  from example_run obtain p where p: "pool_run example_work '''' 8 (start_pool (new_employeeService '''' [''ann'', ''bob'']))
     example_events p" "\<not> busy (workers p ''ann'')" by blast
  from effects_are_whole_runs [OF p(1), of "''ann''"] obtain ds rest where
    ds: "acts_by ''ann'' example_events = concat (map snd ds) @ rest"
      "received_by ''ann'' example_events = map fst ds @ in_hand (workers p ''ann'')"
      "case workers p ''ann'' of Some (Working r q) \<Rightarrow> lsteps (example_work ''ann'' r) rest q | _ \<Rightarrow> rest = []" by blast
  from p(2) ds(3) have "rest = []" "in_hand (workers p ''ann'') = []"
    by (auto simp: busy_def in_hand_def split: option.splits worker.splits)
  with ds have "map fst ds = [''a'']" "concat (map snd ds) = [EvLog Info ''a'']" by (simp_all add: example_events_def)
  then have "snd (hd ds) = [EvLog Info ''a'']" by auto
  with p(1) ds(1) \<open>rest = []\<close> \<open>map fst ds = [''a'']\<close> show ?thesis by (intro exI conjI)
qed

text \<open>C18: no request is lost, duplicated or reordered: what was enqueued is what has been received
  followed by what is still in the channel, and what an employee received is what he finished
  followed by what he has in hand.\<close>

theorem requests_conserved:
  assumes "pool_run work zero cap (start_pool (new_employeeService zero names)) es p"
  shows "enqueued es = received es @ buffer p \<and> length (buffer p) \<le> cap \<and>
    received_by n es = finished_by n es @ (case workers p n of Some (Working r q) \<Rightarrow> [r] | _ \<Rightarrow> [])"
  using pool_run_inv [OF assms HOL.refl] unfolding pool_inv_def in_hand_def by blast

theorem requests_conserved_witness:
  "\<exists>p. pool_run example_work '''' 8 (start_pool (new_employeeService '''' [''ann'', ''bob''])) example_events p \<and>
     buffer p = [] \<and> received_by ''ann'' example_events = [''a'']"
proof -
  from example_run obtain p where
    p: "pool_run example_work '''' 8 (start_pool (new_employeeService '''' [''ann'', ''bob''])) example_events p" by blast
  have "enqueued example_events = received example_events" "received_by ''ann'' example_events = [''a'']"
    by (simp_all add: example_events_def)
  with requests_conserved [OF p] p show ?thesis by auto
qed

text \<open>C29: in every reachable state the idle count, over the map in any order, is the number of
  employees whose goroutine handles nothing, and \<open>EmployeeMetrics\<close> is a copy of the table.\<close>

theorem metrics_describe_pool:
  assumes "pool_run work zero cap (start_pool (new_employeeService zero names)) es p"
    and "distinct ks" "set ks = dom (employees (service p))"
  shows "IdleEmployeeCount ks (service p) = int (card {n \<in> set names. \<not> busy (workers p n)}) \<and>
    EmployeeMetrics ks (service p) = employees (service p) \<and>
    int (card (set names)) \<le> employeeCount (service p)"
proof -
  have i: "pool_inv zero names cap es p" by (rule pool_run_inv [OF assms(1) HOL.refl])
  then have ks: "set ks = set names" and cnt: "employeeCount (service p) = int (length names)"
    using assms(3) by (simp_all add: pool_inv_def)
  have "(\<exists>st. employees (service p) n = Some st \<and> isIdle st) \<longleftrightarrow> \<not> busy (workers p n)" if "n \<in> set names" for n
    using employee_entry [OF i that] by auto
  then have "set (List.filter (\<lambda>n. \<exists>st. employees (service p) n = Some st \<and> isIdle st) ks) =
      {n \<in> set names. \<not> busy (workers p n)}" using ks by auto
  then have "IdleEmployeeCount ks (service p) = int (card {n \<in> set names. \<not> busy (workers p n)})"
    using distinct_card [OF distinct_filter [OF assms(2)], of "\<lambda>n. \<exists>st. employees (service p) n = Some st \<and> isIdle st"]
    unfolding IdleEmployeeCount_filter by simp
  with EmployeeMetrics_copies [OF assms(3)] cnt card_length [of names] show ?thesis by simp
qed

theorem metrics_describe_pool_witness:
  "\<exists>p. pool_run example_work '''' 8 (start_pool (new_employeeService '''' [''ann'', ''bob''])) example_events p \<and>
     IdleEmployeeCount [''bob'', ''ann''] (service p) = 1"
proof -
  from example_run obtain p where
    p: "pool_run example_work '''' 8 (start_pool (new_employeeService '''' [''ann'', ''bob''])) example_events p"
    and b: "busy (workers p ''bob'')" "\<not> busy (workers p ''ann'')" by blast
  have "set [''bob'', ''ann''] = set [''ann'', ''bob'']" by (simp add: insert_commute)
  then have d: "set [''bob'', ''ann''] = dom (employees (service p))"
    using pool_run_inv [OF p HOL.refl] by (simp only: pool_inv_def)
  have "{n \<in> set [''ann'', ''bob'']. \<not> busy (workers p n)} = {''ann''}" using b by auto
  moreover have "distinct [''bob'', ''ann'']" by simp
  ultimately have "IdleEmployeeCount [''bob'', ''ann''] (service p) = 1"
    using metrics_describe_pool [OF p _ d] by simp
  with p show ?thesis by blast
qed



end
