(* ===== verification/Stocker_Service.thy ===== *)
theory Stocker_Service
  imports Employee_Service
begin

text \<open>
  \<^verbatim>\<open>internal/app/stocker_service.go\<close>: restocking on request (\<open>stocker.work\<close>, from a
  snapshot of the stock) and on demand (\<open>ImmediateRestock\<close>). First what any run does, whatever
  the database answers; then, inside the locale of a stock repository, what a run without
  interference leaves in the stock.
\<close>

definition minimumStockQuantity :: int where "minimumStockQuantity = 10"
definition stockReplenishmentQuantity :: int where "stockReplenishmentQuantity = 50"

lemmas stocker_consts [go_defs] = minimumStockQuantity_def stockReplenishmentQuantity_def

definition restock_one :: "(string \<rightharpoonup> StockItem) \<Rightarrow> string \<Rightarrow> unit prog" where
  "restock_one stock itemName =
     (case stock itemName of
        None \<Rightarrow> log Warn ''requested item not found in stock snapshot''
      | Some item \<Rightarrow>
          if minimumStockQuantity \<le> Quantity item then log Info ''item already has enough stock''
          else bindp (restockItem itemName stockReplenishmentQuantity) (\<lambda>err.
            case err of
              Some e \<Rightarrow> log Error ''failed to restock item''
            | None \<Rightarrow> log Info ''item restocked''))"

definition stocker_work :: "string \<Rightarrow> RestockRequest \<Rightarrow> unit prog" where
  "stocker_work employeeName request =
     thenp (log Info ''stocker started to workFn on restock request'')
      (if length (ItemsName request) = 0 then log Info ''no items requested for restock''
       else bindp getStock (\<lambda>r.
         case r of
           Inl err \<Rightarrow> log Error ''failed to get stock snapshot''
         | Inr stock \<Rightarrow>
             thenp (seqp (map (restock_one stock) (ItemsName request)))
               (log Info ''stocker finished to workFn on restock request'')))"

definition stocker_ImmediateRestock :: "string \<Rightarrow> go_error option prog" where
  "stocker_ImmediateRestock item = restockItem item stockReplenishmentQuantity"

text \<open>
  The method of the service: a nil \<open>*StockerService\<close>, or one without its stocker (a zero
  value, never built by the constructor), returns nil without restocking.
\<close>

datatype stocker_ref = NilService | NoStocker | WithStocker

definition StockerService_ImmediateRestock :: "stocker_ref \<Rightarrow> string \<Rightarrow> go_error option prog" where
  "StockerService_ImmediateRestock s item =
     (if s = NilService \<or> s = NoStocker then Return None else stocker_ImmediateRestock item)"

subsection \<open>Every run\<close>

definition below_minimum :: "(string \<rightharpoonup> StockItem) \<Rightarrow> string \<Rightarrow> bool" where
  "below_minimum stock i \<longleftrightarrow> (\<exists>x. stock i = Some x \<and> Quantity x < minimumStockQuantity)"

lemma runs_restock_one:
  assumes "runs (restock_one stock i) es ()"
  shows "map (\<lambda>(i, q, r). (i, q)) (restocks es) =
           (if below_minimum stock i then [(i, stockReplenishmentQuantity)] else []) \<and>
         consumes es = [] \<and> updates es = [] \<and> washes es = []"
  using assms
  by (auto simp: restock_one_def below_minimum_def prog_simps split: option.splits if_splits)

lemma runs_restock_all:
  assumes "list_all2 (\<lambda>i e. runs (restock_one stock i) e ()) xs ess"
  shows "map (\<lambda>(i, q, r). (i, q)) (restocks (concat ess)) =
           map (\<lambda>i. (i, stockReplenishmentQuantity)) (List.filter (below_minimum stock) xs) \<and>
         consumes (concat ess) = [] \<and> updates (concat ess) = [] \<and> washes (concat ess) = []"
  using assms
proof (induction xs ess rule: list_all2_induct)
  case Nil
  show ?case by simp
next
  case (Cons i xs e ess)
  with runs_restock_one [OF Cons.hyps(1)] show ?case by simp
qed

lemma runs_stocker_work:
  "runs (stocker_work n request) es u \<longleftrightarrow>
     (if ItemsName request = []
      then es = [EvLog Info ''stocker started to workFn on restock request'',
                 EvLog Info ''no items requested for restock'']
      else (\<exists>e. es = [EvLog Info ''stocker started to workFn on restock request'', EvGetStock (Inl e),
                     EvLog Error ''failed to get stock snapshot'']) \<or>
           (\<exists>stock ess. es = EvLog Info ''stocker started to workFn on restock request'' #
                EvGetStock (Inr stock) # concat ess @
                [EvLog Info ''stocker finished to workFn on restock request''] \<and>
              list_all2 (\<lambda>i e. runs (restock_one stock i) e ()) (ItemsName request) ess))"
  by (auto simp: stocker_work_def command_defs runs_bindp runs_seqp_map split_sum_ex)

subsection \<open>A run without interference\<close>

text \<open>The ports of a worker whose stock repository keeps the laws of the interface.\<close>

locale stock_ports =
  stock_repo "p_getStock P" "p_consumeItem P" "p_restockItem P" qty inv up
  for P :: "'w ports" and qty :: "'w \<Rightarrow> string \<Rightarrow> int option" and inv :: "'w \<Rightarrow> bool" and up :: "'w \<Rightarrow> bool"
begin

lemma exec_restock_one:
  assumes "inv (outer s)" "up (outer s)" "i \<in> set ManagedStockItemNames" "stock i = Some x"
    "qty (outer s) i = Some n"
  shows "\<exists>s'. exec P cap (restock_one stock i) s = Some ((), s') \<and> inv (outer s') \<and> up (outer s') \<and>
    laundry s' = laundry s \<and>
    qty (outer s') = (if Quantity x < minimumStockQuantity
                      then (qty (outer s))(i \<mapsto> n + stockReplenishmentQuantity) else qty (outer s))"
proof -
  obtain w where "p_restockItem P i stockReplenishmentQuantity (outer s) = (None, w)"
    "qty w = (qty (outer s))(i \<mapsto> n + stockReplenishmentQuantity)" "inv w" "up w"
    using restock_adds [OF assms(1-3) _ assms(5), of stockReplenishmentQuantity]
    by (auto simp: stockReplenishmentQuantity_def)
  with assms show ?thesis by (auto simp: restock_one_def prog_simps)
qed

end

text \<open>What a stocker makes of the stock levels \<open>m\<close> for the requested items.\<close>

definition restocked :: "(string \<Rightarrow> int option) \<Rightarrow> string list \<Rightarrow> string \<Rightarrow> int option" where
  "restocked m xs i =
     (if i \<in> set xs
      then map_option (\<lambda>n. if n < minimumStockQuantity then n + stockReplenishmentQuantity else n) (m i)
      else m i)"

lemma restocked_Nil [simp]: "restocked m [] = m"
  by (rule ext) (simp add: restocked_def)

lemma restocked_Cons:
  "i \<notin> set xs \<Longrightarrow> m i = Some n \<Longrightarrow>
   restocked (if n < minimumStockQuantity then m(i \<mapsto> n + stockReplenishmentQuantity) else m) xs =
   restocked m (i # xs)"
  by (rule ext) (auto simp: restocked_def)

context stock_ports
begin

lemma exec_restock_all:
  assumes "inv (outer s)" "up (outer s)" "distinct xs" "set xs \<subseteq> set ManagedStockItemNames"
    and "\<forall>i \<in> set xs. \<exists>x. stock i = Some x \<and> qty (outer s) i = Some (Quantity x)"
  shows "\<exists>s'. exec P cap (seqp (map (restock_one stock) xs)) s = Some ((), s') \<and>
    inv (outer s') \<and> up (outer s') \<and> laundry s' = laundry s \<and>
    qty (outer s') = restocked (qty (outer s)) xs"
  using assms
proof (induction xs arbitrary: s)
  case Nil
  then show ?case by simp
next
  case (Cons i xs)
  from Cons.prems(5) obtain x where x: "stock i = Some x" "qty (outer s) i = Some (Quantity x)" by auto
  from Cons.prems(4) have i: "i \<in> set ManagedStockItemNames" by simp
  from exec_restock_one [OF Cons.prems(1,2) i, of stock x "Quantity x" cap] x obtain s1 where
    s1: "exec P cap (restock_one stock i) s = Some ((), s1)" "inv (outer s1)" "up (outer s1)"
    "laundry s1 = laundry s"
    "qty (outer s1) = (if Quantity x < minimumStockQuantity
       then (qty (outer s))(i \<mapsto> Quantity x + stockReplenishmentQuantity) else qty (outer s))" by blast
  have "\<forall>j \<in> set xs. \<exists>x. stock j = Some x \<and> qty (outer s1) j = Some (Quantity x)"
    using Cons.prems(3,5) s1(5) by auto
  with Cons.IH [OF s1(2,3)] Cons.prems(3,4) obtain s2 where
    s2: "exec P cap (seqp (map (restock_one stock) xs)) s1 = Some ((), s2)" "inv (outer s2)"
    "up (outer s2)" "laundry s2 = laundry s1" "qty (outer s2) = restocked (qty (outer s1)) xs" by auto
  have "restocked (qty (outer s1)) xs = restocked (qty (outer s)) (i # xs)"
    using restocked_Cons [of i xs "qty (outer s)", OF _ x(2)] Cons.prems(3) s1(5) by simp
  with s1 s2 show ?case by (simp add: thenp_def exec_bindp)
qed

lemma exec_stocker_work:
  assumes "inv (outer s)" "up (outer s)" "distinct (ItemsName request)"
    and "set (ItemsName request) \<subseteq> set ManagedStockItemNames"
  shows "\<exists>s'. exec P cap (stocker_work n request) s = Some ((), s') \<and>
    inv (outer s') \<and> up (outer s') \<and> laundry s' = laundry s \<and>
    qty (outer s') = restocked (qty (outer s)) (ItemsName request)"
proof (cases "ItemsName request = []")
  case True
  with assms show ?thesis by (simp add: stocker_work_def command_defs)
next
  case False
  obtain r w where g: "p_getStock P (outer s) = (r, w)" by fastforce
  from get_frame [OF assms(1) g] assms(2) obtain m where m: "r = Inr m" "inv w" "up w" "qty w = qty (outer s)"
    by (cases r) auto
  from get_value [OF assms(1)] g m(1)
  have "dom m = set ManagedStockItemNames" and v: "\<forall>i x. m i = Some x \<longrightarrow> qty (outer s) i = Some (Quantity x)"
    by auto
  with assms(4) have all: "\<forall>i \<in> set (ItemsName request). \<exists>x. m i = Some x \<and> qty w i = Some (Quantity x)"
    using m(4) by (metis domD subsetD)
  let ?s1 = "s\<lparr>logs := logs s @ [(Info, ''stocker started to workFn on restock request'')], outer := w\<rparr>"
  from exec_restock_all [of ?s1 "ItemsName request" m cap] m(2,3) assms(3,4) all obtain s2 where
    "exec P cap (seqp (map (restock_one m) (ItemsName request))) ?s1 = Some ((), s2)"
    "inv (outer s2)" "up (outer s2)" "laundry s2 = laundry s" "qty (outer s2) = restocked (qty w) (ItemsName request)"
    by auto
  with False g m show ?thesis by (simp add: stocker_work_def command_defs exec_bindp)
qed

lemma restocked_enough:
  assumes "inv w" "i \<in> set xs" "i \<in> set ManagedStockItemNames"
  shows "\<exists>n. restocked (qty w) xs i = Some n \<and> minimumStockQuantity \<le> n"
proof -
  from qty_managed [OF assms(1,3)] obtain n where "qty w i = Some n" "0 \<le> n" by blast
  with assms(2) show ?thesis
    by (cases "n < 10") (simp_all add: restocked_def minimumStockQuantity_def stockReplenishmentQuantity_def)
qed

text \<open>Restocking on demand.\<close>

lemma exec_ImmediateRestock:
  assumes "inv (outer s)" "up (outer s)" "i \<in> set ManagedStockItemNames" "qty (outer s) i = Some n"
  shows "\<exists>w. exec P cap (StockerService_ImmediateRestock WithStocker i) s = Some (None, s\<lparr>outer := w\<rparr>) \<and>
    p_restockItem P i stockReplenishmentQuantity (outer s) = (None, w) \<and>
    inv w \<and> up w \<and> qty w = (qty (outer s))(i \<mapsto> n + stockReplenishmentQuantity)"
  using restock_adds [OF assms(1-3) _ assms(4), of stockReplenishmentQuantity]
  by (auto simp: StockerService_ImmediateRestock_def stocker_ImmediateRestock_def restockItem_def
      stockReplenishmentQuantity_def)

end

subsection \<open>Properties\<close>

text \<open>C23: whatever the database answers, a stocker restocks by the fixed replenishment, in the order
  of the request, exactly the requested items that his stock snapshot shows below the minimum;
  without a snapshot he restocks nothing. He never takes stock, updates a cottage or sends laundry.\<close>

theorem stocker_restocks_below_minimum:
  assumes "runs (stocker_work n request) es u"
  shows "consumes es = [] \<and> updates es = [] \<and> washes es = [] \<and>
    (if \<exists>stock. EvGetStock (Inr stock) \<in> set es
     then \<exists>stock. EvGetStock (Inr stock) \<in> set es \<and>
       map (\<lambda>(i, q, r). (i, q)) (restocks es) =
         map (\<lambda>i. (i, stockReplenishmentQuantity)) (List.filter (below_minimum stock) (ItemsName request))
     else restocks es = [])"
proof -
  from assms consider
      (none) m1 m2 where "es = [EvLog Info m1, EvLog Info m2]"
    | (err) m1 e m2 where "es = [EvLog Info m1, EvGetStock (Inl e), EvLog Error m2]"
    | (some) m1 stock ess m2 where "es = EvLog Info m1 # EvGetStock (Inr stock) # concat ess @ [EvLog Info m2]"
        "list_all2 (\<lambda>i e. runs (restock_one stock i) e ()) (ItemsName request) ess"
    unfolding runs_stocker_work by (cases "ItemsName request = []") auto
  then show ?thesis
  proof cases
    case some
    let ?P = "\<lambda>stock. map (\<lambda>(i, q, r). (i, q)) (restocks es) =
        map (\<lambda>i. (i, stockReplenishmentQuantity)) (List.filter (below_minimum stock) (ItemsName request))"
    have "EvGetStock (Inr stock) \<in> set es" by (simp add: some(1))
    moreover have "?P stock" "consumes es = [] \<and> updates es = [] \<and> washes es = []"
      using runs_restock_all [OF some(2)] by (simp_all add: some(1))
    ultimately have ex: "\<exists>stock. EvGetStock (Inr stock) \<in> set es" "\<exists>stock. EvGetStock (Inr stock) \<in> set es \<and> ?P stock"
      and q: "consumes es = [] \<and> updates es = [] \<and> washes es = []" by blast+
    show ?thesis unfolding if_P [OF ex(1)] using ex(2) q by blast
  qed simp_all
qed

theorem stocker_restocks_below_minimum_witness:
  "\<exists>es stock. runs (stocker_work ''sam'' \<lparr>ItemsName = [Soap, Chips]\<rparr>) es () \<and>
     EvGetStock (Inr stock) \<in> set es \<and> map (\<lambda>(i, q, r). (i, q)) (restocks es) = [(Chips, 50)]"
proof -
  define stock where "stock = [Soap \<mapsto> \<lparr>Name = '''', Quantity = 10\<rparr>, Chips \<mapsto> \<lparr>Name = '''', Quantity = 9\<rparr>]"
  define es where "es = [EvLog Info ''stocker started to workFn on restock request'', EvGetStock (Inr stock),
      EvLog Info ''item already has enough stock'', EvRestockItem Chips stockReplenishmentQuantity None,
      EvLog Info ''item restocked'', EvLog Info ''stocker finished to workFn on restock request'']"
  have r: "runs (stocker_work ''sam'' \<lparr>ItemsName = [Soap, Chips]\<rparr>) es ()"
    by (simp add: es_def stock_def stocker_work_def command_defs restock_one_def item_defs minimumStockQuantity_def)
  have s: "EvGetStock (Inr s) \<in> set es \<longleftrightarrow> s = stock" for s by (simp add: es_def)
  from stocker_restocks_below_minimum [OF r] s
  have "map (\<lambda>(i, q, r). (i, q)) (restocks es) =
      map (\<lambda>i. (i, stockReplenishmentQuantity)) (List.filter (below_minimum stock) [Soap, Chips])" by simp
  also have "\<dots> = [(Chips, 50)]"
    by (simp add: below_minimum_def stock_def stockReplenishmentQuantity_def minimumStockQuantity_def item_defs)
  finally have "map (\<lambda>(i, q, r). (i, q)) (restocks es) = [(Chips, 50)]" .
  moreover have "EvGetStock (Inr stock) \<in> set es" using s by blast
  ultimately show ?thesis using r by (intro exI [of _ es] exI [of _ stock] conjI)
qed

end
