(* ===== verification/Housekeeper_Service.thy ===== *)
theory Housekeeper_Service
  imports Stocker_Service
begin

text \<open>
  \<^verbatim>\<open>internal/app/housekeeper_service.go\<close>: the handler of cleaning requests. The
  \<open>immediateRestocker\<close> it was built with is the parameter \<open>stoker\<close>, a method; the service is
  wired with \<open>StockerService.ImmediateRestock\<close>.
\<close>

definition action :: "string \<Rightarrow> unit prog" where
  "action act = log Info act"

definition actionConsumeItem :: "string \<Rightarrow> string \<Rightarrow> int \<Rightarrow> go_error option prog" where
  "actionConsumeItem act item quantity =
     bindp (consumeItem item quantity) (\<lambda>err.
       if err = None then thenp (log Info act) (Return None) else Return err)"

definition actionConsumeItemRetry ::
    "(string \<Rightarrow> go_error option prog) \<Rightarrow> string \<Rightarrow> string \<Rightarrow> int \<Rightarrow> unit prog" where
  "actionConsumeItemRetry stoker act item quantity =
     bindp (actionConsumeItem act item quantity) (\<lambda>err.
       case err of
         None \<Rightarrow> skip
       | Some err \<Rightarrow>
           (case errors_As_stock err of
              None \<Rightarrow> log Error ''failed to consume item''
            | Some stockErr \<Rightarrow>
                thenp (log Warn ''stock item unavailable for housekeeper action, requesting restock'')
                 (bindp (stoker item) (\<lambda>err.
                    if err \<noteq> None then log Error ''failed to restock item''
                    else bindp (actionConsumeItem act item quantity) (\<lambda>err.
                           if err \<noteq> None then log Error ''failed to consume item after restock''
                           else skip)))))"

definition hk_updateCleaningStatus :: "string \<Rightarrow> string \<Rightarrow> unit prog" where
  "hk_updateCleaningStatus roomName cleaningStatus =
     bindp (updateCleaningStatus roomName cleaningStatus) (\<lambda>err.
       if err \<noteq> None then log Error ''failed to update cleaning status'' else skip)"

definition actionLaundry :: "string \<Rightarrow> string \<Rightarrow> string \<Rightarrow> unit prog" where
  "actionLaundry act laundryItem roomName =
     thenp (sendWash \<lparr>WashRoomName = roomName, Item = laundryItem\<rparr>) (log Info act)"

definition cleaning_actions :: "(string \<Rightarrow> go_error option prog) \<Rightarrow> CleaningRequest \<Rightarrow> unit prog" where
  "cleaning_actions stoker request =
     (let retry = actionConsumeItemRetry stoker; room = RoomName request; kind = RequestType request in
      if kind = ''PREPARE_FOR_GUEST'' then seqp
        [retry ''added wine bottle'' WineBottle 1,
         action ''added a vase of flower'',
         action ''added a welcoming message'',
         retry ''added aroma candle'' AromaCandle 1,
         hk_updateCleaningStatus room CleaningStatusPreparedForGuest]
      else if kind = ''DAILY_CLEANING'' then seqp
        [action ''trash taken out'',
         action ''bed arranged'',
         retry ''bathroom cleaned'' CleaningItem 5,
         actionLaundry ''towels changed'' ''towels'' room,
         action ''vacuum cleaned'',
         hk_updateCleaningStatus room CleaningStatusDailyCleaned]
      else if kind = ''FULL_CLEANING'' then seqp
        [action ''trash taken out'',
         actionLaundry ''towels changed'' ''towels'' room,
         actionLaundry ''linens changed'' ''linens'' room,
         retry ''bathroom cleaned'' CleaningItem 10,
         action ''bedroom detailed cleaned'',
         hk_updateCleaningStatus room CleaningStatusFullyCleaned]
      else if kind = ''PREPARE_FOR_SLEEP'' then seqp
        [action ''bed arranged for sleep'',
         retry ''added calm tea bags'' TeaBags 1,
         retry ''added aroma candle'' AromaCandle 1,
         hk_updateCleaningStatus room CleaningStatusPreparedForSleep]
      else log Error ''unknown cleaning request'')"

definition housekeeper_work ::
    "(string \<Rightarrow> go_error option prog) \<Rightarrow> string \<Rightarrow> CleaningRequest \<Rightarrow> unit prog" where
  "housekeeper_work stoker employeeName request =
     bindp now (\<lambda>r. case r of
       Inl err \<Rightarrow> log Error ''failed to get current time''
     | Inr startTime \<Rightarrow>
         thenp (log Info ''housekeeper started to workFn on cleaning request'')
          (thenp (cleaning_actions stoker request)
            (bindp now (\<lambda>r. case r of
               Inl err \<Rightarrow> log Error ''failed to get current time''
             | Inr finishTime \<Rightarrow> log Info ''housekeeper finished to workFn on cleaning request''))))"

text \<open>What each kind of request needs: the abstract plan the handler carries out.\<close>

record plan =
  takes :: "(string \<times> int) list"
  sends :: "string list"
  becomes :: string

definition plan_of :: "string \<Rightarrow> plan option" where
  "plan_of kind =
     (if kind = ''PREPARE_FOR_GUEST'' then
        Some \<lparr>takes = [(WineBottle, 1), (AromaCandle, 1)], sends = [], becomes = CleaningStatusPreparedForGuest\<rparr>
      else if kind = ''DAILY_CLEANING'' then
        Some \<lparr>takes = [(CleaningItem, 5)], sends = [''towels''], becomes = CleaningStatusDailyCleaned\<rparr>
      else if kind = ''FULL_CLEANING'' then
        Some \<lparr>takes = [(CleaningItem, 10)], sends = [''towels'', ''linens''], becomes = CleaningStatusFullyCleaned\<rparr>
      else if kind = ''PREPARE_FOR_SLEEP'' then
        Some \<lparr>takes = [(TeaBags, 1), (AromaCandle, 1)], sends = [], becomes = CleaningStatusPreparedForSleep\<rparr>
      else None)"

definition wash_requests :: "string \<Rightarrow> string list \<Rightarrow> WashRequest list" where
  "wash_requests room xs = map (\<lambda>i. \<lparr>WashRoomName = room, Item = i\<rparr>) xs"

subsection \<open>Every run\<close>

text \<open>The five ways in which taking an item with one restock and one retry can go.\<close>

definition retry_run :: "string \<Rightarrow> string \<Rightarrow> int \<Rightarrow> event list \<Rightarrow> bool" where
  "retry_run act i q es \<longleftrightarrow>
     es = [EvConsumeItem i q None, EvLog Info act] \<or>
     (\<exists>e es'. es = EvConsumeItem i q (Some e) # es' \<and>
       (errors_As_stock e = None \<and> es' = [EvLog Error ''failed to consume item''] \<or>
        errors_As_stock e \<noteq> None \<and>
        (\<exists>es2. es' = EvLog Warn ''stock item unavailable for housekeeper action, requesting restock'' # es2 \<and>
          ((\<exists>e'. es2 = [EvRestockItem i stockReplenishmentQuantity (Some e'),
               EvLog Error ''failed to restock item'']) \<or>
           (\<exists>es3. es2 = EvRestockItem i stockReplenishmentQuantity None # es3 \<and>
             (es3 = [EvConsumeItem i q None, EvLog Info act] \<or>
              (\<exists>e. es3 = [EvConsumeItem i q (Some e),
                 EvLog Error ''failed to consume item after restock''])))))))"

abbreviation "wired \<equiv> StockerService_ImmediateRestock WithStocker"

lemma wired_def: "wired item = CallRestockItem item stockReplenishmentQuantity Return"
  by (simp add: StockerService_ImmediateRestock_def stocker_ImmediateRestock_def restockItem_def)

lemma ex_error: "(\<exists>r. P r) \<longleftrightarrow> P None \<or> (\<exists>e. P (Some e))" for P :: "go_error option \<Rightarrow> bool"
  by (metis option.exhaust)

lemma ex_and_right: "(\<exists>a b c. x = f b c \<and> P a b \<and> Q a c) \<longleftrightarrow> (\<exists>a b. P a b \<and> (\<exists>c. x = f b c \<and> Q a c))"
  by blast

lemma runs_restock_then:
  "runs (thenp (log Warn m) (bindp (wired i) (\<lambda>r. if r \<noteq> None then log Error m' else p))) es u \<longleftrightarrow>
     (\<exists>es2. es = EvLog Warn m # es2 \<and>
        ((\<exists>e'. es2 = [EvRestockItem i stockReplenishmentQuantity (Some e'), EvLog Error m']) \<or>
         (\<exists>es3. es2 = EvRestockItem i stockReplenishmentQuantity None # es3 \<and> runs p es3 u)))"
  by (auto simp: wired_def thenp_def log_def ex_error)

lemma runs_consume_then:
  "runs (bindp (actionConsumeItem act i q) f) es u \<longleftrightarrow>
     (\<exists>es'. es = EvConsumeItem i q None # EvLog Info act # es' \<and> runs (f None) es' u) \<or>
     (\<exists>e es'. es = EvConsumeItem i q (Some e) # es' \<and> runs (f (Some e)) es' u)"
  by (auto simp: actionConsumeItem_def consumeItem_def thenp_def log_def ex_error)

lemma runs_retry: "runs (actionConsumeItemRetry wired act i q) es u \<longleftrightarrow> retry_run act i q es"
proof -
  have again: "runs (bindp (actionConsumeItem act i q) (\<lambda>err. if err \<noteq> None then log Error m else skip)) es u \<longleftrightarrow>
      es = [EvConsumeItem i q None, EvLog Info act] \<or> (\<exists>e. es = [EvConsumeItem i q (Some e), EvLog Error m])" for m es
    by (simp add: runs_consume_then log_def skip_def)
  have err: "runs (case errors_As_stock e of None \<Rightarrow> log Error m1 | Some s \<Rightarrow> p) es u \<longleftrightarrow>
      errors_As_stock e = None \<and> es = [EvLog Error m1] \<or> errors_As_stock e \<noteq> None \<and> runs p es u"
    for e es m1 and p :: "unit prog"
    by (cases "errors_As_stock e") (simp_all add: log_def)
  show ?thesis
    unfolding actionConsumeItemRetry_def runs_consume_then [of _ _ _ "case_option _ _"] option.case
      err runs_restock_then again retry_run_def by (simp add: skip_def)
qed

lemma retry_run_quiet:
  "retry_run act i q es \<Longrightarrow> updates es = [] \<and> washes es = [] \<and> registrations es = []"
  by (auto simp: retry_run_def Let_def)

lemma runs_simple:
  "runs (action act) es u \<longleftrightarrow> es = [EvLog Info act]"
  "runs (actionLaundry act i room) es u \<longleftrightarrow>
     es = [EvSendWash \<lparr>WashRoomName = room, Item = i\<rparr>, EvLog Info act]"
  "runs (hk_updateCleaningStatus room st) es u \<longleftrightarrow>
     es = [EvUpdateCleaningStatus room st None] \<or>
     (\<exists>e. es = [EvUpdateCleaningStatus room st (Some e), EvLog Error ''failed to update cleaning status''])"
  by (auto simp: action_def actionLaundry_def hk_updateCleaningStatus_def command_defs split: if_splits)

lemma runs_thenp:
  "runs (thenp p q) es u \<longleftrightarrow> (\<exists>es1 es2. es = es1 @ es2 \<and> runs p es1 () \<and> runs q es2 u)"
  by (simp add: thenp_def runs_bindp)

text \<open>One attempt, or two of which the first found too little.\<close>

definition take_block :: "string \<times> int \<Rightarrow> (string \<times> int \<times> go_error option) list \<Rightarrow> bool" where
  "take_block iq cs \<longleftrightarrow>
     (case iq of (i, q) \<Rightarrow>
        (\<exists>r. cs = [(i, q, r)]) \<or>
        (\<exists>e r. errors_As_stock e \<noteq> None \<and> cs = [(i, q, Some e), (i, q, r)]))"

definition follows_plan :: "string \<Rightarrow> plan \<Rightarrow> event list \<Rightarrow> bool" where
  "follows_plan room pl es \<longleftrightarrow>
     updates es = [(room, becomes pl)] \<and>
     washes es = wash_requests room (sends pl) \<and>
     (\<exists>blocks. consumes es = concat blocks \<and> list_all2 take_block (takes pl) blocks)"

lemma retry_run_block: "retry_run act i q es \<Longrightarrow> take_block (i, q) (consumes es)"
  by (auto simp: retry_run_def take_block_def Let_def)

lemma retry_run_effect:
  "retry_run act i q es \<Longrightarrow>
     take_block (i, q) (consumes es) \<and> updates es = [] \<and> washes es = [] \<and> registrations es = []"
  using retry_run_quiet retry_run_block by blast

lemma follows_one:
  "take_block iq b \<Longrightarrow> consumes es = b \<Longrightarrow>
   \<exists>blocks. consumes es = concat blocks \<and> list_all2 take_block [iq] blocks"
  by (intro exI [of _ "[b]"]) simp

lemma follows_two:
  "take_block iq1 b1 \<Longrightarrow> take_block iq2 b2 \<Longrightarrow> consumes es = b1 @ b2 \<Longrightarrow>
   \<exists>blocks. consumes es = concat blocks \<and> list_all2 take_block [iq1, iq2] blocks"
  by (intro exI [of _ "[b1, b2]"]) simp

lemmas actions_runs =
  cleaning_actions_def Let_def runs_thenp runs_simple runs_retry

lemma runs_cleaning_actions:
  assumes pl: "plan_of (RequestType request) = Some pl" and r: "runs (cleaning_actions wired request) es u"
  shows "follows_plan (RoomName request) pl es"
proof -
  let ?room = "RoomName request"
  from pl consider
      (guest) "RequestType request = ''PREPARE_FOR_GUEST''"
        "pl = \<lparr>takes = [(WineBottle, 1), (AromaCandle, 1)], sends = [], becomes = CleaningStatusPreparedForGuest\<rparr>"
    | (daily) "RequestType request = ''DAILY_CLEANING''"
        "pl = \<lparr>takes = [(CleaningItem, 5)], sends = [''towels''], becomes = CleaningStatusDailyCleaned\<rparr>"
    | (full) "RequestType request = ''FULL_CLEANING''"
        "pl = \<lparr>takes = [(CleaningItem, 10)], sends = [''towels'', ''linens''], becomes = CleaningStatusFullyCleaned\<rparr>"
    | (sleep) "RequestType request = ''PREPARE_FOR_SLEEP''"
        "pl = \<lparr>takes = [(TeaBags, 1), (AromaCandle, 1)], sends = [], becomes = CleaningStatusPreparedForSleep\<rparr>"
    by (auto simp: plan_of_def split: if_splits)
  then show ?thesis
  proof cases
    case guest
    with r obtain b1 b2 where b: "take_block (WineBottle, 1) b1" "take_block (AromaCandle, 1) b2" "consumes es = b1 @ b2"
      and "washes es = []"
      "updates es = [(?room, CleaningStatusPreparedForGuest)]"
      by (auto simp: actions_runs dest!: retry_run_effect)
    with guest show ?thesis
      unfolding follows_plan_def
      using follows_two [OF b] by (simp add: wash_requests_def)
  next
    case daily
    with r obtain b1 where b: "take_block (CleaningItem, 5) b1" "consumes es = b1"
      and "washes es = [\<lparr>WashRoomName = ?room, Item = ''towels''\<rparr>]"
      "updates es = [(?room, CleaningStatusDailyCleaned)]"
      by (auto simp: actions_runs dest!: retry_run_effect)
    with daily show ?thesis
      unfolding follows_plan_def
      using follows_one [OF b] by (simp add: wash_requests_def)
  next
    case full
    with r obtain b1 where b: "take_block (CleaningItem, 10) b1" "consumes es = b1"
      and
      "washes es = [\<lparr>WashRoomName = ?room, Item = ''towels''\<rparr>, \<lparr>WashRoomName = ?room, Item = ''linens''\<rparr>]"
      "updates es = [(?room, CleaningStatusFullyCleaned)]"
      by (auto simp: actions_runs dest!: retry_run_effect)
    with full show ?thesis
      unfolding follows_plan_def
      using follows_one [OF b] by (simp add: wash_requests_def)
  next
    case sleep
    with r obtain b1 b2 where b: "take_block (TeaBags, 1) b1" "take_block (AromaCandle, 1) b2" "consumes es = b1 @ b2"
      and "washes es = []"
      "updates es = [(?room, CleaningStatusPreparedForSleep)]"
      by (auto simp: actions_runs dest!: retry_run_effect)
    with sleep show ?thesis
      unfolding follows_plan_def
      using follows_two [OF b] by (simp add: wash_requests_def)
  qed
qed

lemma runs_cleaning_unknown:
  assumes "plan_of (RequestType request) = None" "runs (cleaning_actions wired request) es u"
  shows "es = [EvLog Error ''unknown cleaning request'']"
  using assms by (auto simp: cleaning_actions_def plan_of_def Let_def command_defs split: if_splits)

lemma runs_timed:
  "runs (bindp now (\<lambda>r. case r of Inl err \<Rightarrow> log Error m0
     | Inr t \<Rightarrow> thenp (log Info m1) (thenp p (bindp now (\<lambda>r. case r of
         Inl err \<Rightarrow> log Error m0 | Inr t \<Rightarrow> log Info m2))))) es u \<longleftrightarrow>
     (\<exists>e. es = [EvNow (Inl e), EvLog Error m0]) \<or>
     (\<exists>st es' fin. es = EvNow (Inr st) # EvLog Info m1 # es' @ fin \<and> runs p es' () \<and>
        ((\<exists>t. fin = [EvNow (Inr t), EvLog Info m2]) \<or> (\<exists>e. fin = [EvNow (Inl e), EvLog Error m0])))"
  by (simp add: command_defs runs_bindp split_sum_ex) blast

lemma runs_housekeeper_work:
  "runs (housekeeper_work stoker n request) es u \<longleftrightarrow>
     (\<exists>e. es = [EvNow (Inl e), EvLog Error ''failed to get current time'']) \<or>
     (\<exists>st es' fin. es = EvNow (Inr st) #
          EvLog Info ''housekeeper started to workFn on cleaning request'' # es' @ fin \<and>
        runs (cleaning_actions stoker request) es' () \<and>
        ((\<exists>t. fin = [EvNow (Inr t), EvLog Info ''housekeeper finished to workFn on cleaning request'']) \<or>
         (\<exists>e. fin = [EvNow (Inl e), EvLog Error ''failed to get current time''])))"
  unfolding housekeeper_work_def by (rule runs_timed)

subsection \<open>A run without interference\<close>

text \<open>
  The stock level after taking \<open>q\<close> of an item of which there are \<open>n\<close>: where there are too few,
  one replenishment comes first.
\<close>

definition take_level :: "int \<Rightarrow> int \<Rightarrow> int" where
  "take_level n q = (if q \<le> n then n - q else n + stockReplenishmentQuantity - q)"

fun after_takes :: "(string \<times> int) list \<Rightarrow> (string \<Rightarrow> int option) \<Rightarrow> string \<Rightarrow> int option" where
  "after_takes [] m = m"
| "after_takes ((i, q) # xs) m = after_takes xs (m(i := map_option (\<lambda>n. take_level n q) (m i)))"

text \<open>
  The ports of a housekeeper: the two repositories share a world, and neither touches what the
  other keeps; the clock touches nothing.
\<close>

locale housekeeper_ports =
  stock_ports P qty inv up + cottage_repo "p_updateCleaningStatus P" status inv up
  for P :: "'w ports" and qty :: "'w \<Rightarrow> string \<Rightarrow> int option" and inv :: "'w \<Rightarrow> bool"
    and up :: "'w \<Rightarrow> bool" and status :: "'w \<Rightarrow> string \<Rightarrow> string option option" +
  assumes now_frame: "inv w \<Longrightarrow> p_now P w = (r, w') \<Longrightarrow>
      inv w' \<and> qty w' = qty w \<and> status w' = status w \<and> (up w \<longrightarrow> up w' \<and> \<not> isl r)"
    and update_qty: "inv w \<Longrightarrow> p_updateCleaningStatus P n s w = (e, w') \<Longrightarrow> qty w' = qty w"
    and consume_status: "inv w \<Longrightarrow> p_consumeItem P i q w = (e, w') \<Longrightarrow> status w' = status w"
    and restock_status: "inv w \<Longrightarrow> p_restockItem P i q w = (e, w') \<Longrightarrow> status w' = status w"
begin

definition good :: "'w solo \<Rightarrow> bool" where
  "good s \<longleftrightarrow> inv (outer s) \<and> up (outer s)"

definition view :: "'w solo \<Rightarrow> (string \<Rightarrow> int option) \<times> (string \<Rightarrow> string option option) \<times> WashRequest list" where
  "view s = (qty (outer s), status (outer s), laundry s)"

text \<open>Running \<open>p\<close> from \<open>s\<close> returns, and leaves the view \<open>v\<close>.\<close>

definition effect :: "nat \<Rightarrow> 'w solo \<Rightarrow> unit prog \<Rightarrow>
    (string \<Rightarrow> int option) \<times> (string \<Rightarrow> string option option) \<times> WashRequest list \<Rightarrow> bool" where
  "effect cap s p v \<longleftrightarrow> (\<exists>s'. exec P cap p s = Some ((), s') \<and> good s' \<and> view s' = v)"

lemma effect_thenp:
  "effect cap s p v \<Longrightarrow> (\<And>s'. good s' \<Longrightarrow> view s' = v \<Longrightarrow> effect cap s' q v') \<Longrightarrow>
   effect cap s (thenp p q) v'"
  by (fastforce simp: effect_def thenp_def exec_bindp)

lemma effect_Return: "good s \<Longrightarrow> view s = v \<Longrightarrow> effect cap s (Return ()) v"
  by (simp add: effect_def)

lemma effect_action: "good s \<Longrightarrow> view s = v \<Longrightarrow> effect cap s (action a) v"
  by (simp add: effect_def action_def log_def good_def view_def)

lemma effect_laundry:
  "good s \<Longrightarrow> view s = (m, st, l) \<Longrightarrow> length l < cap \<Longrightarrow>
   effect cap s (actionLaundry a i room) (m, st, l @ [\<lparr>WashRoomName = room, Item = i\<rparr>])"
  by (auto simp: effect_def actionLaundry_def command_defs good_def view_def)

lemma effect_update:
  assumes "good s" "view s = (m, st, l)" "TrimSpace room \<noteq> ''''" "valid_status v" "st room \<noteq> None"
  shows "effect cap s (hk_updateCleaningStatus room v) (m, st(room \<mapsto> Some v), l)"
proof -
  obtain r w where u: "p_updateCleaningStatus P room v (outer s) = (r, w)" by fastforce
  from assms have g: "inv (outer s)" "up (outer s)" "status (outer s) = st" "qty (outer s) = m"
    by (auto simp: good_def view_def)
  from update_reaches [OF g(1,2) assms(3,4) _ u] assms(5) g(3)
  have w: "status w room = Some (Some v)" "inv w" "up w" by auto
  have "status w = st(room \<mapsto> Some v)"
    using update_frame [OF g(1) u] w(1) g(3) by (auto simp: fun_eq_iff)
  with w u update_qty [OF g(1) u] assms(2) show ?thesis
    by (cases r) (auto simp: effect_def hk_updateCleaningStatus_def command_defs good_def view_def)
qed

lemma effect_retry:
  assumes "good s" "view s = (m, st, l)" "i \<in> set ManagedStockItemNames"
    and q: "0 < q" "q \<le> stockReplenishmentQuantity"
  shows "effect cap s (actionConsumeItemRetry wired a i q)
           (m(i := map_option (\<lambda>n. take_level n q) (m i)), st, l)"
proof -
  from assms have g: "inv (outer s)" "up (outer s)" "qty (outer s) = m" "status (outer s) = st"
    by (auto simp: good_def view_def)
  from qty_managed [OF g(1) assms(3)] g(3) obtain n where n: "m i = Some n" "0 \<le> n" by auto
  show ?thesis
  proof (cases "q \<le> n")
    case True
    from consume_enough [OF g(1,2) assms(3) q(1), of n] True n g(3) obtain w where
      c: "p_consumeItem P i q (outer s) = (None, w)" "qty w = m(i \<mapsto> n - q)" "inv w" "up w" by auto
    with True n consume_status [OF g(1) c(1)] assms(2) show ?thesis
      by (simp add: effect_def actionConsumeItemRetry_def actionConsumeItem_def command_defs
          good_def view_def take_level_def)
  next
    case False
    from consume_short [OF g(1,2) assms(3) q(1), of n] False n g(3) obtain e w where
      c: "p_consumeItem P i q (outer s) = (Some e, w)"
      "errors_As_stock e = Some (StockInsufficientQuantityErr i q)" "qty w = m" "inv w" "up w" by auto
    from restock_adds [OF c(4,5) assms(3), of stockReplenishmentQuantity n] n c(3) obtain w1 where
      r: "p_restockItem P i stockReplenishmentQuantity w = (None, w1)"
      "qty w1 = m(i \<mapsto> n + stockReplenishmentQuantity)" "inv w1" "up w1"
      by (auto simp: stockReplenishmentQuantity_def)
    from consume_enough [OF r(3,4) assms(3) q(1), of "n + stockReplenishmentQuantity"] n q r(2) obtain w2 where
      c2: "p_consumeItem P i q w1 = (None, w2)" "qty w2 = m(i \<mapsto> n + stockReplenishmentQuantity - q)"
      "inv w2" "up w2" by auto
    have "status w2 = st"
      using consume_status [OF g(1) c(1)] restock_status [OF c(4) r(1)] consume_status [OF r(3) c2(1)] g(4)
      by simp
    with False n c r c2 assms(2) show ?thesis
      by (simp add: effect_def actionConsumeItemRetry_def actionConsumeItem_def wired_def command_defs
          good_def view_def take_level_def)
  qed
qed

end

lemma managed_takes:
  "WineBottle \<in> set ManagedStockItemNames" "AromaCandle \<in> set ManagedStockItemNames"
  "CleaningItem \<in> set ManagedStockItemNames" "TeaBags \<in> set ManagedStockItemNames"
  "Soap \<in> set ManagedStockItemNames"
  by (simp_all add: ManagedStockItemNames_def)

lemma takes_distinct [simp]: "AromaCandle \<noteq> WineBottle" "AromaCandle \<noteq> TeaBags"
  by (simp_all add: AromaCandle_def WineBottle_def TeaBags_def)

lemma valid_statuses:
  "valid_status CleaningStatusPreparedForGuest" "valid_status CleaningStatusDailyCleaned"
  "valid_status CleaningStatusFullyCleaned" "valid_status CleaningStatusPreparedForSleep"
  by (simp_all add: valid_status_def)

context housekeeper_ports
begin

lemma effect_take:
  assumes "good s" "view s = (m, st, l)" "i \<in> set ManagedStockItemNames" "0 < q" "q \<le> stockReplenishmentQuantity"
    and "\<And>s'. good s' \<Longrightarrow> view s' = (after_takes [(i, q)] m, st, l) \<Longrightarrow> effect cap s' p v"
  shows "effect cap s (thenp (actionConsumeItemRetry wired a i q) p) v"
  by (rule effect_thenp [OF effect_retry [OF assms(1-5)]]) (use assms(6) in simp)

lemma effect_cleaning_actions:
  assumes "good s" "view s = (m, st, l)" "plan_of (RequestType request) = Some pl"
    and room: "TrimSpace (RoomName request) \<noteq> ''''" "st (RoomName request) \<noteq> None"
    and cap: "length l + length (sends pl) \<le> cap"
  shows "effect cap s (cleaning_actions wired request)
    (after_takes (takes pl) m, st(RoomName request \<mapsto> Some (becomes pl)),
     l @ wash_requests (RoomName request) (sends pl))"
proof -
  have upd: "effect cap s' (hk_updateCleaningStatus (RoomName request) v) (m', st(RoomName request \<mapsto> Some v), l')"
    if "good s'" "view s' = (m', st, l')" "valid_status v" for s' v m' l'
    by (rule effect_update [OF that(1,2) room(1) that(3) room(2)])
  note facts = stockReplenishmentQuantity_def managed_takes valid_statuses
  from assms(3) consider "RequestType request = ''PREPARE_FOR_GUEST''" | "RequestType request = ''DAILY_CLEANING''"
    | "RequestType request = ''FULL_CLEANING''" | "RequestType request = ''PREPARE_FOR_SLEEP''"
    by (auto simp: plan_of_def split: if_splits)
  then show ?thesis
  proof cases
    case 1
    with assms(3) have pl: "pl = \<lparr>takes = [(WineBottle, 1), (AromaCandle, 1)], sends = [],
      becomes = CleaningStatusPreparedForGuest\<rparr>" by (simp add: plan_of_def)
    show ?thesis
      unfolding pl using 1 assms(1,2) cap
      by (simp add: cleaning_actions_def Let_def wash_requests_def pl)
        (rule effect_take effect_thenp [OF effect_action] effect_thenp [OF effect_laundry]
           effect_thenp [OF upd] effect_Return
          | assumption | simp add: facts)+
  next
    case 2
    with assms(3) have pl: "pl = \<lparr>takes = [(CleaningItem, 5)], sends = [''towels''],
      becomes = CleaningStatusDailyCleaned\<rparr>" by (simp add: plan_of_def)
    show ?thesis
      unfolding pl using 2 assms(1,2) cap
      by (simp add: cleaning_actions_def Let_def wash_requests_def pl)
        (rule effect_take effect_thenp [OF effect_action] effect_thenp [OF effect_laundry]
           effect_thenp [OF upd] effect_Return
          | assumption | simp add: facts)+
  next
    case 3
    with assms(3) have pl: "pl = \<lparr>takes = [(CleaningItem, 10)], sends = [''towels'', ''linens''],
      becomes = CleaningStatusFullyCleaned\<rparr>" by (simp add: plan_of_def)
    show ?thesis
      unfolding pl using 3 assms(1,2) cap
      by (simp add: cleaning_actions_def Let_def wash_requests_def pl)
        (rule effect_take effect_thenp [OF effect_action] effect_thenp [OF effect_laundry]
           effect_thenp [OF upd] effect_Return
          | assumption | simp add: facts)+
  next
    case 4
    with assms(3) have pl: "pl = \<lparr>takes = [(TeaBags, 1), (AromaCandle, 1)], sends = [],
      becomes = CleaningStatusPreparedForSleep\<rparr>" by (simp add: plan_of_def)
    show ?thesis
      unfolding pl using 4 assms(1,2) cap
      by (simp add: cleaning_actions_def Let_def wash_requests_def pl)
        (rule effect_take effect_thenp [OF effect_action] effect_thenp [OF effect_laundry]
           effect_thenp [OF upd] effect_Return
          | assumption | simp add: facts)+
  qed
qed

text \<open>The whole handler: the two readings of the clock change nothing.\<close>

lemma effect_now:
  assumes "good s" "view s = v" "\<And>t s'. good s' \<Longrightarrow> view s' = v \<Longrightarrow> effect cap s' (f (Inr t)) v'"
  shows "effect cap s (bindp now f) v'"
proof -
  obtain r w where n: "p_now P (outer s) = (r, w)" by fastforce
  from assms(1) have g: "inv (outer s)" "up (outer s)" by (auto simp: good_def)
  from now_frame [OF g(1) n] g(2) obtain t where r: "r = Inr t" by (cases r) auto
  have "good (s\<lparr>outer := w\<rparr>)" "view (s\<lparr>outer := w\<rparr>) = v"
    using now_frame [OF g(1) n] g(2) assms(2) by (auto simp: good_def view_def)
  from assms(3) [OF this, of t] n r show ?thesis
    by (simp add: effect_def now_def)
qed

lemma effect_log: "good s \<and> view s = v \<Longrightarrow> effect cap s (log lv msg) v"
  by (simp add: effect_def log_def good_def view_def)

lemma effect_housekeeper_work:
  assumes "good s" "view s = (m, st, l)" "plan_of (RequestType request) = Some pl"
    and "TrimSpace (RoomName request) \<noteq> ''''" "st (RoomName request) \<noteq> None"
    and "length l + length (sends pl) \<le> cap"
  shows "effect cap s (housekeeper_work wired n request)
    (after_takes (takes pl) m, st(RoomName request \<mapsto> Some (becomes pl)),
     l @ wash_requests (RoomName request) (sends pl))"
  unfolding housekeeper_work_def
  apply (rule effect_now [OF assms(1,2)], simp)
  apply (rule effect_thenp, rule effect_log, simp)
  apply (rule effect_thenp, rule effect_cleaning_actions)
        apply (assumption | rule assms(3-6))+
  apply (rule effect_now, assumption+, simp)
  apply (rule effect_log, simp)
  done

end

subsection \<open>Properties\<close>

lemma housekeeper_plan:
  assumes "runs (housekeeper_work wired n request) es u" "plan_of (RequestType request) = Some pl"
  shows "(\<exists>e. es = [EvNow (Inl e), EvLog Error ''failed to get current time'']) \<or>
    updates es = [(RoomName request, becomes pl)] \<and>
    washes es = wash_requests (RoomName request) (sends pl) \<and>
    (\<exists>blocks. consumes es = concat blocks \<and> list_all2 take_block (takes pl) blocks)"
proof -
  from assms(1) consider (no) "\<exists>e. es = [EvNow (Inl e), EvLog Error ''failed to get current time'']"
    | (yes) st m es' e fin where "es = EvNow st # EvLog Info m # es' @ [EvNow e, fin]"
        "runs (cleaning_actions wired request) es' ()" "updates [fin] = [] \<and> washes [fin] = [] \<and> consumes [fin] = []"
    unfolding runs_housekeeper_work by force
  then show ?thesis
  proof cases
    case no
    then show ?thesis ..
  next
    case yes
    have "updates [EvNow e, fin] = []" "washes [EvNow e, fin] = []" "consumes [EvNow e, fin] = []"
      using yes(3) by simp_all
    with runs_cleaning_actions [OF assms(2) yes(2)] show ?thesis
      unfolding yes(1) follows_plan_def by simp
  qed
qed

text \<open>C2: in every run of a known request, unless the first reading of the clock fails (then nothing
  at all is done), the handler takes each item of the plan in order, once or, after too little
  stock, twice; sends exactly the laundry of the plan; and asks exactly once, for the room of the
  request, for the status of the plan, even where taking an item failed.\<close>

theorem housekeeper_follows_plan:
  assumes "runs (housekeeper_work wired n request) es u" "plan_of (RequestType request) = Some pl"
  shows "(\<exists>e. es = [EvNow (Inl e), EvLog Error ''failed to get current time'']) \<or>
    updates es = [(RoomName request, becomes pl)] \<and>
    washes es = wash_requests (RoomName request) (sends pl) \<and>
    (\<exists>blocks. consumes es = concat blocks \<and> list_all2 take_block (takes pl) blocks)"
  by (rule housekeeper_plan [OF assms])

definition example_cleaning :: CleaningRequest where
  "example_cleaning = \<lparr>RoomName = ''oak'', RequestType = ''FULL_CLEANING''\<rparr>"

text \<open>A run in which too little cleaning material is found, the restock succeeds, and the status
  update fails.\<close>

definition example_cleaning_run :: "event list" where
  "example_cleaning_run =
     [EvNow (Inr 0), EvLog Info ''housekeeper started to workFn on cleaning request'',
      EvLog Info ''trash taken out'',
      EvSendWash \<lparr>WashRoomName = ''oak'', Item = ''towels''\<rparr>, EvLog Info ''towels changed'',
      EvSendWash \<lparr>WashRoomName = ''oak'', Item = ''linens''\<rparr>, EvLog Info ''linens changed'',
      EvConsumeItem CleaningItem 10 (Some (StockInsufficientQuantityErr CleaningItem 10)),
      EvLog Warn ''stock item unavailable for housekeeper action, requesting restock'',
      EvRestockItem CleaningItem stockReplenishmentQuantity None,
      EvConsumeItem CleaningItem 10 None, EvLog Info ''bathroom cleaned'',
      EvLog Info ''bedroom detailed cleaned'',
      EvUpdateCleaningStatus ''oak'' CleaningStatusFullyCleaned (Some (ErrCottageDoesNotExist ''oak'')),
      EvLog Error ''failed to update cleaning status'',
      EvNow (Inr 5), EvLog Info ''housekeeper finished to workFn on cleaning request'']"

lemma example_cleaning_runs: "runs (housekeeper_work wired ''hal'' example_cleaning) example_cleaning_run ()"
  by (simp add: housekeeper_work_def cleaning_actions_def Let_def example_cleaning_def example_cleaning_run_def
      command_defs action_def actionLaundry_def actionConsumeItemRetry_def actionConsumeItem_def
      hk_updateCleaningStatus_def wired_def)

theorem housekeeper_follows_plan_witness:
  "\<exists>pl. plan_of (RequestType example_cleaning) = Some pl \<and>
     updates example_cleaning_run = [(''oak'', CleaningStatusFullyCleaned)] \<and>
     washes example_cleaning_run = wash_requests ''oak'' (sends pl)"
proof -
  have pl: "plan_of (RequestType example_cleaning) =
      Some \<lparr>takes = [(CleaningItem, 10)], sends = [''towels'', ''linens''], becomes = CleaningStatusFullyCleaned\<rparr>"
    by (simp add: plan_of_def example_cleaning_def)
  have "\<nexists>e. example_cleaning_run = [EvNow (Inl e), EvLog Error ''failed to get current time'']"
    by (simp add: example_cleaning_run_def)
  with housekeeper_follows_plan [OF example_cleaning_runs pl] pl show ?thesis
    by (simp add: example_cleaning_def)
qed

lemma unknown_request_quiet:
  assumes "runs (housekeeper_work wired n request) es u" "plan_of (RequestType request) = None"
  shows "consumes es = [] \<and> restocks es = [] \<and> washes es = [] \<and> updates es = [] \<and> registrations es = [] \<and>
    ((Error, ''unknown cleaning request'') \<in> set (logged es) \<or>
     (\<exists>e. es = [EvNow (Inl e), EvLog Error ''failed to get current time'']))"
proof -
  from assms(1) consider (no) "\<exists>e. es = [EvNow (Inl e), EvLog Error ''failed to get current time'']"
    | (yes) st m es' e lv m' where "es = EvNow st # EvLog Info m # es' @ [EvNow e, EvLog lv m']"
        "runs (cleaning_actions wired request) es' ()"
    unfolding runs_housekeeper_work by force
  then show ?thesis
  proof cases
    case no
    then show ?thesis by auto
  next
    case yes
    with runs_cleaning_unknown [OF assms(2) yes(2)] show ?thesis by simp
  qed
qed

text \<open>Laundry is only sent as the plan of the request says.\<close>

lemma wash_planned:
  assumes "runs (housekeeper_work wired n request) es u" "w \<in> set (washes es)"
  shows "\<exists>pl. plan_of (RequestType request) = Some pl \<and> w \<in> set (wash_requests (RoomName request) (sends pl))"
proof (cases "plan_of (RequestType request)")
  case None
  with unknown_request_quiet [OF assms(1)] assms(2) show ?thesis by simp
next
  case (Some pl)
  with housekeeper_plan [OF assms(1) Some] assms(2) show ?thesis by auto
qed

text \<open>A request of any other kind has no effect but log records: no stock is taken, nothing is
  sent to the laundry and no status is written.\<close>

theorem unknown_request_has_no_effect:
  assumes "runs (housekeeper_work wired n request) es u" "plan_of (RequestType request) = None"
  shows "consumes es = [] \<and> restocks es = [] \<and> washes es = [] \<and> updates es = [] \<and> registrations es = [] \<and>
    ((Error, ''unknown cleaning request'') \<in> set (logged es) \<or>
     (\<exists>e. es = [EvNow (Inl e), EvLog Error ''failed to get current time'']))"
  by (rule unknown_request_quiet [OF assms])

theorem unknown_request_has_no_effect_witness:
  "updates [EvNow (Inr 0), EvLog Info ''housekeeper started to workFn on cleaning request'',
     EvLog Error ''unknown cleaning request'', EvNow (Inr 1),
     EvLog Info ''housekeeper finished to workFn on cleaning request''] = []"
proof -
  let ?r = "\<lparr>RoomName = ''oak'', RequestType = ''7''\<rparr>"
  have "runs (housekeeper_work wired ''hal'' ?r)
    [EvNow (Inr 0), EvLog Info ''housekeeper started to workFn on cleaning request'',
     EvLog Error ''unknown cleaning request'', EvNow (Inr 1),
     EvLog Info ''housekeeper finished to workFn on cleaning request''] ()"
    by (simp add: housekeeper_work_def cleaning_actions_def Let_def command_defs)
  moreover have "plan_of (RequestType ?r) = None" by (simp add: plan_of_def)
  ultimately show ?thesis by (rule unknown_request_has_no_effect [THEN conjunct2, THEN conjunct2, THEN conjunct2, THEN conjunct1])
qed



end
