(* ===== verification/Launderer_Service.thy ===== *)
theory Launderer_Service
  imports Housekeeper_Service
begin

text \<open>
  \<^verbatim>\<open>internal/app/launderer_service.go\<close>: the handler of washing requests. A wash takes its
  soap, registers a fresh channel for the hour changes, waits until the cycle is over and
  unregisters the channel (the deferred call). Too little soap means one restock and one more
  attempt.
\<close>

record washConfig =
  soap :: int
  cycleDurationInHours :: int

definition washTable :: "string \<rightharpoonup> washConfig" where
  "washTable =
     [''linens'' \<mapsto> \<lparr>soap = 20, cycleDurationInHours = 2\<rparr>,
      ''towels'' \<mapsto> \<lparr>soap = 10, cycleDurationInHours = 1\<rparr>]"

definition washingCycle :: "time \<Rightarrow> int \<Rightarrow> (time \<times> go_error option) prog" where
  "washingCycle startTime cycleDuration =
     MakeTimeChan (\<lambda>hourChangeCh.
       CallRegister timeEventHourChange hourChangeCh
         (AwaitHours hourChangeCh startTime cycleDuration (\<lambda>finishTime.
            CallUnregister timeEventHourChange hourChangeCh (Return (finishTime, None)))))"

definition wash :: "string \<Rightarrow> time \<Rightarrow> go_error option prog" where
  "wash item startTime =
     (case washTable item of
        None \<Rightarrow> Return (Some (ErrorString (''unsupported wash item: '' @ item)))
      | Some cfg \<Rightarrow>
          bindp (consumeItem Soap (soap cfg)) (\<lambda>err.
            if err = None then
              bindp (washingCycle startTime (cycleDurationInHours cfg)) (\<lambda>(finishTime, err).
                if err \<noteq> None then Return err
                else thenp (log Info ''launderer is done'') (Return None))
            else Return err))"

definition launderer_work ::
    "(string \<Rightarrow> go_error option prog) \<Rightarrow> string \<Rightarrow> WashRequest \<Rightarrow> unit prog" where
  "launderer_work stocker employeeName request =
     bindp now (\<lambda>r. case r of
       Inl err \<Rightarrow> log Error ''failed to get current time''
     | Inr startTime \<Rightarrow>
         thenp (log Info ''launderer started to workFn on washing request'')
          (bindp (wash (Item request) startTime) (\<lambda>err.
             case err of
               None \<Rightarrow> skip
             | Some err \<Rightarrow>
                 (case errors_As_stock err of
                    None \<Rightarrow> log Error ''failed to wash item''
                  | Some stockErr \<Rightarrow>
                      thenp (log Warn ''insufficient stock to wash item, requesting restock'')
                       (bindp (stocker (ItemName stockErr)) (\<lambda>restockErr.
                          if restockErr \<noteq> None then log Error ''failed to restock item''
                          else bindp (wash (Item request) startTime) (\<lambda>err.
                                 if err \<noteq> None then log Error ''failed to wash item after restock''
                                 else skip)))))))"

lemma washTable_cases:
  "washTable i = Some cfg \<longleftrightarrow>
     i = ''linens'' \<and> cfg = \<lparr>soap = 20, cycleDurationInHours = 2\<rparr> \<or>
     i = ''towels'' \<and> cfg = \<lparr>soap = 10, cycleDurationInHours = 1\<rparr>"
  by (auto simp: washTable_def split: if_splits)

text \<open>For the two cycles of the table, the duration saturates far above what is waited for.\<close>

lemma cycle_reached:
  assumes "washTable i = Some cfg"
  shows "Hours_at_least (Sub t st) (cycleDurationInHours cfg) \<longleftrightarrow> st + cycleDurationInHours cfg * Hour \<le> t"
  using assms by (auto simp: washTable_cases Hours_at_least_iff Sub_def Hour_def)

subsection \<open>Every run\<close>

text \<open>
  One completed cycle: the channel is registered, hour changes before \<open>due\<close> are passed over,
  the cycle ends with the first hour change at or after \<open>due\<close> or with the end of the context,
  and the channel is unregistered.
\<close>

definition cycle_run :: "time \<Rightarrow> event list \<Rightarrow> bool" where
  "cycle_run due es \<longleftrightarrow>
     (\<exists>c pre fin. es = [EvMakeTimeChan c, EvRegister timeEventHourChange c] @ pre @
          [fin, EvUnregister timeEventHourChange c] \<and>
        (\<forall>e \<in> set pre. \<exists>t. e = EvHour c t \<and> t < due) \<and>
        (fin = EvCtxDone \<or> (\<exists>t. fin = EvHour c t \<and> due \<le> t)))"

definition wash_run :: "string \<Rightarrow> time \<Rightarrow> event list \<Rightarrow> go_error option \<Rightarrow> bool" where
  "wash_run item st es r \<longleftrightarrow>
     (case washTable item of
        None \<Rightarrow> es = [] \<and> r = Some (ErrorString (''unsupported wash item: '' @ item))
      | Some cfg \<Rightarrow>
          (\<exists>e. es = [EvConsumeItem Soap (soap cfg) (Some e)] \<and> r = Some e) \<or>
          (\<exists>cyc. es = EvConsumeItem Soap (soap cfg) None # cyc @ [EvLog Info ''launderer is done''] \<and>
             cycle_run (st + cycleDurationInHours cfg * Hour) cyc \<and> r = None))"


lemma runs_washingCycle:
  assumes "\<And>t. Hours_at_least (Sub t st) h \<longleftrightarrow> due \<le> t"
  shows "(\<exists>x. runs (washingCycle st h) es x \<and> P (snd x)) \<longleftrightarrow> cycle_run due es \<and> P None"
proof -
  have "(\<exists>x. runs (washingCycle st h) es x \<and> P (snd x)) \<longleftrightarrow>
    (\<exists>c pre e t. es = EvMakeTimeChan c # EvRegister timeEventHourChange c # pre @
        [e, EvUnregister timeEventHourChange c] \<and> early_hours c st h pre \<and>
        (e = EvCtxDone \<and> t = zeroTime \<or> e = EvHour c t \<and> due \<le> t)) \<and> P None"
    by (fastforce simp: washingCycle_def runs_AwaitHours assms)
  also have "\<dots> \<longleftrightarrow> cycle_run due es \<and> P None"
    unfolding cycle_run_def early_hours_def assms not_le by auto
  finally show ?thesis .
qed
lemma runs_wash: "runs (wash item st) es r \<longleftrightarrow> wash_run item st es r"
proof (cases "washTable item")
  case None
  then show ?thesis by (auto simp: wash_def wash_run_def)
next
  case (Some cfg)
  have K: "runs ((\<lambda>(t, err). if err \<noteq> None then Return err
        else thenp (log Info ''launderer is done'') (Return None)) x) rest r \<longleftrightarrow>
      (if snd x \<noteq> None then rest = [] \<and> r = snd x else rest = [EvLog Info ''launderer is done''] \<and> r = None)"
    for x :: "time \<times> go_error option" and rest
    by (cases x) (simp add: command_defs)
  have cycle: "runs (bindp (washingCycle st (cycleDurationInHours cfg)) (\<lambda>(t, err).
      if err \<noteq> None then Return err else thenp (log Info ''launderer is done'') (Return None))) es r \<longleftrightarrow>
    (\<exists>cyc. es = cyc @ [EvLog Info ''launderer is done''] \<and>
       cycle_run (st + cycleDurationInHours cfg * Hour) cyc \<and> r = None)" for es
  proof -
    have "runs (bindp (washingCycle st (cycleDurationInHours cfg)) (\<lambda>(t, err).
        if err \<noteq> None then Return err else thenp (log Info ''launderer is done'') (Return None))) es r \<longleftrightarrow>
      (\<exists>cyc rest. es = cyc @ rest \<and> (\<exists>x. runs (washingCycle st (cycleDurationInHours cfg)) cyc x \<and>
         (if snd x \<noteq> None then rest = [] \<and> r = snd x else rest = [EvLog Info ''launderer is done''] \<and> r = None)))"
      unfolding runs_bindp K by blast
    also have "\<dots> \<longleftrightarrow> (\<exists>cyc rest. es = cyc @ rest \<and> cycle_run (st + cycleDurationInHours cfg * Hour) cyc \<and>
         rest = [EvLog Info ''launderer is done''] \<and> r = None)"
      unfolding runs_washingCycle [OF cycle_reached [OF Some],
        where P = "\<lambda>e. if e \<noteq> None then _ \<and> r = e else _ \<and> r = None"] by simp
    finally show ?thesis by auto
  qed
  have "runs (wash item st) es r \<longleftrightarrow>
    (\<exists>e es'. es = EvConsumeItem Soap (soap cfg) (Some e) # es' \<and> es' = [] \<and> r = Some e) \<or>
    (\<exists>es'. es = EvConsumeItem Soap (soap cfg) None # es' \<and>
       (\<exists>cyc. es' = cyc @ [EvLog Info ''launderer is done''] \<and>
         cycle_run (st + cycleDurationInHours cfg * Hour) cyc \<and> r = None))"
    unfolding cycle [symmetric]
    by (auto simp: wash_def Some consumeItem_def split: if_splits)
  with Some show ?thesis by (auto simp: wash_run_def)
qed

lemma cycle_run_quiet:
  assumes "cycle_run due es"
  shows "consumes es = [] \<and> updates es = [] \<and> washes es = [] \<and> logged es = [] \<and>
     (\<exists>c. EvMakeTimeChan c \<in> set es \<and> registrations es = [(True, timeEventHourChange, c), (False, timeEventHourChange, c)])"
proof -
  have "(\<forall>e \<in> set pre. \<exists>t. e = EvHour c t \<and> t < due) \<Longrightarrow>
    consumes pre = [] \<and> updates pre = [] \<and> washes pre = [] \<and> logged pre = [] \<and> registrations pre = []" for c pre
    by (induction pre) auto
  with assms show ?thesis by (fastforce simp: cycle_run_def)
qed

lemma wash_run_effect:
  assumes "wash_run item st es r"
  shows "updates es = [] \<and> washes es = [] \<and>
    (case washTable item of
       None \<Rightarrow> consumes es = [] \<and> registrations es = [] \<and> logged es = []
     | Some cfg \<Rightarrow> consumes es = [(Soap, soap cfg, r)] \<and>
         (if r = None
          then logged es = [(Info, ''launderer is done'')] \<and>
            (\<exists>c. EvMakeTimeChan c \<in> set es \<and> registrations es = [(True, timeEventHourChange, c), (False, timeEventHourChange, c)])
          else logged es = [] \<and> registrations es = []))"
  using assms by (auto simp: wash_run_def split: option.splits dest!: cycle_run_quiet)

text \<open>The runs of the handler once the clock has answered.\<close>

definition second_wash_run :: "string \<Rightarrow> time \<Rightarrow> string \<Rightarrow> event list \<Rightarrow> bool" where
  "second_wash_run item st i es \<longleftrightarrow>
     (\<exists>e'. es = [EvRestockItem i stockReplenishmentQuantity (Some e'), EvLog Error ''failed to restock item'']) \<or>
     (\<exists>es'. es = EvRestockItem i stockReplenishmentQuantity None # es' \<and>
        (wash_run item st es' None \<or>
         (\<exists>e es1. wash_run item st es1 (Some e) \<and>
            es' = es1 @ [EvLog Error ''failed to wash item after restock''])))"

definition launderer_run :: "string \<Rightarrow> time \<Rightarrow> event list \<Rightarrow> bool" where
  "launderer_run item st es \<longleftrightarrow>
     wash_run item st es None \<or>
     (\<exists>e es1. wash_run item st es1 (Some e) \<and> errors_As_stock e = None \<and>
        es = es1 @ [EvLog Error ''failed to wash item'']) \<or>
     (\<exists>e es1 s es2. wash_run item st es1 (Some e) \<and> errors_As_stock e = Some s \<and>
        es = es1 @ EvLog Warn ''insufficient stock to wash item, requesting restock'' # es2 \<and>
        second_wash_run item st (ItemName s) es2)"

text \<open>What the handler does with the result of the first wash.\<close>

definition after_wash :: "(string \<Rightarrow> go_error option prog) \<Rightarrow> string \<Rightarrow> time \<Rightarrow> go_error option \<Rightarrow> unit prog" where
  "after_wash stocker item st err =
     (case err of
        None \<Rightarrow> skip
      | Some err \<Rightarrow>
          (case errors_As_stock err of
             None \<Rightarrow> log Error ''failed to wash item''
           | Some stockErr \<Rightarrow>
               thenp (log Warn ''insufficient stock to wash item, requesting restock'')
                (bindp (stocker (ItemName stockErr)) (\<lambda>restockErr.
                   if restockErr \<noteq> None then log Error ''failed to restock item''
                   else bindp (wash item st) (\<lambda>err.
                          if err \<noteq> None then log Error ''failed to wash item after restock'' else skip)))))"

lemma launderer_work_after:
  "launderer_work stocker n request =
     bindp now (\<lambda>r. case r of
       Inl err \<Rightarrow> log Error ''failed to get current time''
     | Inr st \<Rightarrow> thenp (log Info ''launderer started to workFn on washing request'')
         (bindp (wash (Item request) st) (after_wash stocker (Item request) st)))"
  unfolding launderer_work_def after_wash_def [abs_def] ..


lemma runs_wash_again:
  "runs (bindp (wash item st) (\<lambda>err. if err \<noteq> None then log Error m else skip)) es u \<longleftrightarrow>
     wash_run item st es None \<or> (\<exists>e es4. wash_run item st es4 (Some e) \<and> es = es4 @ [EvLog Error m])"
  unfolding runs_bindp runs_wash by (auto simp: command_defs split: if_splits)


lemma runs_after_wash:
  "runs (after_wash wired item st None) es u \<longleftrightarrow> es = []"
  "errors_As_stock e = None \<Longrightarrow>
     runs (after_wash wired item st (Some e)) es u \<longleftrightarrow> es = [EvLog Error ''failed to wash item'']"
  "errors_As_stock e = Some s \<Longrightarrow>
     runs (after_wash wired item st (Some e)) es u \<longleftrightarrow>
     (\<exists>es2. es = EvLog Warn ''insufficient stock to wash item, requesting restock'' # es2 \<and>
        second_wash_run item st (ItemName s) es2)"
    apply (simp_all add: after_wash_def log_def skip_def)[2]
  unfolding after_wash_def second_wash_run_def
  by (simp only: option.case runs_restock_then runs_wash_again)

lemma runs_timed_start:
  assumes "\<And>st es. runs (p st) es u \<longleftrightarrow> R st es"
  shows "runs (bindp now (\<lambda>r. case r of Inl err \<Rightarrow> log Error m0 | Inr st \<Rightarrow> thenp (log Info m1) (p st))) es u \<longleftrightarrow>
     (\<exists>e. es = [EvNow (Inl e), EvLog Error m0]) \<or>
     (\<exists>st es'. es = EvNow (Inr st) # EvLog Info m1 # es' \<and> R st es')"
  using assms by (simp add: now_def split_sum_ex log_def thenp_def) blast

lemma runs_launderer_work:
  "runs (launderer_work wired n request) es u \<longleftrightarrow>
     (\<exists>e. es = [EvNow (Inl e), EvLog Error ''failed to get current time'']) \<or>
     (\<exists>st es'. es = EvNow (Inr st) # EvLog Info ''launderer started to workFn on washing request'' # es' \<and>
        launderer_run (Item request) st es')"
proof -
  have "runs (bindp (wash item st) (after_wash wired item st)) es u \<longleftrightarrow> launderer_run item st es" for item st es
  proof -
    have "runs (bindp (wash item st) (after_wash wired item st)) es u \<longleftrightarrow>
      wash_run item st es None \<or>
      (\<exists>e es1 es2. es = es1 @ es2 \<and> wash_run item st es1 (Some e) \<and>
         runs (after_wash wired item st (Some e)) es2 u)"
      unfolding runs_bindp runs_wash ex_error runs_after_wash(1) by auto
    also have "\<dots> \<longleftrightarrow> launderer_run item st es"
    proof -
      have "(\<exists>es2. es = es1 @ es2 \<and> runs (after_wash wired item st (Some e)) es2 u) \<longleftrightarrow>
        errors_As_stock e = None \<and> es = es1 @ [EvLog Error ''failed to wash item''] \<or>
        (\<exists>s es2. errors_As_stock e = Some s \<and>
          es = es1 @ EvLog Warn ''insufficient stock to wash item, requesting restock'' # es2 \<and>
          second_wash_run item st (ItemName s) es2)" for e es1
        by (cases "errors_As_stock e") (auto simp: runs_after_wash)
      then have "(\<exists>e es1 es2. es = es1 @ es2 \<and> wash_run item st es1 (Some e) \<and>
          runs (after_wash wired item st (Some e)) es2 u) \<longleftrightarrow>
        (\<exists>e es1. wash_run item st es1 (Some e) \<and>
          (errors_As_stock e = None \<and> es = es1 @ [EvLog Error ''failed to wash item''] \<or>
           (\<exists>s es2. errors_As_stock e = Some s \<and>
             es = es1 @ EvLog Warn ''insufficient stock to wash item, requesting restock'' # es2 \<and>
             second_wash_run item st (ItemName s) es2)))"
        by (simp only: ex_and_right)
      then show ?thesis
        by (simp only: launderer_run_def conj_disj_distribL ex_disj_distrib ex_simps)
    qed
    finally show ?thesis .
  qed
  then show ?thesis
    unfolding launderer_work_after by (rule runs_timed_start)
qed

subsection \<open>What a run does\<close>

lemma second_wash_run_effect:
  assumes "second_wash_run item st i es"
  shows "updates es = [] \<and> washes es = [] \<and>
     (registrations es = [] \<or>
      (\<exists>c. EvMakeTimeChan c \<in> set es \<and> registrations es = [(True, timeEventHourChange, c), (False, timeEventHourChange, c)])) \<and>
     (case washTable item of
        None \<Rightarrow> consumes es = []
      | Some cfg \<Rightarrow> consumes es = [] \<or> (\<exists>r. consumes es = [(Soap, soap cfg, r)]))"
  using assms unfolding second_wash_run_def
  by (auto dest!: wash_run_effect split: option.splits)

lemma launderer_run_effect:
  assumes "launderer_run item st es"
  shows "updates es = [] \<and> washes es = [] \<and>
     (registrations es = [] \<or>
      (\<exists>c. EvMakeTimeChan c \<in> set es \<and> registrations es = [(True, timeEventHourChange, c), (False, timeEventHourChange, c)])) \<and>
     (case washTable item of
        None \<Rightarrow> consumes es = []
      | Some cfg \<Rightarrow> take_block (Soap, soap cfg) (consumes es))"
proof -
  from assms consider
      (first) "wash_run item st es None"
    | (failed) e es1 m where "wash_run item st es1 (Some e)" "es = es1 @ [EvLog Error m]"
    | (second) e es1 m i es2 where "wash_run item st es1 (Some e)" "errors_As_stock e \<noteq> None"
        "es = es1 @ EvLog Warn m # es2" "second_wash_run item st i es2"
    unfolding launderer_run_def by blast
  then show ?thesis
  proof cases
    case first
    then show ?thesis
      by (auto dest!: wash_run_effect simp: take_block_def split: option.splits)
  next
    case failed
    then show ?thesis
      by (auto dest!: wash_run_effect simp: take_block_def split: option.splits)
  next
    case second
    with wash_run_effect [OF second(1)] second_wash_run_effect [OF second(4)] show ?thesis
      by (auto simp: take_block_def split: option.splits)
  qed
qed

text \<open>A wash is reported done after its soap was taken and one cycle went by, and not otherwise.\<close>

lemma wash_run_done:
  assumes "wash_run item st es r"
  shows "(Info, ''launderer is done'') \<in> set (logged es) \<longleftrightarrow> r = None"
proof (cases "washTable item")
  case None
  with wash_run_effect [OF assms] assms show ?thesis by (auto simp: wash_run_def)
next
  case (Some cfg)
  with wash_run_effect [OF assms] show ?thesis by (auto split: if_splits)
qed

lemma wash_run_None:
  "wash_run item st es None \<Longrightarrow>
     \<exists>cfg cyc. washTable item = Some cfg \<and> cycle_run (st + cycleDurationInHours cfg * Hour) cyc \<and>
       es = EvConsumeItem Soap (soap cfg) None # cyc @ [EvLog Info ''launderer is done'']"
  by (auto simp: wash_run_def split: option.splits)

lemma launderer_run_done:
  assumes r: "launderer_run item st es" and d: "(Info, ''launderer is done'') \<in> set (logged es)"
  shows "\<exists>pre es1. es = pre @ es1 \<and> wash_run item st es1 None"
proof -
  from r consider
      (first) "wash_run item st es None"
    | (failed) e es1 m where "wash_run item st es1 (Some e)" "es = es1 @ [EvLog Error m]"
    | (second) e es1 m i es2 where "wash_run item st es1 (Some e)"
        "es = es1 @ EvLog Warn m # es2" "second_wash_run item st i es2"
    unfolding launderer_run_def by blast
  then show ?thesis
  proof cases
    case first
    then show ?thesis by (intro exI [of _ "[]"] exI [of _ es]) simp
  next
    case failed
    with wash_run_done [OF failed(1)] d show ?thesis by simp
  next
    case second
    with wash_run_done [OF second(1)] d have d2: "(Info, ''launderer is done'') \<in> set (logged es2)" by simp
    from second(3) consider (no) e' m' where "es2 = [EvRestockItem i stockReplenishmentQuantity (Some e'), EvLog Error m']"
      | (yes) es' where "es2 = [EvRestockItem i stockReplenishmentQuantity None] @ es'" "wash_run item st es' None"
      | (again) e' m' es3 where "es2 = EvRestockItem i stockReplenishmentQuantity None # es3 @ [EvLog Error m']"
          "wash_run item st es3 (Some e')"
      unfolding second_wash_run_def append.simps by blast
    then show ?thesis
    proof cases
      case no
      with d2 show ?thesis by simp
    next
      case yes
      with second(2) have "es = (es1 @ [EvLog Warn m, EvRestockItem i stockReplenishmentQuantity None]) @ es'"
        by simp
      with yes show ?thesis by blast
    next
      case again
      with wash_run_done [OF again(2)] d2 show ?thesis by simp
    qed
  qed
qed

subsection \<open>A run without interference\<close>

text \<open>A stock repository and a clock that leaves it alone.\<close>

locale clocked_stock =
  stock_ports P qty inv up
  for P :: "'w ports" and qty :: "'w \<Rightarrow> string \<Rightarrow> int option" and inv :: "'w \<Rightarrow> bool" and up :: "'w \<Rightarrow> bool" +
  assumes now_level: "inv w \<Longrightarrow> p_now P w = (r, w') \<Longrightarrow>
      inv w' \<and> qty w' = qty w \<and> (up w \<longrightarrow> up w' \<and> \<not> isl r)"

sublocale housekeeper_ports \<subseteq> clocked: clocked_stock P qty inv up
  by unfold_locales (use now_frame in blast)

text \<open>The hour change that ends a cycle, if one arrives.\<close>

fun ends_cycle :: "time \<Rightarrow> time option list \<Rightarrow> (time option \<times> time option list) option" where
  "ends_cycle due [] = None"
| "ends_cycle due (None # ts) = Some (None, None # ts)"
| "ends_cycle due (Some t # ts) = (if due \<le> t then Some (Some t, ts) else ends_cycle due ts)"

lemma await_ends_cycle:
  assumes "\<And>t. Hours_at_least (Sub t st) h \<longleftrightarrow> due \<le> t"
  shows "await st h ts = map_option (\<lambda>(t, ts). (case t of None \<Rightarrow> zeroTime | Some t \<Rightarrow> t, ts)) (ends_cycle due ts)"
proof (induction ts)
  case (Cons t ts)
  then show ?case by (cases t) (simp_all add: assms)
qed simp

lemma exec_washingCycle:
  assumes "washTable i = Some cfg" "(timeEventHourChange, nextChan s) \<notin> set (registered s)"
  shows "exec P cap (washingCycle st (cycleDurationInHours cfg)) s =
    (case ends_cycle (st + cycleDurationInHours cfg * Hour) (arrivals s) of
       None \<Rightarrow> None
     | Some (t, ts) \<Rightarrow> Some ((case t of None \<Rightarrow> zeroTime | Some t \<Rightarrow> t, None),
         s\<lparr>nextChan := Suc (nextChan s), arrivals := ts\<rparr>))"
proof -
  have "s\<lparr>nextChan := Suc (nextChan s), registered := registered s\<rparr> = s\<lparr>nextChan := Suc (nextChan s)\<rparr>" by simp
  with assms(2) show ?thesis
    by (auto simp: washingCycle_def await_ends_cycle [OF cycle_reached [OF assms(1)]] split: option.splits)
qed

context clocked_stock
begin

lemma exec_wash:
  assumes s: "inv (outer s)" "up (outer s)" "(timeEventHourChange, nextChan s) \<notin> set (registered s)"
    and cfg: "washTable i = Some cfg" and n: "qty (outer s) Soap = Some n" "soap cfg \<le> n"
  shows "exec P cap (wash i st) s = None \<longleftrightarrow>
      ends_cycle (st + cycleDurationInHours cfg * Hour) (arrivals s) = None"
    and "ends_cycle (st + cycleDurationInHours cfg * Hour) (arrivals s) = Some (t, ts) \<Longrightarrow>
      \<exists>s'. exec P cap (wash i st) s = Some (None, s') \<and> inv (outer s') \<and> up (outer s') \<and>
        qty (outer s') = (qty (outer s))(Soap \<mapsto> n - soap cfg) \<and> registered s' = registered s \<and>
        arrivals s' = ts \<and> laundry s' = laundry s \<and> logs s' = logs s @ [(Info, ''launderer is done'')]"
proof -
  have q: "0 < soap cfg" using cfg by (auto simp: washTable_cases)
  from consume_enough [OF s(1,2) managed_takes(5) q n] obtain w where
    w: "p_consumeItem P Soap (soap cfg) (outer s) = (None, w)"
      "qty w = (qty (outer s))(Soap \<mapsto> n - soap cfg)" "inv w" "up w" by blast
  have c: "exec P cap (wash i st) s =
    (case exec P cap (washingCycle st (cycleDurationInHours cfg)) (s\<lparr>outer := w\<rparr>) of
       None \<Rightarrow> None
     | Some ((t, err), s') \<Rightarrow> if err \<noteq> None then Some (err, s')
         else Some (None, s'\<lparr>logs := logs s' @ [(Info, ''launderer is done'')]\<rparr>))"
    using w(1) by (simp add: wash_def cfg consumeItem_def exec_bindp command_defs split: option.splits prod.splits)
  show "exec P cap (wash i st) s = None \<longleftrightarrow>
      ends_cycle (st + cycleDurationInHours cfg * Hour) (arrivals s) = None"
    unfolding c using s(3) by (simp add: exec_washingCycle [OF cfg] split: option.splits prod.splits)
  show "ends_cycle (st + cycleDurationInHours cfg * Hour) (arrivals s) = Some (t, ts) \<Longrightarrow>
      \<exists>s'. exec P cap (wash i st) s = Some (None, s') \<and> inv (outer s') \<and> up (outer s') \<and>
        qty (outer s') = (qty (outer s))(Soap \<mapsto> n - soap cfg) \<and> registered s' = registered s \<and>
        arrivals s' = ts \<and> laundry s' = laundry s \<and> logs s' = logs s @ [(Info, ''launderer is done'')]"
    unfolding c using s(3) w by (simp add: exec_washingCycle [OF cfg])
qed

text \<open>
  A supported item is washed: the launderer returns exactly if an hour change at or after the
  end of its cycle or the end of the context arrives, and then the soap is taken (after one
  replenishment, where there was too little) and no registration is left.
\<close>

lemma exec_after_restock:
  assumes s: "inv (outer s)" "up (outer s)" and cfg: "washTable i = Some cfg"
    and n: "qty (outer s) Soap = Some n" "n < soap cfg" "0 \<le> n"
  shows "\<exists>s'. exec P cap (bindp (wash i st) (after_wash wired i st)) s =
      exec P cap (bindp (wash i st) (\<lambda>err. if err \<noteq> None then log Error ''failed to wash item after restock'' else skip)) s' \<and>
    inv (outer s') \<and> up (outer s') \<and> qty (outer s') = (qty (outer s))(Soap \<mapsto> n + stockReplenishmentQuantity) \<and>
    nextChan s' = nextChan s \<and> registered s' = registered s \<and> arrivals s' = arrivals s \<and> laundry s' = laundry s"
proof -
  have q: "0 < soap cfg" using cfg by (auto simp: washTable_cases)
  from consume_short [OF s managed_takes(5) q n(1,2)] obtain e w where
    w: "p_consumeItem P Soap (soap cfg) (outer s) = (Some e, w)"
      "errors_As_stock e = Some (StockInsufficientQuantityErr Soap (soap cfg))"
      "qty w = qty (outer s)" "inv w" "up w" by blast
  define s1 where "s1 = s\<lparr>outer := w, logs := logs s @ [(Warn, ''insufficient stock to wash item, requesting restock'')]\<rparr>"
  have s1: "inv (outer s1)" "up (outer s1)" "qty (outer s1) Soap = Some n" using w n by (simp_all add: s1_def)
  from exec_ImmediateRestock [OF s1(1,2) managed_takes(5) s1(3), of cap] obtain w' where
    w': "exec P cap (wired Soap) s1 = Some (None, s1\<lparr>outer := w'\<rparr>)"
      "inv w'" "up w'" "qty w' = (qty (outer s1))(Soap \<mapsto> n + stockReplenishmentQuantity)" by blast
  have "exec P cap (wash i st) s = Some (Some e, s\<lparr>outer := w\<rparr>)"
    using w(1) by (simp add: wash_def cfg consumeItem_def)
  then have "exec P cap (bindp (wash i st) (after_wash wired i st)) s =
      exec P cap (bindp (wash i st) (\<lambda>err. if err \<noteq> None then log Error ''failed to wash item after restock'' else skip)) (s1\<lparr>outer := w'\<rparr>)"
    by (simp add: exec_bindp [of _ _ "wash i st" "after_wash wired i st"] after_wash_def w(2) thenp_def log_def exec_bindp [of _ _ "wired Soap"]
        s1_def [symmetric] w'(1))
  with w w' show ?thesis
    by (intro exI [of _ "s1\<lparr>outer := w'\<rparr>"]) (simp add: s1_def)
qed

lemma exec_wash_work:
  assumes s: "inv (outer s)" "up (outer s)" "(timeEventHourChange, nextChan s) \<notin> set (registered s)"
    and cfg: "washTable i = Some cfg" and n: "qty (outer s) Soap = Some n" "0 \<le> n"
  shows "exec P cap (bindp (wash i st) (after_wash wired i st)) s = None \<longleftrightarrow>
      ends_cycle (st + cycleDurationInHours cfg * Hour) (arrivals s) = None"
    and "ends_cycle (st + cycleDurationInHours cfg * Hour) (arrivals s) = Some (t, ts) \<Longrightarrow>
      \<exists>s'. exec P cap (bindp (wash i st) (after_wash wired i st)) s = Some ((), s') \<and>
        inv (outer s') \<and> up (outer s') \<and>
        qty (outer s') = (qty (outer s))(Soap \<mapsto> take_level n (soap cfg)) \<and>
        registered s' = registered s \<and> arrivals s' = ts \<and> laundry s' = laundry s"
proof -
  let ?K = "\<lambda>err. if err \<noteq> None then log Error ''failed to wash item after restock'' else skip"
  obtain s1 f n1 where s1: "exec P cap (bindp (wash i st) (after_wash wired i st)) s = exec P cap (bindp (wash i st) f) s1"
    "f None = skip" "inv (outer s1)" "up (outer s1)" "qty (outer s1) = (qty (outer s))(Soap \<mapsto> n1)"
    "soap cfg \<le> n1" "n1 - soap cfg = take_level n (soap cfg)"
    "nextChan s1 = nextChan s" "registered s1 = registered s" "arrivals s1 = arrivals s" "laundry s1 = laundry s"
  proof (cases "soap cfg \<le> n")
    case True
    with s n show ?thesis
      by (intro that [of "after_wash wired i st" s n])
        (simp_all add: after_wash_def take_level_def map_upd_triv)
  next
    case False
    with exec_after_restock [OF s(1,2) cfg n(1) _ n(2), of cap st] obtain s' where
      "exec P cap (bindp (wash i st) (after_wash wired i st)) s = exec P cap (bindp (wash i st) ?K) s'"
      "inv (outer s')" "up (outer s')" "qty (outer s') = (qty (outer s))(Soap \<mapsto> n + stockReplenishmentQuantity)"
      "nextChan s' = nextChan s" "registered s' = registered s" "arrivals s' = arrivals s" "laundry s' = laundry s"
      by auto
    moreover have "soap cfg \<le> n + stockReplenishmentQuantity"
      using cfg n(2) by (auto simp: washTable_cases stockReplenishmentQuantity_def)
    ultimately show ?thesis
      using False by (intro that [of ?K s' "n + stockReplenishmentQuantity"]) (simp_all add: take_level_def)
  qed
  have reg: "(timeEventHourChange, nextChan s1) \<notin> set (registered s1)" using s(3) s1 by simp
  have soap: "qty (outer s1) Soap = Some n1" using s1(5) by simp
  note w = exec_wash [OF s1(3,4) reg cfg soap s1(6), where cap = cap and st = st]
  show "exec P cap (bindp (wash i st) (after_wash wired i st)) s = None \<longleftrightarrow>
      ends_cycle (st + cycleDurationInHours cfg * Hour) (arrivals s) = None"
  proof (cases "ends_cycle (st + cycleDurationInHours cfg * Hour) (arrivals s1)")
    case None
    with w(1) show ?thesis unfolding s1(1) unfolding exec_bindp using s1(10) by simp
  next
    case (Some x)
    with w(2) [of "fst x" "snd x"] show ?thesis
      unfolding s1(1) unfolding exec_bindp using s1(2,10) by (auto simp: skip_def)
  qed
  show "ends_cycle (st + cycleDurationInHours cfg * Hour) (arrivals s) = Some (t, ts) \<Longrightarrow>
      \<exists>s'. exec P cap (bindp (wash i st) (after_wash wired i st)) s = Some ((), s') \<and>
        inv (outer s') \<and> up (outer s') \<and>
        qty (outer s') = (qty (outer s))(Soap \<mapsto> take_level n (soap cfg)) \<and>
        registered s' = registered s \<and> arrivals s' = ts \<and> laundry s' = laundry s"
    unfolding s1(1) unfolding exec_bindp using w(2) [of t ts] s1 by (auto simp: skip_def)
qed

text \<open>The whole handler. The clock says \<open>st\<close>.\<close>

lemma exec_launderer_work:
  assumes s: "inv (outer s)" "up (outer s)" "(timeEventHourChange, nextChan s) \<notin> set (registered s)"
    and cfg: "washTable (Item request) = Some cfg" and n: "qty (outer s) Soap = Some n"
    and clk: "p_now P (outer s) = (Inr st, w)"
  shows "exec P cap (launderer_work wired name request) s = None \<longleftrightarrow>
      ends_cycle (st + cycleDurationInHours cfg * Hour) (arrivals s) = None"
    and "ends_cycle (st + cycleDurationInHours cfg * Hour) (arrivals s) = Some (t, ts) \<Longrightarrow>
      \<exists>s'. exec P cap (launderer_work wired name request) s = Some ((), s') \<and>
        inv (outer s') \<and> up (outer s') \<and>
        qty (outer s') = (qty (outer s))(Soap \<mapsto> take_level n (soap cfg)) \<and>
        registered s' = registered s \<and> arrivals s' = ts \<and> laundry s' = laundry s"
proof -
  define s1 where "s1 = s\<lparr>outer := w, logs := logs s @ [(Info, ''launderer started to workFn on washing request'')]\<rparr>"
  have w: "inv w" "up w" "qty w = qty (outer s)" using now_level [OF s(1) clk] s(2) by auto
  have n0: "0 \<le> n" using qty_managed [OF s(1) managed_takes(5)] n by auto
  have e: "exec P cap (launderer_work wired name request) s =
      exec P cap (bindp (wash (Item request) st) (after_wash wired (Item request) st)) s1"
    by (simp add: launderer_work_after now_def clk thenp_def log_def s1_def)
  have s1: "inv (outer s1)" "up (outer s1)" "(timeEventHourChange, nextChan s1) \<notin> set (registered s1)"
    "qty (outer s1) Soap = Some n" using w n s(3) by (simp_all add: s1_def)
  note work = exec_wash_work [OF s1(1-3) cfg s1(4) n0, where cap = cap and st = st]
  show "exec P cap (launderer_work wired name request) s = None \<longleftrightarrow>
      ends_cycle (st + cycleDurationInHours cfg * Hour) (arrivals s) = None"
    unfolding e work(1) by (simp add: s1_def)
  show "ends_cycle (st + cycleDurationInHours cfg * Hour) (arrivals s) = Some (t, ts) \<Longrightarrow>
      \<exists>s'. exec P cap (launderer_work wired name request) s = Some ((), s') \<and>
        inv (outer s') \<and> up (outer s') \<and>
        qty (outer s') = (qty (outer s))(Soap \<mapsto> take_level n (soap cfg)) \<and>
        registered s' = registered s \<and> arrivals s' = ts \<and> laundry s' = laundry s"
    unfolding e using work(2) [of t ts] w(3) by (simp add: s1_def)
qed

end

subsection \<open>Properties\<close>

lemma launderer_effect:
  assumes "runs (launderer_work wired n request) es u"
  shows "updates es = [] \<and> washes es = [] \<and>
     (registrations es = [] \<or>
      (\<exists>c. EvMakeTimeChan c \<in> set es \<and> registrations es = [(True, timeEventHourChange, c), (False, timeEventHourChange, c)])) \<and>
     (case washTable (Item request) of
        None \<Rightarrow> consumes es = []
      | Some cfg \<Rightarrow> consumes es = [] \<or> take_block (Soap, soap cfg) (consumes es))"
proof -
  from assms consider e m where "es = [EvNow (Inl e), EvLog Error m]"
    | st m es' where "es = EvNow (Inr st) # EvLog Info m # es'" "launderer_run (Item request) st es'"
    unfolding runs_launderer_work by blast
  then show ?thesis
  proof cases
    case 2
    with launderer_run_effect [OF 2(2)] show ?thesis by (auto split: option.splits)
  qed (auto split: option.splits)
qed

lemma launderer_registrations:
  assumes "runs (launderer_work wired n request) es u"
  shows "registrations es = [] \<or>
      (\<exists>c. EvMakeTimeChan c \<in> set es \<and>
         registrations es = [(True, timeEventHourChange, c), (False, timeEventHourChange, c)])"
  using launderer_effect [OF assms] by blast


definition example_towels :: WashRequest where
  "example_towels = \<lparr>WashRoomName = ''oak'', Item = ''towels''\<rparr>"

text \<open>A wash that starts at 0, passes over an early hour change and ends with one at one hour.\<close>

definition example_wash_run :: "event list" where
  "example_wash_run =
     [EvNow (Inr 0), EvLog Info ''launderer started to workFn on washing request'',
      EvConsumeItem Soap 10 None, EvMakeTimeChan 7, EvRegister timeEventHourChange 7,
      EvHour 7 5, EvHour 7 Hour, EvUnregister timeEventHourChange 7, EvLog Info ''launderer is done'']"

lemma towels_cfg: "washTable (Item example_towels) = Some \<lparr>soap = 10, cycleDurationInHours = 1\<rparr>"
  by (simp add: washTable_cases example_towels_def)

lemma example_wash_runs: "runs (launderer_work wired ''liz'' example_towels) example_wash_run ()"
proof -
  have "cycle_run Hour [EvMakeTimeChan 7, EvRegister timeEventHourChange 7, EvHour 7 5, EvHour 7 Hour,
      EvUnregister timeEventHourChange 7]"
    unfolding cycle_run_def
    by (intro exI [of _ 7] exI [of _ "[EvHour 7 5]"] exI [of _ "EvHour 7 Hour"]) (simp add: Hour_def)
  then have "wash_run (Item example_towels) 0 (drop 2 example_wash_run) None"
    unfolding wash_run_def towels_cfg option.case
    by (intro disjI2 exI [of _ "[EvMakeTimeChan 7, EvRegister timeEventHourChange 7, EvHour 7 5, EvHour 7 Hour,
      EvUnregister timeEventHourChange 7]"]) (simp add: example_wash_run_def)
  then have "launderer_run (Item example_towels) 0 (drop 2 example_wash_run)" by (simp add: launderer_run_def)
  then show ?thesis
    unfolding runs_launderer_work by (intro disjI2 exI [of _ 0] exI [of _ "drop 2 example_wash_run"])
      (simp add: example_wash_run_def)
qed


text \<open>C34: a wash is reported done only after its soap was taken and, from then on, one full cycle
  went by, counted from the launderer's start (also when soap had to be restocked in between): hour
  changes before the due instant are passed over, and the wait ends with the first one at or
  after it, or with the end of the context.\<close>

theorem done_after_full_cycle:
  assumes "runs (launderer_work wired n request) es u" "(Info, ''launderer is done'') \<in> set (logged es)"
  shows "\<exists>st cfg pre cyc. washTable (Item request) = Some cfg \<and> hd es = EvNow (Inr st) \<and>
    es = pre @ EvConsumeItem Soap (soap cfg) None # cyc @ [EvLog Info ''launderer is done''] \<and>
    cycle_run (st + cycleDurationInHours cfg * Hour) cyc"
proof -
  from assms obtain st m es' where es: "es = EvNow (Inr st) # EvLog Info m # es'"
    and r: "launderer_run (Item request) st es'" and m: "m = ''launderer started to workFn on washing request''"
    unfolding runs_launderer_work by auto
  have "(Info, ''launderer is done'') \<in> set (logged es')" using assms(2) m by (simp add: es)
  from launderer_run_done [OF r this] obtain pre es1 where "es' = pre @ es1" "wash_run (Item request) st es1 None" by blast
  with wash_run_None [OF this(2)] obtain cfg cyc where c: "washTable (Item request) = Some cfg"
    "cycle_run (st + cycleDurationInHours cfg * Hour) cyc"
    "es' = pre @ EvConsumeItem Soap (soap cfg) None # cyc @ [EvLog Info ''launderer is done'']" by blast
  then have "es = (EvNow (Inr st) # EvLog Info m # pre) @ EvConsumeItem Soap (soap cfg) None # cyc @
      [EvLog Info ''launderer is done'']" by (simp add: es)
  moreover have "hd es = EvNow (Inr st)" by (simp add: es)
  ultimately show ?thesis using c(1,2) by blast
qed

theorem done_after_full_cycle_witness:
  "\<exists>st pre cyc. hd example_wash_run = EvNow (Inr st) \<and>
     example_wash_run = pre @ EvConsumeItem Soap 10 None # cyc @ [EvLog Info ''launderer is done''] \<and>
     cycle_run (st + Hour) cyc"
proof -
  have "(Info, ''launderer is done'') \<in> set (logged example_wash_run)" by (simp add: example_wash_run_def)
  from done_after_full_cycle [OF example_wash_runs this] towels_cfg show ?thesis by auto
qed

text \<open>A wash whose wait is cut short by the end of the context is reported done all the same: the
  bare return of \<open>washingCycle\<close> gives a nil error.\<close>

theorem cancelled_wash_reported_done:
  "\<exists>es. runs (launderer_work wired n \<lparr>WashRoomName = room, Item = ''linens''\<rparr>) es () \<and>
     (\<forall>c t. EvHour c t \<notin> set es) \<and> EvCtxDone \<in> set es \<and> (Info, ''launderer is done'') \<in> set (logged es)"
proof -
  let ?cyc = "[EvMakeTimeChan 0, EvRegister timeEventHourChange 0, EvCtxDone, EvUnregister timeEventHourChange 0]"
  have cfg: "washTable ''linens'' = Some \<lparr>soap = 20, cycleDurationInHours = 2\<rparr>" by (simp add: washTable_cases)
  have "cycle_run (2 * Hour) ?cyc" by (auto simp: cycle_run_def intro!: exI [of _ "[]"])
  then have "launderer_run ''linens'' 0 (EvConsumeItem Soap 20 None # ?cyc @ [EvLog Info ''launderer is done''])"
    unfolding launderer_run_def wash_run_def cfg option.case
    by (intro disjI1 disjI2 exI [of _ ?cyc]) simp
  then have "runs (launderer_work wired n \<lparr>WashRoomName = room, Item = ''linens''\<rparr>)
      (EvNow (Inr 0) # EvLog Info ''launderer started to workFn on washing request'' #
       EvConsumeItem Soap 20 None # ?cyc @ [EvLog Info ''launderer is done'']) ()"
    unfolding runs_launderer_work by simp
  then show ?thesis by (rule exI [where P = "\<lambda>es. _ es \<and> _ es", OF conjI]) simp
qed

end
