(* ===== verification/Messages.thy ===== *)
theory Messages
  imports Domain
begin

text \<open>
  The messages of \<^verbatim>\<open>internal/domain/dto\<close> and the two functions of \<^verbatim>\<open>internal/app/utils.go\<close>
  that read them. The protobuf runtime is not part of the repository: \<open>proto.Unmarshal\<close> for
  the two messages and \<open>EnumStringOf\<close> are the parameter \<open>proto\<close>; of the latter the code relies
  on what \<open>enum_contract\<close> says.
\<close>

record Timestamp =
  Seconds :: int
  Nanos :: int

text \<open>\<open>AsTime\<close> is \<open>time.Unix(seconds, nanos).UTC()\<close>; a nil message reads as zero.\<close>

definition AsTime :: "Timestamp option \<Rightarrow> time" where
  "AsTime x = (case x of None \<Rightarrow> 0 | Some x \<Rightarrow> Seconds x * 10 ^ 9 + Nanos x)"

record dto_CleaningRequest =
  RoomName_dto :: string
  Request_dto :: int

definition RequestType_UNSPECIFIED :: int where
  "RequestType_UNSPECIFIED = 0"

definition RequestType_name :: "int \<rightharpoonup> string" where
  "RequestType_name =
     [0 \<mapsto> ''UNSPECIFIED'', 1 \<mapsto> ''PREPARE_FOR_GUEST'', 2 \<mapsto> ''DAILY_CLEANING'',
      3 \<mapsto> ''FULL_CLEANING'', 4 \<mapsto> ''PREPARE_FOR_SLEEP'']"

record proto =
  UnmarshalTimeEvent :: "string \<Rightarrow> go_error + Timestamp option"
  UnmarshalCleaning :: "string \<Rightarrow> go_error + dto_CleaningRequest"
  EnumStringOf :: "(int \<rightharpoonup> string) \<Rightarrow> int \<Rightarrow> string"

text \<open>A declared number has its declared name, any other its decimal digits.\<close>

definition enum_contract :: "proto \<Rightarrow> bool" where
  "enum_contract pb \<longleftrightarrow>
     (\<forall>names n. EnumStringOf pb names n = (case names n of Some s \<Rightarrow> s | None \<Rightarrow> show_int n))"

definition RequestType_String :: "proto \<Rightarrow> int \<Rightarrow> string" where
  "RequestType_String pb n = EnumStringOf pb RequestType_name n"

text \<open>A log record: its level and message.\<close>

type_synonym log_line = "level \<times> string"

definition unmarshalTimeEvent :: "proto \<Rightarrow> string \<Rightarrow> (go_error + time) \<times> log_line list" where
  "unmarshalTimeEvent pb body =
     (case UnmarshalTimeEvent pb body of
        Inl err \<Rightarrow> (Inl err, [(Warn, ''invalid day.changed payload'')])
      | Inr tm \<Rightarrow>
          (case outcome_error (Validate (NotZeroValue ''time''
                  (if tm = None then ZeroOfType else NonZero) New)) of
             Some err \<Rightarrow> (Inl err, [])
           | None \<Rightarrow> (Inr (AsTime tm), [])))"

definition UnmarshalCleaningRequest :: "proto \<Rightarrow> string \<Rightarrow> (go_error + CleaningRequest) \<times> log_line list" where
  "UnmarshalCleaningRequest pb body =
     (case UnmarshalCleaning pb body of
        Inl err \<Rightarrow> (Inl err, [(Error, ''failed to unmarshalCleaningRequest cleaning request'')])
      | Inr msg \<Rightarrow>
          (case outcome_error (Validate (NotBlank ''roomName'' (RoomName_dto msg) New)) of
             Some err \<Rightarrow> (Inl err, [])
           | None \<Rightarrow>
               if Request_dto msg = RequestType_UNSPECIFIED
               then (Inl (ErrValidationConstrain ''request'' ''must not be unspecified''), [])
               else (Inr \<lparr>RoomName = RoomName_dto msg,
                          RequestType = RequestType_String pb (Request_dto msg)\<rparr>, [])))"

lemma unmarshalTimeEvent_cases:
  "fst (unmarshalTimeEvent pb body) =
     (case UnmarshalTimeEvent pb body of
        Inl err \<Rightarrow> Inl err
      | Inr None \<Rightarrow> Inl (ErrValidationConstrain ''time'' ''must not be zero value'')
      | Inr (Some x) \<Rightarrow> Inr (Seconds x * 10 ^ 9 + Nanos x))"
  by (simp add: unmarshalTimeEvent_def NotZeroValue_def outcome_error_def AsTime_def split: sum.splits option.splits)

lemma UnmarshalCleaningRequest_ok:
  "fst (UnmarshalCleaningRequest pb body) = Inr r \<longleftrightarrow>
     (\<exists>msg. UnmarshalCleaning pb body = Inr msg \<and> \<not> blank (RoomName_dto msg) \<and> Request_dto msg \<noteq> 0 \<and>
        r = \<lparr>RoomName = RoomName_dto msg, RequestType = RequestType_String pb (Request_dto msg)\<rparr>)"
  by (auto simp: UnmarshalCleaningRequest_def NotBlank_def outcome_error_def RequestType_UNSPECIFIED_def
      TrimSpace_empty_iff split: sum.splits)

text \<open>The decimal digits of a number are none of the names.\<close>

lemma show_nat_digits: "c \<in> set (show_nat n) \<Longrightarrow> \<exists>d < 10. c = digit_char d"
proof (induction n rule: less_induct)
  case (less n)
  show ?case
  proof (cases "n < 10")
    case True
    with less.prems show ?thesis by (auto simp: show_nat.simps [of n])
  next
    case False
    with less.prems consider "c \<in> set (show_nat (n div 10))" | "c = digit_char (n mod 10)"
      by (auto simp: show_nat.simps [of n])
    then show ?thesis
    proof cases
      case 1
      with less.IH [of "n div 10"] False show ?thesis by simp
    next
      case 2
      then show ?thesis by (intro exI [of _ "n mod 10"]) simp
    qed
  qed
qed

lemma digit_char_between: "d < 10 \<Longrightarrow> between (CHR ''0'') (CHR ''9'') (digit_char d)"
  by (simp add: between_def digit_char_def)

lemma show_int_chars: "c \<in> set (show_int i) \<Longrightarrow> c = CHR ''-'' \<or> between (CHR ''0'') (CHR ''9'') c"
  using show_nat_digits digit_char_between by (fastforce simp: show_int_def split: if_splits)

subsection \<open>Properties\<close>

text \<open>A cleaning message is accepted exactly if it decodes, names a room that is not only white
  space and a request number other than 0 (declared or not); its fields are carried over. A time
  message is accepted exactly if it decodes and has a timestamp, whatever its value.\<close>

theorem accepted_messages:
  "(fst (UnmarshalCleaningRequest pb body) = Inr r) =
     (\<exists>msg. UnmarshalCleaning pb body = Inr msg \<and> \<not> blank (RoomName_dto msg) \<and> Request_dto msg \<noteq> 0 \<and>
        r = \<lparr>RoomName = RoomName_dto msg, RequestType = RequestType_String pb (Request_dto msg)\<rparr>) \<and>
   (fst (unmarshalTimeEvent pb body) = Inr t) =
     (\<exists>x. UnmarshalTimeEvent pb body = Inr (Some x) \<and> t = Seconds x * 10 ^ 9 + Nanos x)"
  by (auto simp: UnmarshalCleaningRequest_ok unmarshalTimeEvent_cases split: sum.splits option.splits)

text \<open>A runtime for the witnesses: the first byte of a body is the request number, the rest the room;
  a time event is one byte of seconds.\<close>

definition example_proto :: proto where
  "example_proto =
     \<lparr>UnmarshalTimeEvent = (\<lambda>b. case b of [] \<Rightarrow> Inr None | [c] \<Rightarrow> Inr (Some \<lparr>Seconds = of_char c, Nanos = 0\<rparr>)
         | _ \<Rightarrow> Inl (ErrorString ''proto: cannot parse'')),
      UnmarshalCleaning = (\<lambda>b. case b of [] \<Rightarrow> Inl (ErrorString ''proto: cannot parse'')
         | c # room \<Rightarrow> Inr \<lparr>RoomName_dto = room, Request_dto = of_char c\<rparr>),
      EnumStringOf = (\<lambda>names n. case names n of Some s \<Rightarrow> s | None \<Rightarrow> show_int n)\<rparr>"

lemma example_proto_enum: "enum_contract example_proto"
  by (simp add: enum_contract_def example_proto_def)

end
