(* ===== verification/App_Storage.thy ===== *)
theory App_Storage
  imports Cottage_Repo Launderer_Service Messages
begin

text \<open>
  The ports the service is wired with: the two repositories of \<^verbatim>\<open>internal/infra/mdb\<close> and the
  clock of \<^verbatim>\<open>internal/infra/clock/clock_client.go\<close>, over a world that holds the stock
  collection, the cottage collection and the clock service. Here the laws the employee services
  rely on are discharged for the repositories as written.
\<close>

subsection \<open>The clock client\<close>

text \<open>The generated gRPC stub is the parameter \<open>rpc\<close>; its reply carries the message field \<open>Time\<close>,
  which may be missing.\<close>

definition clock_Now :: "('k \<Rightarrow> (go_error + Timestamp option) \<times> 'k) \<Rightarrow> 'k \<Rightarrow> (go_error + time) \<times> 'k" where
  "clock_Now rpc k =
     (case rpc k of
        (Inl err, k') \<Rightarrow> (Inl err, k')
      | (Inr createTime, k') \<Rightarrow> (Inr (AsTime createTime), k'))"

subsection \<open>The ports\<close>

record ('s, 'c, 'k) storage =
  stockDb :: 's
  cottageDb :: 'c
  clockState :: 'k

definition on_stock :: "('s \<Rightarrow> 'r \<times> 's) \<Rightarrow> ('s, 'c, 'k) storage \<Rightarrow> 'r \<times> ('s, 'c, 'k) storage" where
  "on_stock f w = (case f (stockDb w) of (r, x) \<Rightarrow> (r, w\<lparr>stockDb := x\<rparr>))"

definition on_cottage :: "('c \<Rightarrow> 'r \<times> 'c) \<Rightarrow> ('s, 'c, 'k) storage \<Rightarrow> 'r \<times> ('s, 'c, 'k) storage" where
  "on_cottage f w = (case f (cottageDb w) of (r, x) \<Rightarrow> (r, w\<lparr>cottageDb := x\<rparr>))"

definition on_clock :: "('k \<Rightarrow> 'r \<times> 'k) \<Rightarrow> ('s, 'c, 'k) storage \<Rightarrow> 'r \<times> ('s, 'c, 'k) storage" where
  "on_clock f w = (case f (clockState w) of (r, x) \<Rightarrow> (r, w\<lparr>clockState := x\<rparr>))"

definition repo_ports ::
    "'s collection \<Rightarrow> 'c collection \<Rightarrow> ('k \<Rightarrow> (go_error + Timestamp option) \<times> 'k) \<Rightarrow>
     ('s, 'c, 'k) storage ports" where
  "repo_ports Cs Cc rpc =
     \<lparr>p_now = on_clock (clock_Now rpc),
      p_getStock = on_stock (repo_GetStock Cs),
      p_consumeItem = (\<lambda>i q. on_stock (repo_ConsumeItem Cs i q)),
      p_restockItem = (\<lambda>i q. on_stock (repo_RestockItem Cs i q)),
      p_updateCleaningStatus = (\<lambda>n v. on_cottage (repo_UpdateCleaningStatus Cc n v))\<rparr>"

lemma on_port_iff [prog_simps]:
  "on_stock f w = (r, w') \<longleftrightarrow> (\<exists>x. f (stockDb w) = (r, x) \<and> w' = w\<lparr>stockDb := x\<rparr>)"
  "on_cottage g w = (r', w') \<longleftrightarrow> (\<exists>x. g (cottageDb w) = (r', x) \<and> w' = w\<lparr>cottageDb := x\<rparr>)"
  "on_clock h w = (r'', w') \<longleftrightarrow> (\<exists>x. h (clockState w) = (r'', x) \<and> w' = w\<lparr>clockState := x\<rparr>)"
  by (auto simp: on_stock_def on_cottage_def on_clock_def split: prod.splits)

definition storage_qty :: "('s \<Rightarrow> doc list) \<Rightarrow> ('s, 'c, 'k) storage \<Rightarrow> string \<Rightarrow> int option" where
  "storage_qty scontent w = stock_qty scontent (stockDb w)"

definition storage_status :: "('c \<Rightarrow> doc list) \<Rightarrow> ('s, 'c, 'k) storage \<Rightarrow> string \<Rightarrow> string option option" where
  "storage_status ccontent w = cottage_status ccontent (cottageDb w)"

definition storage_inv :: "('s \<Rightarrow> doc list) \<Rightarrow> ('c \<Rightarrow> doc list) \<Rightarrow> ('s, 'c, 'k) storage \<Rightarrow> bool" where
  "storage_inv scontent ccontent w \<longleftrightarrow>
     one_stock scontent (stockDb w) \<and> text_status ccontent (cottageDb w)"

definition storage_up :: "('s \<Rightarrow> bool) \<Rightarrow> ('c \<Rightarrow> bool) \<Rightarrow> ('k \<Rightarrow> bool) \<Rightarrow> ('s, 'c, 'k) storage \<Rightarrow> bool" where
  "storage_up s_up c_up k_up w \<longleftrightarrow> s_up (stockDb w) \<and> c_up (cottageDb w) \<and> k_up (clockState w)"

lemmas storage_defs = storage_qty_def storage_status_def storage_inv_def storage_up_def

locale app_storage =
  s: mongo_collection Cs scontent s_up + c: mongo_collection Cc ccontent c_up
  for Cs :: "'s collection" and scontent s_up and Cc :: "'c collection" and ccontent c_up +
  fixes rpc :: "'k \<Rightarrow> (go_error + Timestamp option) \<times> 'k" and k_up :: "'k \<Rightarrow> bool"
  assumes rpc_up: "k_up k \<Longrightarrow> rpc k = (r, k') \<Longrightarrow> k_up k' \<and> \<not> isl r"

sublocale app_storage \<subseteq> hk: housekeeper_ports
  "repo_ports Cs Cc rpc" "storage_qty scontent" "storage_inv scontent ccontent" "storage_up s_up c_up k_up"
  "storage_status ccontent"
proof (unfold_locales, goal_cases)
  case (1 w i)
  then show ?case using s.repo.qty_managed unfolding storage_defs by blast
next
  case (2 w r w')
  then show ?case using s.repo.get_frame [of "stockDb w" r]
    by (auto simp: storage_defs repo_ports_def on_port_iff)
next
  case (3 w m w')
  then show ?case using s.repo.get_value [of "stockDb w" m]
    by (auto simp: storage_defs repo_ports_def on_port_iff)
next
  case (4 w i q w')
  then show ?case using s.repo.consume_ok [of "stockDb w" i q]
    by (auto simp: storage_defs repo_ports_def on_port_iff)
next
  case (5 w i q e w' s)
  then show ?case using s.repo.consume_insufficient [of "stockDb w" i q e _ s]
    by (auto simp: storage_defs repo_ports_def on_port_iff)
next
  case (6 w i q e w')
  then show ?case using s.repo.consume_error [of "stockDb w" i q e]
    by (fastforce simp: storage_defs repo_ports_def on_port_iff)
next
  case (7 w i q e w')
  then show ?case using s.repo.consume_up [of "stockDb w" i q e]
    by (auto simp: storage_defs repo_ports_def on_port_iff)
next
  case (8 w i q w')
  then show ?case using s.repo.restock_ok [of "stockDb w" i q]
    by (auto simp: storage_defs repo_ports_def on_port_iff)
next
  case (9 w i q e w')
  then show ?case using s.repo.restock_error [of "stockDb w" i q e]
    by (fastforce simp: storage_defs repo_ports_def on_port_iff)
next
  case (10 w i q)
  then show ?case using s.repo.restock_up [of "stockDb w" i q]
    by (auto simp: storage_defs repo_ports_def on_stock_def split: prod.splits)
next
  case (11 w n s w')
  then show ?case using c.crepo.update_ok [of "cottageDb w" n s]
    by (auto simp: storage_defs repo_ports_def on_port_iff)
next
  case (12 w n s e w')
  then show ?case using c.crepo.update_error [of "cottageDb w" n s e]
    by (fastforce simp: storage_defs repo_ports_def on_port_iff)
next
  case (13 w n s)
  then show ?case using c.crepo.update_up [of "cottageDb w" n s]
    by (auto simp: storage_defs repo_ports_def on_cottage_def split: prod.splits)
next
  case (14 w r w')
  then show ?case using rpc_up [of "clockState w"]
    by (fastforce simp: storage_defs repo_ports_def on_port_iff clock_Now_def split: prod.splits sum.splits)
qed (auto simp: storage_defs repo_ports_def on_port_iff)

subsection \<open>The ports on servers in memory\<close>

text \<open>A clock service that answers from a schedule.\<close>

definition mem_rpc :: "(go_error + Timestamp option) list \<Rightarrow>
    (go_error + Timestamp option) \<times> (go_error + Timestamp option) list" where
  "mem_rpc k = (case k of [] \<Rightarrow> (Inr None, []) | x # xs \<Rightarrow> (x, xs))"

definition mem_clock_up :: "(go_error + Timestamp option) list \<Rightarrow> bool" where
  "mem_clock_up k \<longleftrightarrow> list_all (\<lambda>x. \<not> isl x) k"

interpretation mem_app: app_storage mem_collection docs mem_up mem_collection docs mem_up mem_rpc mem_clock_up
  by unfold_locales (auto simp: mem_rpc_def mem_clock_up_def split: list.splits)

context app_storage
begin

lemma as_ports: "housekeeper_ports (repo_ports Cs Cc rpc) (storage_qty scontent) (storage_inv scontent ccontent)
    (storage_up s_up c_up k_up) (storage_status ccontent)"
  by unfold_locales

lemma as_clocked: "clocked_stock (repo_ports Cs Cc rpc) (storage_qty scontent) (storage_inv scontent ccontent)
    (storage_up s_up c_up k_up)"
  by unfold_locales

lemma as_stock: "stock_ports (repo_ports Cs Cc rpc) (storage_qty scontent) (storage_inv scontent ccontent)
    (storage_up s_up c_up k_up)"
  by unfold_locales

end

subsection \<open>Properties\<close>

text \<open>What the driver and the clock service document.\<close>

definition clock_contract :: "('k \<Rightarrow> (go_error + Timestamp option) \<times> 'k) \<Rightarrow> ('k \<Rightarrow> bool) \<Rightarrow> bool" where
  "clock_contract rpc k_up \<longleftrightarrow> (\<forall>k r k'. k_up k \<and> rpc k = (r, k') \<longrightarrow> k_up k' \<and> \<not> isl r)"

definition storage_contract where
  "storage_contract Cs scontent s_up Cc ccontent c_up rpc k_up \<longleftrightarrow>
     mongo_contract Cs scontent s_up \<and> mongo_contract Cc ccontent c_up \<and> clock_contract rpc k_up"

lemma storage_contract_locale:
  "storage_contract Cs scontent s_up Cc ccontent c_up rpc k_up \<Longrightarrow>
     app_storage Cs scontent s_up Cc ccontent c_up rpc k_up"
  by unfold_locales (auto simp: storage_contract_def clock_contract_def)

lemma mem_storage_contract:
  "storage_contract mem_collection docs mem_up mem_collection docs mem_up mem_rpc mem_clock_up"
  unfolding storage_contract_def clock_contract_def
  using mem_contract mem_app.rpc_up by blast

definition example_storage :: "(memory, memory, (go_error + Timestamp option) list) storage" where
  "example_storage = \<lparr>stockDb = stock_server example_quantities [], cottageDb = example_cottages [], clockState = []\<rparr>"

definition example_solo :: "time option list \<Rightarrow> (memory, memory, (go_error + Timestamp option) list) storage solo" where
  "example_solo ts = \<lparr>outer = example_storage, laundry = [], nextChan = 0, registered = [], arrivals = ts, logs = []\<rparr>"

lemma example_storage_ok:
  "storage_inv docs docs (outer (example_solo ts))" "storage_up mem_up mem_up mem_clock_up (outer (example_solo ts))"
  using example_ok example_cottages_ok
  by (simp_all add: example_solo_def example_storage_def storage_defs mem_up_def mem_clock_up_def
      stock_server_def example_cottages_def)

text \<open>C3: against the repositories on healthy servers, a cleaning request carried out alone for a
  cottage that exists returns and does what its plan says: the stock has lost each item taken (after
  one replenishment where it held too little), the cottage has the plan's status, and the
  laundry of the plan waits in the channel, if there was room for it.\<close>

theorem cleaning_outcome:
  assumes "storage_contract Cs scontent s_up Cc ccontent c_up rpc k_up"
    and "storage_inv scontent ccontent (outer s)" "storage_up s_up c_up k_up (outer s)"
    and "plan_of (RequestType request) = Some pl" "TrimSpace (RoomName request) \<noteq> ''''"
    and "storage_status ccontent (outer s) (RoomName request) \<noteq> None"
    and "length (laundry s) + length (sends pl) \<le> cap"
  shows "\<exists>s'. exec (repo_ports Cs Cc rpc) cap (housekeeper_work wired n request) s = Some ((), s') \<and>
    storage_qty scontent (outer s') = after_takes (takes pl) (storage_qty scontent (outer s)) \<and>
    storage_status ccontent (outer s') = (storage_status ccontent (outer s))(RoomName request \<mapsto> Some (becomes pl)) \<and>
    laundry s' = laundry s @ wash_requests (RoomName request) (sends pl)"
proof -
  note hk = app_storage.as_ports [OF storage_contract_locale [OF assms(1)]]
  have g: "housekeeper_ports.good (storage_inv scontent ccontent) (storage_up s_up c_up k_up) s"
    by (simp add: housekeeper_ports.good_def [OF hk] assms(2,3))
  have v: "housekeeper_ports.view (storage_qty scontent) (storage_status ccontent) s =
      (storage_qty scontent (outer s), storage_status ccontent (outer s), laundry s)"
    by (simp add: housekeeper_ports.view_def [OF hk])
  show ?thesis
    using housekeeper_ports.effect_housekeeper_work [OF hk g v assms(4,5) _ assms(7), of n] assms(6)
    by (auto simp: housekeeper_ports.effect_def [OF hk] housekeeper_ports.view_def [OF hk])
qed

theorem cleaning_outcome_witness:
  "\<exists>s'. exec (repo_ports mem_collection mem_collection mem_rpc) 32 (housekeeper_work wired ''hal'' example_cleaning)
       (example_solo []) = Some ((), s') \<and>
     storage_qty docs (outer s') CleaningItem = Some 20 \<and>
     storage_status docs (outer s') ''oak'' = Some (Some CleaningStatusFullyCleaned) \<and> length (laundry s') = 2"
proof -
  have pl: "plan_of (RequestType example_cleaning) =
      Some \<lparr>takes = [(CleaningItem, 10)], sends = [''towels'', ''linens''], becomes = CleaningStatusFullyCleaned\<rparr>"
    by (simp add: plan_of_def example_cleaning_def)
  have room: "TrimSpace (RoomName example_cleaning) \<noteq> ''''" by code_simp
  have st: "storage_status docs (outer (example_solo [])) (RoomName example_cleaning) \<noteq> None" by code_simp
  have n: "storage_qty docs (outer (example_solo [])) CleaningItem = Some 30" by code_simp
  have "length (laundry (example_solo [])) + length [''towels'', ''linens''] \<le> 32" by (simp add: example_solo_def)
  with cleaning_outcome [OF mem_storage_contract example_storage_ok pl room st, of 32 "''hal''"] obtain s' where
    "exec (repo_ports mem_collection mem_collection mem_rpc) 32 (housekeeper_work wired ''hal'' example_cleaning)
       (example_solo []) = Some ((), s')"
    "storage_qty docs (outer s') = after_takes [(CleaningItem, 10)] (storage_qty docs (outer (example_solo [])))"
    "storage_status docs (outer s') = (storage_status docs (outer (example_solo [])))
       (RoomName example_cleaning \<mapsto> Some CleaningStatusFullyCleaned)"
    "laundry s' = laundry (example_solo []) @ wash_requests (RoomName example_cleaning) [''towels'', ''linens'']"
    by auto
  with n show ?thesis
    by (intro exI [of _ s']) (simp add: take_level_def wash_requests_def example_cleaning_def example_solo_def)
qed

text \<open>C19: a washing request for an item of the table, carried out alone on healthy servers, returns
  exactly if an hour change at or after the end of its cycle, or the end of the context, arrives;
  then its soap has been taken (after one replenishment where there was too little) and the
  subscriptions are as before.\<close>

theorem wash_outcome:
  assumes "storage_contract Cs scontent s_up Cc ccontent c_up rpc k_up"
    and "storage_inv scontent ccontent (outer s)" "storage_up s_up c_up k_up (outer s)"
    and "(timeEventHourChange, nextChan s) \<notin> set (registered s)" "washTable (Item request) = Some cfg"
    and "p_now (repo_ports Cs Cc rpc) (outer s) = (Inr st, w)"
  shows "(\<exists>x. exec (repo_ports Cs Cc rpc) cap (launderer_work wired n request) s = Some x) =
      (ends_cycle (st + cycleDurationInHours cfg * Hour) (arrivals s) \<noteq> None) \<and>
    (\<forall>s'. exec (repo_ports Cs Cc rpc) cap (launderer_work wired n request) s = Some ((), s') \<longrightarrow>
      storage_qty scontent (outer s') =
        (storage_qty scontent (outer s))(Soap := map_option (\<lambda>n. take_level n (soap cfg))
           (storage_qty scontent (outer s) Soap)) \<and>
      registered s' = registered s)"
proof -
  note ck = app_storage.as_clocked [OF storage_contract_locale [OF assms(1)]]
  note stk = app_storage.as_stock [OF storage_contract_locale [OF assms(1)]]
  obtain m where m: "storage_qty scontent (outer s) Soap = Some m"
    using stock_repo.qty_managed [OF stock_ports.axioms [OF stk] assms(2) managed_takes(5)] by blast
  note e = clocked_stock.exec_launderer_work [OF ck assms(2,3,4,5) m assms(6), where cap = cap and name = n]
  show ?thesis
  proof (cases "ends_cycle (st + cycleDurationInHours cfg * Hour) (arrivals s)")
    case None
    with e(1) show ?thesis by simp
  next
    case (Some x)
    with e(2) [of "fst x" "snd x"] obtain s' where
      "exec (repo_ports Cs Cc rpc) cap (launderer_work wired n request) s = Some ((), s')"
      "storage_qty scontent (outer s') = (storage_qty scontent (outer s))(Soap \<mapsto> take_level m (soap cfg))"
      "registered s' = registered s" by auto
    with Some m show ?thesis by simp
  qed
qed

theorem wash_outcome_witness:
  "(\<exists>x. exec (repo_ports mem_collection mem_collection mem_rpc) 32 (launderer_work wired ''liz'' example_towels)
      (example_solo [Some 5, Some (3 * Hour)]) = Some x) \<and>
   \<not> (\<exists>x. exec (repo_ports mem_collection mem_collection mem_rpc) 32 (launderer_work wired ''liz'' example_towels)
      (example_solo [Some 5]) = Some x)"
proof -
  have clk: "p_now (repo_ports mem_collection mem_collection mem_rpc) (outer (example_solo ts)) =
      (Inr 0, outer (example_solo ts))" for ts
    by (simp add: example_solo_def example_storage_def repo_ports_def on_clock_def clock_Now_def mem_rpc_def AsTime_def)
  have r: "(timeEventHourChange, nextChan (example_solo ts)) \<notin> set (registered (example_solo ts))" for ts
    by (simp add: example_solo_def)
  note w = wash_outcome [OF mem_storage_contract example_storage_ok r towels_cfg clk, of 32, THEN conjunct1]
  show ?thesis unfolding w by (simp add: example_solo_def Hour_def)
qed

text \<open>A restock request for managed items, carried out alone on healthy servers, returns with
  every requested item at the minimum or above: those below it have been replenished once, nothing
  else has changed.\<close>

theorem stocker_reaches_minimum:
  assumes "storage_contract Cs scontent s_up Cc ccontent c_up rpc k_up"
    and "storage_inv scontent ccontent (outer s)" "storage_up s_up c_up k_up (outer s)"
    and "distinct (ItemsName request)" "set (ItemsName request) \<subseteq> set ManagedStockItemNames"
  shows "\<exists>s'. exec (repo_ports Cs Cc rpc) cap (stocker_work n request) s = Some ((), s') \<and>
    storage_qty scontent (outer s') = restocked (storage_qty scontent (outer s)) (ItemsName request) \<and>
    (\<forall>i \<in> set (ItemsName request). \<exists>m. storage_qty scontent (outer s') i = Some m \<and> minimumStockQuantity \<le> m)"
proof -
  note stk = app_storage.as_stock [OF storage_contract_locale [OF assms(1)]]
  from stock_ports.exec_stocker_work [OF stk assms(2-5), of cap n] obtain s' where
    s': "exec (repo_ports Cs Cc rpc) cap (stocker_work n request) s = Some ((), s')"
    "storage_qty scontent (outer s') = restocked (storage_qty scontent (outer s)) (ItemsName request)" by blast
  with stock_ports.restocked_enough [OF stk assms(2)] assms(5) show ?thesis by (metis subsetD)
qed

theorem stocker_reaches_minimum_witness:
  "\<exists>s'. exec (repo_ports mem_collection mem_collection mem_rpc) 32 (stocker_work ''sam'' \<lparr>ItemsName = [WineBottle, TeaBags]\<rparr>)
       (example_solo []) = Some ((), s') \<and>
     storage_qty docs (outer s') WineBottle = Some 52 \<and> storage_qty docs (outer s') TeaBags = Some 50"
proof -
  have "storage_qty docs (outer (example_solo [])) WineBottle = Some 2"
    "storage_qty docs (outer (example_solo [])) TeaBags = Some 50" by code_simp+
  moreover have "distinct (ItemsName \<lparr>ItemsName = [WineBottle, TeaBags]\<rparr>)"
    "set (ItemsName \<lparr>ItemsName = [WineBottle, TeaBags]\<rparr>) \<subseteq> set ManagedStockItemNames"
    by (simp_all add: WineBottle_def TeaBags_def ManagedStockItemNames_def)
  ultimately show ?thesis
    using stocker_reaches_minimum [OF mem_storage_contract example_storage_ok, of "\<lparr>ItemsName = [WineBottle, TeaBags]\<rparr>" 32 "''sam''"]
    by (fastforce simp: restocked_def minimumStockQuantity_def stockReplenishmentQuantity_def)
qed

end
