(* ===== verification/Shared_Calls.thy ===== *)
theory Shared_Calls
  imports App_Storage
begin

text \<open>
  The calls of many workers on one world. A call on a port is one atomic step of the shared
  world: the stock repository holds its mutex for the whole of a method, the cottage repository
  makes one call to the server. Everything else a worker does (log, send, wait) leaves that
  world alone, with whatever reply.
\<close>

text \<open>A reply that the ports give to a call in the world \<open>w\<close>.\<close>

fun answers :: "'w ports \<Rightarrow> event \<Rightarrow> 'w \<Rightarrow> 'w \<Rightarrow> bool" where
  "answers P (EvNow r) w w' = (p_now P w = (r, w'))"
| "answers P (EvGetStock r) w w' = (p_getStock P w = (r, w'))"
| "answers P (EvConsumeItem i q r) w w' = (p_consumeItem P i q w = (r, w'))"
| "answers P (EvRestockItem i q r) w w' = (p_restockItem P i q w = (r, w'))"
| "answers P (EvUpdateCleaningStatus n s r) w w' = (p_updateCleaningStatus P n s w = (r, w'))"
| "answers P _ w w' = (w' = w)"

text \<open>The same as a function of the call and its reply; a reply with a whole stock is left out.\<close>

fun answer_exec :: "'w ports \<Rightarrow> event \<Rightarrow> 'w \<Rightarrow> 'w option" where
  "answer_exec P (EvNow r) w = (case p_now P w of (r', w') \<Rightarrow> if r' = r then Some w' else None)"
| "answer_exec P (EvGetStock r) w = None"
| "answer_exec P (EvConsumeItem i q r) w = (case p_consumeItem P i q w of (r', w') \<Rightarrow> if r' = r then Some w' else None)"
| "answer_exec P (EvRestockItem i q r) w = (case p_restockItem P i q w of (r', w') \<Rightarrow> if r' = r then Some w' else None)"
| "answer_exec P (EvUpdateCleaningStatus n s r) w =
     (case p_updateCleaningStatus P n s w of (r', w') \<Rightarrow> if r' = r then Some w' else None)"
| "answer_exec P _ w = Some w"

lemma answer_exec_answers: "answer_exec P e w = Some w' \<Longrightarrow> answers P e w w'"
  by (cases e) (auto split: prod.splits if_splits)

text \<open>The stock movement that a call reports as done.\<close>

fun stock_delta :: "string \<Rightarrow> event \<Rightarrow> int" where
  "stock_delta i (EvConsumeItem j q None) = (if j = i then - q else 0)"
| "stock_delta i (EvRestockItem j q None) = (if j = i then q else 0)"
| "stock_delta i _ = 0"

context housekeeper_ports
begin

lemma answers_level:
  assumes "inv w" "up w" "answers P ev w w'" "i \<in> set ManagedStockItemNames" "qty w i = Some n"
  shows "inv w' \<and> up w' \<and> qty w' i = Some (n + stock_delta i ev)"
proof (cases ev)
  case (EvConsumeItem j q r)
  with assms(3) have c: "p_consumeItem P j q w = (r, w')" by simp
  show ?thesis
  proof (cases r)
    case None
    with consume_ok [OF assms(1)] c assms EvConsumeItem show ?thesis by fastforce
  next
    case (Some e)
    show ?thesis
    proof (cases "errors_As_stock e")
      case None
      with consume_error [OF assms(1)] consume_up [OF assms(1,2)] c assms(2,4,5) EvConsumeItem Some show ?thesis
        by fastforce
    next
      case (Some s)
      with consume_insufficient [OF assms(1)] c assms(2,5) EvConsumeItem \<open>r = Some e\<close> show ?thesis by fastforce
    qed
  qed
next
  case (EvRestockItem j q r)
  with assms(3) have c: "p_restockItem P j q w = (r, w')" by simp
  show ?thesis
  proof (cases r)
    case None
    with restock_ok [OF assms(1)] c assms EvRestockItem show ?thesis by fastforce
  next
    case (Some e)
    with restock_error [OF assms(1)] restock_up [OF assms(1,2)] c assms(2,4,5) EvRestockItem show ?thesis
      by fastforce
  qed
next
  case (EvGetStock r)
  with get_frame [OF assms(1)] assms show ?thesis by fastforce
next
  case (EvNow r)
  with now_frame [OF assms(1)] assms show ?thesis by fastforce
next
  case (EvUpdateCleaningStatus m s r)
  with assms(3) have u: "p_updateCleaningStatus P m s w = (r, w')" by simp
  have "inv w' \<and> up w'" using update_ok [OF assms(1)] update_error [OF assms(1)] u assms(2) by (cases r) blast+
  with update_qty [OF assms(1) u] assms(5) EvUpdateCleaningStatus show ?thesis by simp
qed (use assms in auto)

end

end
