(* ===== verification/Time_Events.thy ===== *)
theory Time_Events
  imports Messages Effects "HOL-Library.Sublist"
begin

text \<open>
  \<^verbatim>\<open>internal/app/time_event_notification_service.go\<close>: the registry of subscriber channels
  and the loop that turns time events from the queues into notifications. A channel is its
  identity (\<open>chan\<close>); what it holds is \<open>bufs\<close>, its capacity \<open>cap\<close>. A send in a \<open>select\<close> with
  a default succeeds if there is room and is skipped otherwise.
\<close>

subsection \<open>The registry\<close>

record TimeEventNotificationService =
  hourChangeChannels :: "chan Set"
  dayChangeChannels :: "chan Set"

definition new_registry :: TimeEventNotificationService where
  "new_registry = \<lparr>hourChangeChannels = NewSet, dayChangeChannels = NewSet\<rparr>"

definition Register :: "string \<Rightarrow> chan option \<Rightarrow> TimeEventNotificationService \<Rightarrow> TimeEventNotificationService" where
  "Register eventType ch s =
     (case ch of
        None \<Rightarrow> s
      | Some c \<Rightarrow>
          if eventType = timeEventHourChange then s\<lparr>hourChangeChannels := Add c (hourChangeChannels s)\<rparr>
          else if eventType = timeEventDayChange then s\<lparr>dayChangeChannels := Add c (dayChangeChannels s)\<rparr>
          else s)"

definition Unregister :: "string \<Rightarrow> chan option \<Rightarrow> TimeEventNotificationService \<Rightarrow> TimeEventNotificationService" where
  "Unregister eventType ch s =
     (case ch of
        None \<Rightarrow> s
      | Some c \<Rightarrow>
          if eventType = timeEventHourChange then s\<lparr>hourChangeChannels := Remove c (hourChangeChannels s)\<rparr>
          else if eventType = timeEventDayChange then s\<lparr>dayChangeChannels := Remove c (dayChangeChannels s)\<rparr>
          else s)"

definition subscribers :: "string \<Rightarrow> TimeEventNotificationService \<Rightarrow> chan set" where
  "subscribers eventType s =
     (if eventType = timeEventHourChange then set_of (hourChangeChannels s)
      else if eventType = timeEventDayChange then set_of (dayChangeChannels s) else {})"

definition event_types :: "string set" where
  "event_types = {timeEventHourChange, timeEventDayChange}"

lemma event_types_distinct [simp]: "timeEventHourChange \<noteq> timeEventDayChange"
  by (simp add: timeEventHourChange_def timeEventDayChange_def)

text \<open>
  The interface \<open>timeEventRegistry\<close> that launderers and the manager are built on: \<open>subs\<close> is who
  is notified of an event.
\<close>

locale time_event_registry =
  fixes reg :: "string \<Rightarrow> chan option \<Rightarrow> 'r \<Rightarrow> 'r" and unreg :: "string \<Rightarrow> chan option \<Rightarrow> 'r \<Rightarrow> 'r"
    and subs :: "string \<Rightarrow> 'r \<Rightarrow> chan set"
  assumes subs_reg: "subs e (reg e' (Some c) r) = (if e = e' \<and> e \<in> event_types then insert c (subs e r) else subs e r)"
    and subs_unreg: "subs e (unreg e' (Some c) r) = (if e = e' \<and> e \<in> event_types then subs e r - {c} else subs e r)"
    and reg_nil: "reg e None r = r"
    and unreg_nil: "unreg e None r = r"

text \<open>The calls of a client in order: \<open>True\<close> registers, \<open>False\<close> unregisters.\<close>

fun replay :: "(string \<Rightarrow> chan option \<Rightarrow> 'r \<Rightarrow> 'r) \<Rightarrow> (string \<Rightarrow> chan option \<Rightarrow> 'r \<Rightarrow> 'r) \<Rightarrow>
    (bool \<times> string \<times> chan) list \<Rightarrow> 'r \<Rightarrow> 'r" where
  "replay reg unreg [] r = r"
| "replay reg unreg ((b, e, c) # xs) r = replay reg unreg xs (if b then reg e (Some c) r else unreg e (Some c) r)"

context time_event_registry
begin

lemma pair_restores:
  "c \<notin> subs e r \<Longrightarrow> subs e' (replay reg unreg [(True, e, c), (False, e, c)] r) = subs e' r"
  by (auto simp: subs_reg subs_unreg)

lemma registered_until_unregistered:
  "e \<in> event_types \<Longrightarrow> c \<in> subs e (reg e (Some c) r) \<and> c \<notin> subs e (unreg e (Some c) r)"
  by (simp add: subs_reg subs_unreg)

lemma register_twice: "subs e (reg e' (Some c) (reg e' (Some c) r)) = subs e (reg e' (Some c) r)"
  by (auto simp: subs_reg)

end

interpretation tens: time_event_registry Register Unregister subscribers
  by unfold_locales (auto simp: Register_def Unregister_def subscribers_def event_types_def)

subsection \<open>Notification\<close>

type_synonym bufs = "chan \<Rightarrow> time list"

definition send_or_skip :: "(chan \<Rightarrow> nat) \<Rightarrow> string \<Rightarrow> time \<Rightarrow> chan \<Rightarrow> bufs \<times> log_line list \<Rightarrow> bufs \<times> log_line list" where
  "send_or_skip cap eventName currentTime ch st =
     (case st of (b, ls) \<Rightarrow>
        if length (b ch) < cap ch
        then (b(ch := b ch @ [currentTime]), ls @ [(Debug, ''published '' @ eventName @ '' event to subscriber'')])
        else (b, ls @ [(Warn, ''skipped '' @ eventName @ '' event for busy subscriber'')]))"

definition notify :: "(chan \<Rightarrow> nat) \<Rightarrow> time \<Rightarrow> chan list \<Rightarrow> string \<Rightarrow> bufs \<Rightarrow> bufs \<times> log_line list" where
  "notify cap currentTime channels eventName b =
     fold (send_or_skip cap eventName currentTime) channels (b, [])"

text \<open>
  \<open>channels\<close> is what \<open>Values\<close> returned for the set of the event: the read lock is held only
  while the set is copied.
\<close>

definition notifyHourChange :: "(chan \<Rightarrow> nat) \<Rightarrow> chan list \<Rightarrow> time \<Rightarrow> bufs \<Rightarrow> bufs \<times> log_line list" where
  "notifyHourChange cap channels currentTime b = notify cap currentTime channels ''hour change'' b"

definition notifyDayChange :: "(chan \<Rightarrow> nat) \<Rightarrow> chan list \<Rightarrow> time \<Rightarrow> bufs \<Rightarrow> bufs \<times> log_line list" where
  "notifyDayChange cap channels currentTime b = notify cap currentTime channels ''day change'' b"

text \<open>What a notification does, independent of the order in which the set is enumerated.\<close>

definition notified :: "(chan \<Rightarrow> nat) \<Rightarrow> time \<Rightarrow> chan set \<Rightarrow> bufs \<Rightarrow> bufs" where
  "notified cap t S b = (\<lambda>c. if c \<in> S \<and> length (b c) < cap c then b c @ [t] else b c)"

lemma notify_fold:
  "distinct cs \<Longrightarrow> fst (fold (send_or_skip cap n t) cs (b, ls)) = notified cap t (set cs) b"
proof (induction cs arbitrary: b ls)
  case Nil
  show ?case by (simp add: notified_def)
next
  case (Cons c cs)
  define b1 where "b1 = (if length (b c) < cap c then b(c := b c @ [t]) else b)"
  have "\<exists>ls1. send_or_skip cap n t c (b, ls) = (b1, ls1)" by (simp add: send_or_skip_def b1_def)
  with Cons have "fst (fold (send_or_skip cap n t) (c # cs) (b, ls)) = notified cap t (set cs) b1" by fastforce
  also have "\<dots> = notified cap t (set (c # cs)) b"
    using Cons.prems by (auto simp: notified_def b1_def fun_eq_iff)
  finally show ?case .
qed

lemma notify_notified:
  "Values s cs \<Longrightarrow> fst (notify cap t cs n b) = notified cap t (set_of s) b"
  by (simp add: notify_def notify_fold Values_iff)

subsection \<open>The loop\<close>

text \<open>
  Which case of the \<open>select\<close> is taken: the context, a delivery from one of the two queues, or
  the closing of a queue. A delivery carries its body and the replies its \<open>Ack\<close> and \<open>Nack\<close>
  would give.
\<close>

record delivery =
  Body :: string
  AckErr :: "go_error option"
  NackErr :: "go_error option"

datatype settlement = Acked | Nacked

text \<open>The effects of handling one delivery, in order.\<close>

datatype te_effect = Settle settlement delivery | Notify "bufs \<times> log_line list" | TeLog log_line

definition te_ackDelivery :: "delivery \<Rightarrow> string \<Rightarrow> te_effect list" where
  "te_ackDelivery d name = Settle Acked d #
     (if AckErr d \<noteq> None then [TeLog (Error, ''failed to ack '' @ name)] else [])"

definition te_nackDelivery :: "delivery \<Rightarrow> string \<Rightarrow> te_effect list" where
  "te_nackDelivery d name = Settle Nacked d #
     (if NackErr d \<noteq> None then [TeLog (Error, ''failed to nack '' @ name)] else [])"

text \<open>
  The two cases of the loop differ in the names they log and in the method they notify with.
\<close>

definition handle_time_event ::
    "proto \<Rightarrow> (time \<Rightarrow> bufs \<Rightarrow> bufs \<times> log_line list) \<Rightarrow> string \<Rightarrow> string \<Rightarrow> delivery \<Rightarrow> bufs \<Rightarrow> te_effect list \<times> bufs" where
  "handle_time_event pb notifyChange spaced name d b =
     (case unmarshalTimeEvent pb (Body d) of
        (Inl err, ls) \<Rightarrow>
          (map TeLog (ls @ [(Error, ''failed to unmarshal '' @ spaced @ '' event'')]) @ te_nackDelivery d name, b)
      | (Inr currentTime, ls) \<Rightarrow>
          (let r = notifyChange currentTime b
           in (map TeLog ls @ te_ackDelivery d name @ [Notify r], fst r)))"

definition handle_hour :: "proto \<Rightarrow> (chan \<Rightarrow> nat) \<Rightarrow> chan list \<Rightarrow> delivery \<Rightarrow> bufs \<Rightarrow> te_effect list \<times> bufs" where
  "handle_hour pb cap channels d b =
     handle_time_event pb (notifyHourChange cap channels) ''hour change'' ''hourChangeEvent'' d b"

definition handle_day :: "proto \<Rightarrow> (chan \<Rightarrow> nat) \<Rightarrow> chan list \<Rightarrow> delivery \<Rightarrow> bufs \<Rightarrow> te_effect list \<times> bufs" where
  "handle_day pb cap channels d b =
     handle_time_event pb (notifyDayChange cap channels) ''day change'' ''dayChangeEvent'' d b"

fun settlements :: "te_effect list \<Rightarrow> (settlement \<times> delivery) list" where
  "settlements [] = []"
| "settlements (Settle s d # es) = (s, d) # settlements es"
| "settlements (_ # es) = settlements es"

lemma settlements_append [simp]: "settlements (xs @ ys) = settlements xs @ settlements ys"
  by (induction xs rule: settlements.induct) auto

lemma settlements_logs [simp]: "settlements (map TeLog ls) = []"
  by (induction ls) auto

lemma handle_time_event_settles:
  "settlements (fst (handle_time_event pb f sp n d b)) =
     [(if isl (fst (unmarshalTimeEvent pb (Body d))) then Nacked else Acked, d)]"
  by (auto simp: handle_time_event_def te_ackDelivery_def te_nackDelivery_def Let_def
      split: prod.splits sum.splits)

lemma handle_time_event_bufs:
  "snd (handle_time_event pb f sp n d b) =
     (case fst (unmarshalTimeEvent pb (Body d)) of Inl err \<Rightarrow> b | Inr t \<Rightarrow> fst (f t b))"
  by (auto simp: handle_time_event_def Let_def split: prod.splits sum.splits)

lemma handle_bufs:
  assumes "Values s cs"
  shows "snd (handle_hour pb cap cs d b) =
      (case fst (unmarshalTimeEvent pb (Body d)) of Inl err \<Rightarrow> b | Inr t \<Rightarrow> notified cap t (set_of s) b)"
    and "snd (handle_day pb cap cs d b) =
      (case fst (unmarshalTimeEvent pb (Body d)) of Inl err \<Rightarrow> b | Inr t \<Rightarrow> notified cap t (set_of s) b)"
  by (simp_all add: handle_hour_def handle_day_def notifyHourChange_def notifyDayChange_def
      handle_time_event_bufs notify_notified [OF assms] cong: sum.case_cong split: sum.split)

text \<open>
  The running service: the registry, the channels, and whether the loop has ended. Between two
  turns of the loop clients register, unregister and take instants from their channels. A
  channel is enumerated in any order (\<open>Values\<close>).
\<close>

record te_state =
  registry :: TimeEventNotificationService
  chans :: bufs
  ended :: bool

datatype te_label =
    TeRegister string "chan option" | TeUnregister string "chan option" | TeTake chan time
  | TeHour delivery | TeDay delivery | TeClosed | TeCancelled

inductive te_step :: "proto \<Rightarrow> (chan \<Rightarrow> nat) \<Rightarrow> te_state \<Rightarrow> te_label \<Rightarrow> te_state \<Rightarrow> bool"
  for pb :: proto and cap :: "chan \<Rightarrow> nat" where
  register: "te_step pb cap st (TeRegister e c) (st\<lparr>registry := Register e c (registry st)\<rparr>)"
| unregister: "te_step pb cap st (TeUnregister e c) (st\<lparr>registry := Unregister e c (registry st)\<rparr>)"
| take_one: "chans st c = t # ts \<Longrightarrow> te_step pb cap st (TeTake c t) (st\<lparr>chans := (chans st)(c := ts)\<rparr>)"
| hour: "\<not> ended st \<Longrightarrow> Values (hourChangeChannels (registry st)) cs \<Longrightarrow>
     handle_hour pb cap cs d (chans st) = (es, b) \<Longrightarrow> te_step pb cap st (TeHour d) (st\<lparr>chans := b\<rparr>)"
| day: "\<not> ended st \<Longrightarrow> Values (dayChangeChannels (registry st)) cs \<Longrightarrow>
     handle_day pb cap cs d (chans st) = (es, b) \<Longrightarrow> te_step pb cap st (TeDay d) (st\<lparr>chans := b\<rparr>)"
| closed: "\<not> ended st \<Longrightarrow> te_step pb cap st TeClosed (st\<lparr>ended := True\<rparr>)"
| cancelled: "\<not> ended st \<Longrightarrow> te_step pb cap st TeCancelled (st\<lparr>ended := True\<rparr>)"

text \<open>\<open>Start\<close>: the loop begins only when both queues can be consumed.\<close>

definition te_start :: "go_error option \<Rightarrow> go_error option \<Rightarrow> TimeEventNotificationService \<Rightarrow> te_state" where
  "te_start hourErr dayErr r =
     \<lparr>registry = r, chans = (\<lambda>_. []), ended = (hourErr \<noteq> None \<or> dayErr \<noteq> None)\<rparr>"

inductive te_run :: "proto \<Rightarrow> (chan \<Rightarrow> nat) \<Rightarrow> te_state \<Rightarrow> te_label list \<Rightarrow> te_state \<Rightarrow> bool"
  for pb :: proto and cap :: "chan \<Rightarrow> nat" where
  refl: "te_run pb cap st [] st"
| step: "te_run pb cap st ls st' \<Longrightarrow> te_step pb cap st' l st'' \<Longrightarrow> te_run pb cap st (ls @ [l]) st''"

text \<open>The instants of the deliveries that could be read, and what a client took.\<close>

definition decoded_one :: "proto \<Rightarrow> te_label \<Rightarrow> time list" where
  "decoded_one pb l =
     (case l of
        TeHour d \<Rightarrow> (case fst (unmarshalTimeEvent pb (Body d)) of Inl e \<Rightarrow> [] | Inr t \<Rightarrow> [t])
      | TeDay d \<Rightarrow> (case fst (unmarshalTimeEvent pb (Body d)) of Inl e \<Rightarrow> [] | Inr t \<Rightarrow> [t])
      | _ \<Rightarrow> [])"

definition taken_one :: "chan \<Rightarrow> te_label \<Rightarrow> time list" where
  "taken_one c l = (case l of TeTake c' t \<Rightarrow> if c' = c then [t] else [] | _ \<Rightarrow> [])"

definition decoded :: "proto \<Rightarrow> te_label list \<Rightarrow> time list" where
  "decoded pb ls = concat (map (decoded_one pb) ls)"

definition taken :: "chan \<Rightarrow> te_label list \<Rightarrow> time list" where
  "taken c ls = concat (map (taken_one c) ls)"

lemma decoded_taken_append [simp]:
  "decoded pb (ls @ [l]) = decoded pb ls @ decoded_one pb l"
  "taken c (ls @ [l]) = taken c ls @ taken_one c l"
  by (simp_all add: decoded_def taken_def)

lemma notified_chan: "notified cap t S b c = b c \<or> notified cap t S b c = b c @ [t]"
  by (simp add: notified_def)

lemma hour_bufs:
  assumes "Values s cs" "handle_hour pb cap cs d b = (es, b')"
  shows "b' c = b c \<or> (\<exists>t. fst (unmarshalTimeEvent pb (Body d)) = Inr t \<and> length (b c) < cap c \<and> b' c = b c @ [t])"
  using handle_bufs(1) [OF assms(1), of pb cap d b] assms(2)
  by (auto simp: notified_def split: sum.splits)

lemma day_bufs:
  assumes "Values s cs" "handle_day pb cap cs d b = (es, b')"
  shows "b' c = b c \<or> (\<exists>t. fst (unmarshalTimeEvent pb (Body d)) = Inr t \<and> length (b c) < cap c \<and> b' c = b c @ [t])"
  using handle_bufs(2) [OF assms(1), of pb cap d b] assms(2)
  by (auto simp: notified_def split: sum.splits)

lemma te_step_chan:
  assumes "te_step pb cap st l st'"
  shows "taken_one c l @ chans st' c = chans st c \<or>
    (taken_one c l = [] \<and> chans st' c = chans st c @ decoded_one pb l)"
  using assms
proof cases
  case (hour cs d es b)
  with hour_bufs [OF hour(4,5), of c] show ?thesis by (auto simp: taken_one_def decoded_one_def)
next
  case (day cs d es b)
  with day_bufs [OF day(4,5), of c] show ?thesis by (auto simp: taken_one_def decoded_one_def)
qed (auto simp: taken_one_def)

text \<open>
  What a channel's reader gets, and what is still in the channel, are instants that were
  received, each at most once and in the order in which they were received.
\<close>

lemma te_run_subseq:
  assumes "te_run pb cap (te_start e1 e2 r) ls st"
  shows "subseq (taken c ls @ chans st c) (decoded pb ls)"
proof -
  have "te_run pb cap st0 ls st \<Longrightarrow> chans st0 = (\<lambda>_. []) \<Longrightarrow> subseq (taken c ls @ chans st c) (decoded pb ls)" for st0
  proof (induction rule: te_run.induct)
    case (refl st)
    then show ?case by (simp add: taken_def decoded_def)
  next
    case (step st ls st' l st'')
    from te_step_chan [OF step.hyps(2), of c] show ?case
    proof
      assume "taken_one c l @ chans st'' c = chans st' c"
      with step show ?case by (simp add: subseq_rev_drop_many)
    next
      assume "taken_one c l = [] \<and> chans st'' c = chans st' c @ decoded_one pb l"
      with step show ?case by (simp flip: append_assoc)
    qed
  qed
  with assms show ?thesis by (simp add: te_start_def)
qed

text \<open>No channel is ever filled beyond its capacity, and an ended loop delivers nothing.\<close>

lemma te_run_cap:
  assumes "te_run pb cap (te_start e1 e2 r) ls st"
  shows "length (chans st c) \<le> cap c"
proof -
  have stp: "length (chans st' c) \<le> cap c" if "te_step pb cap st l st'" "length (chans st c) \<le> cap c" for st l st'
    using that
  proof cases
    case (hour cs d es b)
    with hour_bufs [OF hour(4,5), of c] that(2) show ?thesis by auto
  next
    case (day cs d es b)
    with day_bufs [OF day(4,5), of c] that(2) show ?thesis by auto
  qed (use that(2) in auto)
  have "te_run pb cap st0 ls st \<Longrightarrow> length (chans st0 c) \<le> cap c \<Longrightarrow> length (chans st c) \<le> cap c" for st0
    by (induction rule: te_run.induct) (auto intro: stp)
  with assms show ?thesis by (simp add: te_start_def)
qed

subsection \<open>Properties\<close>


definition example_delivery :: delivery where
  "example_delivery = \<lparr>Body = ''A'', AckErr = None, NackErr = None\<rparr>"


text \<open>C25: what the reader of a channel has taken, followed by what still waits in it, is a
  subsequence of the instants received from the queues: nothing is invented, duplicated or
  reordered, although a busy subscriber may miss some. No channel is filled beyond its capacity.\<close>

theorem notifications_are_subsequence:
  assumes "te_run pb cap (te_start e1 e2 r) ls st"
  shows "subseq (taken c ls @ chans st c) (decoded pb ls) \<and> length (chans st c) \<le> cap c"
  using te_run_subseq [OF assms] te_run_cap [OF assms] ..

lemma example_te_run:
  "\<exists>st. te_run example_proto (\<lambda>_. 1) (te_start None None new_registry)
     [TeRegister timeEventHourChange (Some 4), TeHour example_delivery, TeHour example_delivery] st"
proof -
  let ?st0 = "te_start None None new_registry"
  let ?st1 = "?st0\<lparr>registry := Register timeEventHourChange (Some 4) (registry ?st0)\<rparr>"
  have 1: "te_run example_proto (\<lambda>_. 1) ?st0 ([] @ [TeRegister timeEventHourChange (Some 4)]) ?st1"
    by (rule te_run.step [OF te_run.refl te_step.register])
  have v: "Values (hourChangeChannels (registry ?st1)) [4]"
    by (simp add: Values_iff te_start_def Register_def new_registry_def)
  have e: "\<not> ended ?st1" by (simp add: te_start_def)
  obtain es b where h: "handle_hour example_proto (\<lambda>_. 1) [4] example_delivery (chans ?st1) = (es, b)" by fastforce
  from te_run.step [OF 1 te_step.hour [OF e v h]] have 2:
    "te_run example_proto (\<lambda>_. 1) ?st0 ([TeRegister timeEventHourChange (Some 4)] @ [TeHour example_delivery]) (?st1\<lparr>chans := b\<rparr>)"
    by simp
  obtain es' b' where h': "handle_hour example_proto (\<lambda>_. 1) [4] example_delivery b = (es', b')" by fastforce
  have "te_step example_proto (\<lambda>_. 1) (?st1\<lparr>chans := b\<rparr>) (TeHour example_delivery) (?st1\<lparr>chans := b, chans := b'\<rparr>)"
    by (rule te_step.hour [where cs = "[4]" and es = es']) (use v e h' in \<open>simp_all add: te_start_def\<close>)
  from te_run.step [OF 2 this] show ?thesis by auto
qed

theorem notifications_are_subsequence_witness:
  "\<exists>st. te_run example_proto (\<lambda>_. 1) (te_start None None new_registry)
     [TeRegister timeEventHourChange (Some 4), TeHour example_delivery, TeHour example_delivery] st \<and>
     subseq (chans st 4) [65 * 10 ^ 9, 65 * 10 ^ 9] \<and> length (chans st 4) \<le> 1"
proof -
  let ?ls = "[TeRegister timeEventHourChange (Some 4), TeHour example_delivery, TeHour example_delivery]"
  from example_te_run obtain st where
    st: "te_run example_proto (\<lambda>_. 1) (te_start None None new_registry) ?ls st" by blast
  have "fst (unmarshalTimeEvent example_proto (Body example_delivery)) = Inr (65 * 10 ^ 9)"
    by (simp add: unmarshalTimeEvent_cases example_proto_def example_delivery_def)
  then have "decoded example_proto ?ls = [65 * 10 ^ 9, 65 * 10 ^ 9]" "taken 4 ?ls = []"
    by (simp_all add: decoded_def decoded_one_def taken_def taken_one_def)
  with notifications_are_subsequence [OF st, of 4] st show ?thesis by auto
qed

end
