(* ===== verification/Manager_Service.thy ===== *)
theory Manager_Service
  imports Time_Events
begin

text \<open>
  \<^verbatim>\<open>internal/app/manager_service.go\<close>: the loop that turns cleaning messages into requests
  for the housekeepers and day changes into requests for the stockers. The random source of
  \<open>math/rand/v2\<close> is a parameter: \<open>draw i\<close> is the number \<open>Shuffle\<close> draws for position \<open>i\<close> (at
  most \<open>i\<close>), \<open>drawn\<close> what \<open>IntN\<close> returns.
\<close>

subsection \<open>Choosing the items to restock\<close>

definition swap :: "nat \<Rightarrow> nat \<Rightarrow> 'a list \<Rightarrow> 'a list" where
  "swap i j xs = xs[j := xs ! i, i := xs ! j]"

text \<open>\<open>rand.Shuffle\<close> swaps position \<open>i\<close>, from the last down to 1, with a drawn one.\<close>

fun Shuffle :: "(nat \<Rightarrow> nat) \<Rightarrow> nat \<Rightarrow> 'a list \<Rightarrow> 'a list" where
  "Shuffle draw 0 xs = xs"
| "Shuffle draw (Suc i) xs = Shuffle draw i (swap (Suc i) (draw (Suc i)) xs)"

definition selectItemsToRestock :: "(nat \<Rightarrow> nat) \<Rightarrow> nat \<Rightarrow> string list" where
  "selectItemsToRestock draw drawn =
     (let shuffled = Shuffle draw (length ManagedStockItemNames - 1) ManagedStockItemNames;
          selectedCount = drawn + 1
      in take selectedCount shuffled)"

text \<open>What \<open>Shuffle\<close> and \<open>IntN\<close> promise of the numbers.\<close>

definition rand_ok :: "(nat \<Rightarrow> nat) \<Rightarrow> nat \<Rightarrow> bool" where
  "rand_ok draw drawn \<longleftrightarrow> (\<forall>i. draw i \<le> i) \<and> drawn < length ManagedStockItemNames"

lemma mset_Shuffle:
  "\<forall>i. draw i \<le> i \<Longrightarrow> n < length xs \<Longrightarrow> mset (Shuffle draw n xs) = mset xs"
proof (induction draw n xs rule: Shuffle.induct)
  case (2 draw i xs)
  from 2(2) have "draw (Suc i) \<le> Suc i" by blast
  with 2(3) have "mset (swap (Suc i) (draw (Suc i)) xs) = mset xs"
    unfolding swap_def by (intro mset_swap) simp_all
  with 2 show ?case by (simp add: swap_def)
qed simp

lemma selected_items:
  assumes "rand_ok draw drawn"
  shows "distinct (selectItemsToRestock draw drawn)"
    and "set (selectItemsToRestock draw drawn) \<subseteq> set ManagedStockItemNames"
    and "length (selectItemsToRestock draw drawn) = drawn + 1"
proof -
  let ?s = "Shuffle draw (length ManagedStockItemNames - 1) ManagedStockItemNames"
  have m: "mset ?s = mset ManagedStockItemNames"
    using assms by (intro mset_Shuffle) (auto simp: rand_ok_def)
  have d: "distinct ?s" using m ManagedStockItemNames_distinct by (metis mset_eq_imp_distinct_iff)
  have s: "set ?s = set ManagedStockItemNames" using m by (metis set_mset_mset)
  have l: "length ?s = length ManagedStockItemNames" using m by (metis size_mset)
  show "distinct (selectItemsToRestock draw drawn)"
    unfolding selectItemsToRestock_def Let_def using d by (rule distinct_take)
  show "set (selectItemsToRestock draw drawn) \<subseteq> set ManagedStockItemNames"
    unfolding selectItemsToRestock_def Let_def using s set_take_subset by fast
  show "length (selectItemsToRestock draw drawn) = drawn + 1"
    using l assms by (simp add: selectItemsToRestock_def rand_ok_def)
qed

subsection \<open>The loop\<close>

text \<open>
  Where the goroutine is: at its \<open>select\<close>, blocked in one of the two plain channel sends, or
  returned. \<open>stockerCh\<close> may be nil. The sends are not part of a \<open>select\<close>: nothing but room in
  the channel lets them go on.
\<close>

datatype mgr_pos =
    AtSelect | SendingClean delivery CleaningRequest | SendingRestock "string list" | Returned

record mgr_state =
  pos :: mgr_pos
  cleaningCh :: "CleaningRequest list"
  stockerCh :: "RestockRequest list option"
  dayChangeCh :: "time list"
  mgrCtxDone :: bool

datatype mgr_label =
    Nack delivery | Accept delivery CleaningRequest | Dispatch delivery CleaningRequest
  | DayChange time "string list" | NoStocker time | DispatchRestock "string list"
  | ConsumerClosed | CtxStop
  | EnvTakeClean CleaningRequest | EnvTakeRestock RestockRequest | EnvDay time | EnvCancel

fun own_label :: "mgr_label \<Rightarrow> bool" where
  "own_label (EnvTakeClean r) = False"
| "own_label (EnvTakeRestock r) = False"
| "own_label (EnvDay t) = False"
| "own_label EnvCancel = False"
| "own_label _ = True"

text \<open>\<open>Dispatch d r\<close> is the completed send of \<open>r\<close> followed by the acknowledgement of \<open>d\<close>.\<close>

inductive mgr_step :: "proto \<Rightarrow> nat \<Rightarrow> nat \<Rightarrow> mgr_state \<Rightarrow> mgr_label \<Rightarrow> mgr_state \<Rightarrow> bool"
  for pb :: proto and ccap :: nat and scap :: nat where
  ctx_done: "pos m = AtSelect \<Longrightarrow> mgrCtxDone m \<Longrightarrow> mgr_step pb ccap scap m CtxStop (m\<lparr>pos := Returned\<rparr>)"
| consumer_closed: "pos m = AtSelect \<Longrightarrow> mgr_step pb ccap scap m ConsumerClosed (m\<lparr>pos := Returned\<rparr>)"
| reject: "pos m = AtSelect \<Longrightarrow> fst (UnmarshalCleaningRequest pb (Body d)) = Inl err \<Longrightarrow>
     mgr_step pb ccap scap m (Nack d) m"
| accept: "pos m = AtSelect \<Longrightarrow> fst (UnmarshalCleaningRequest pb (Body d)) = Inr r \<Longrightarrow>
     mgr_step pb ccap scap m (Accept d r) (m\<lparr>pos := SendingClean d r\<rparr>)"
| dispatch: "pos m = SendingClean d r \<Longrightarrow> length (cleaningCh m) < ccap \<Longrightarrow>
     mgr_step pb ccap scap m (Dispatch d r) (m\<lparr>pos := AtSelect, cleaningCh := cleaningCh m @ [r]\<rparr>)"
| day_no_stocker: "pos m = AtSelect \<Longrightarrow> dayChangeCh m = t # ts \<Longrightarrow> stockerCh m = None \<Longrightarrow>
     mgr_step pb ccap scap m (NoStocker t) (m\<lparr>dayChangeCh := ts\<rparr>)"
| day_change: "pos m = AtSelect \<Longrightarrow> dayChangeCh m = t # ts \<Longrightarrow> stockerCh m = Some b \<Longrightarrow> rand_ok draw drawn \<Longrightarrow>
     chosen = selectItemsToRestock draw drawn \<Longrightarrow>
     mgr_step pb ccap scap m (DayChange t chosen) (m\<lparr>pos := SendingRestock chosen, dayChangeCh := ts\<rparr>)"
| dispatch_restock: "pos m = SendingRestock chosen \<Longrightarrow> stockerCh m = Some b \<Longrightarrow> length b < scap \<Longrightarrow>
     mgr_step pb ccap scap m (DispatchRestock chosen)
       (m\<lparr>pos := AtSelect, stockerCh := Some (b @ [\<lparr>ItemsName = chosen\<rparr>])\<rparr>)"
| env_take_clean: "cleaningCh m = r # rs \<Longrightarrow> mgr_step pb ccap scap m (EnvTakeClean r) (m\<lparr>cleaningCh := rs\<rparr>)"
| env_take_restock: "stockerCh m = Some (r # rs) \<Longrightarrow>
     mgr_step pb ccap scap m (EnvTakeRestock r) (m\<lparr>stockerCh := Some rs\<rparr>)"
| env_day: "length (dayChangeCh m) < 1 \<Longrightarrow> mgr_step pb ccap scap m (EnvDay t) (m\<lparr>dayChangeCh := dayChangeCh m @ [t]\<rparr>)"
| env_cancel: "mgr_step pb ccap scap m EnvCancel (m\<lparr>mgrCtxDone := True\<rparr>)"

inductive_cases mgr_stepE: "mgr_step pb ccap scap m l m'"

text \<open>\<open>Start\<close> up to its loop: nothing is registered if the queue cannot be consumed.\<close>

definition mgr_start :: "go_error option \<Rightarrow> RestockRequest list option \<Rightarrow> mgr_state" where
  "mgr_start consumeErr stockerChan =
     \<lparr>pos = (if consumeErr \<noteq> None then Returned else AtSelect), cleaningCh = [],
      stockerCh = stockerChan, dayChangeCh = [], mgrCtxDone = False\<rparr>"

inductive mgr_run :: "proto \<Rightarrow> nat \<Rightarrow> nat \<Rightarrow> mgr_state \<Rightarrow> mgr_label list \<Rightarrow> mgr_state \<Rightarrow> bool"
  for pb :: proto and ccap :: nat and scap :: nat where
  refl: "mgr_run pb ccap scap m [] m"
| step: "mgr_run pb ccap scap m ls m' \<Longrightarrow> mgr_step pb ccap scap m' l m'' \<Longrightarrow> mgr_run pb ccap scap m (ls @ [l]) m''"

subsection \<open>What a run shows\<close>

definition project :: "(mgr_label \<Rightarrow> 'a option) \<Rightarrow> mgr_label list \<Rightarrow> 'a list" where
  "project f ls = List.map_filter f ls"

lemma project_append [simp]: "project f (ls @ ms) = project f ls @ project f ms"
  by (simp add: project_def map_filter_def)

lemma project_single [simp]: "project f [l] = (case f l of None \<Rightarrow> [] | Some x \<Rightarrow> [x])"
  by (simp add: project_def map_filter_def split: option.splits)

lemma project_Nil [simp]: "project f [] = []"
  by (simp add: project_def map_filter_def)

definition accepted :: "mgr_label list \<Rightarrow> (delivery \<times> CleaningRequest) list" where
  "accepted = project (\<lambda>l. case l of Accept d r \<Rightarrow> Some (d, r) | _ \<Rightarrow> None)"

definition dispatched :: "mgr_label list \<Rightarrow> (delivery \<times> CleaningRequest) list" where
  "dispatched = project (\<lambda>l. case l of Dispatch d r \<Rightarrow> Some (d, r) | _ \<Rightarrow> None)"

definition taken_clean :: "mgr_label list \<Rightarrow> CleaningRequest list" where
  "taken_clean = project (\<lambda>l. case l of EnvTakeClean r \<Rightarrow> Some r | _ \<Rightarrow> None)"

definition restock_requests :: "mgr_label list \<Rightarrow> string list list" where
  "restock_requests = project (\<lambda>l. case l of DispatchRestock its \<Rightarrow> Some its | _ \<Rightarrow> None)"

lemmas project_defs = accepted_def dispatched_def taken_clean_def restock_requests_def

definition sending :: "mgr_pos \<Rightarrow> (delivery \<times> CleaningRequest) list" where
  "sending p = (case p of SendingClean d r \<Rightarrow> [(d, r)] | _ \<Rightarrow> [])"

definition good_selection :: "string list \<Rightarrow> bool" where
  "good_selection its \<longleftrightarrow> its \<noteq> [] \<and> distinct its \<and> set its \<subseteq> set ManagedStockItemNames"

lemma selection_good: "rand_ok draw drawn \<Longrightarrow> good_selection (selectItemsToRestock draw drawn)"
  using selected_items [of draw drawn] by (auto simp: good_selection_def)

definition mgr_inv :: "proto \<Rightarrow> nat \<Rightarrow> mgr_label list \<Rightarrow> mgr_state \<Rightarrow> bool" where
  "mgr_inv pb ccap ls m \<longleftrightarrow>
     accepted ls = dispatched ls @ sending (pos m) \<and>
     map snd (dispatched ls) = taken_clean ls @ cleaningCh m \<and>
     length (cleaningCh m) \<le> ccap \<and>
     (\<forall>(d, r) \<in> set (accepted ls). fst (UnmarshalCleaningRequest pb (Body d)) = Inr r) \<and>
     (\<forall>its \<in> set (restock_requests ls). good_selection its) \<and>
     (\<forall>its. pos m = SendingRestock its \<longrightarrow> good_selection its)"

lemma mgr_step_inv:
  assumes "mgr_step pb ccap scap m l m'" and inv: "mgr_inv pb ccap ls m"
  shows "mgr_inv pb ccap (ls @ [l]) m'"
  using assms(1)
proof cases
  case (day_change t ts b draw drawn chosen)
  with inv show ?thesis by (simp add: mgr_inv_def project_defs sending_def selection_good)
qed (use inv in \<open>auto simp: mgr_inv_def project_defs sending_def\<close>)

lemma mgr_run_inv:
  assumes "mgr_run pb ccap scap (mgr_start e sc) ls m"
  shows "mgr_inv pb ccap ls m"
proof -
  have "mgr_run pb ccap scap m0 ls m \<Longrightarrow> m0 = mgr_start e sc \<Longrightarrow> mgr_inv pb ccap ls m" for m0
  proof (induction rule: mgr_run.induct)
    case (refl m)
    then show ?case by (simp add: mgr_start_def mgr_inv_def project_defs sending_def)
  next
    case (step m ls m' l m'')
    then show ?case using mgr_step_inv by blast
  qed
  with assms show ?thesis by simp
qed

text \<open>A full channel holds the manager in its send, whatever has become of the context.\<close>

lemma mgr_blocked:
  assumes "pos m = SendingClean d r" "ccap \<le> length (cleaningCh m)" "own_label l"
  shows "\<not> mgr_step pb ccap scap m l m'"
proof
  assume "mgr_step pb ccap scap m l m'"
  then show False using assms by cases auto
qed

subsection \<open>What a step writes\<close>

text \<open>
  The settlements of messages and the log lines of each step, in order. A settlement that fails
  is only logged.
\<close>

datatype mgr_out = MSettle settlement delivery | MLog log_line

definition ackDelivery :: "delivery \<Rightarrow> string \<Rightarrow> mgr_out list" where
  "ackDelivery d name = MSettle Acked d #
     (if AckErr d \<noteq> None then [MLog (Error, ''failed to ack '' @ name)] else [])"

definition nackDelivery :: "delivery \<Rightarrow> string \<Rightarrow> mgr_out list" where
  "nackDelivery d name = MSettle Nacked d #
     (if NackErr d \<noteq> None then [MLog (Error, ''failed to nack '' @ name)] else [])"

fun mgr_output :: "proto \<Rightarrow> mgr_label \<Rightarrow> mgr_out list" where
  "mgr_output pb (Nack d) = map MLog (snd (UnmarshalCleaningRequest pb (Body d)) @
     [(Error, ''failed to unmarshalCleaningRequest cleaning request'')]) @ nackDelivery d ''cleaningRequest''"
| "mgr_output pb (Accept d r) = map MLog (snd (UnmarshalCleaningRequest pb (Body d)))"
| "mgr_output pb (Dispatch d r) = ackDelivery d ''cleaningRequest''"
| "mgr_output pb (NoStocker t) = [MLog (Error, ''stocker channel is not configured'')]"
| "mgr_output pb (DispatchRestock its) = [MLog (Debug, ''manager dispatched restock request'')]"
| "mgr_output pb ConsumerClosed = [MLog (Info, ''cleaning event consumer closed'')]"
| "mgr_output pb _ = []"

definition mgr_outputs :: "proto \<Rightarrow> mgr_label list \<Rightarrow> mgr_out list" where
  "mgr_outputs pb ls = concat (map (mgr_output pb) ls)"

fun settled :: "mgr_out list \<Rightarrow> (settlement \<times> delivery) list" where
  "settled [] = []"
| "settled (MSettle s d # os) = (s, d) # settled os"
| "settled (MLog l # os) = settled os"

lemma settled_simps [simp]:
  "settled (os @ os') = settled os @ settled os'" "settled (map MLog ls) = []"
  "settled (ackDelivery d n) = [(Acked, d)]" "settled (nackDelivery d n) = [(Nacked, d)]"
proof -
  show "settled (os @ os') = settled os @ settled os'" by (induction os rule: settled.induct) auto
  show "settled (map MLog ls) = []" by (induction ls) auto
qed (simp_all add: ackDelivery_def nackDelivery_def)

lemma mgr_outputs_simps [simp]:
  "mgr_outputs pb [] = []" "mgr_outputs pb (ls @ [l]) = mgr_outputs pb ls @ mgr_output pb l"
  by (simp_all add: mgr_outputs_def)

text \<open>The messages taken from the queue, and what is to become of each.\<close>

definition messages :: "mgr_label list \<Rightarrow> delivery list" where
  "messages = project (\<lambda>l. case l of Nack d \<Rightarrow> Some d | Accept d r \<Rightarrow> Some d | _ \<Rightarrow> None)"

definition verdict :: "proto \<Rightarrow> delivery \<Rightarrow> settlement \<times> delivery" where
  "verdict pb d = (if isl (fst (UnmarshalCleaningRequest pb (Body d))) then Nacked else Acked, d)"

definition settlement_failed :: "settlement \<times> delivery \<Rightarrow> bool" where
  "settlement_failed sd = (case sd of (Acked, d) \<Rightarrow> AckErr d \<noteq> None | (Nacked, d) \<Rightarrow> NackErr d \<noteq> None)"

definition settlement_errors :: "mgr_out list \<Rightarrow> mgr_out list" where
  "settlement_errors os = List.filter (\<lambda>x. x \<in> {MLog (Error, ''failed to ack cleaningRequest''),
     MLog (Error, ''failed to nack cleaningRequest'')}) os"

lemma settle_step:
  assumes "mgr_step pb ccap scap m l m'"
    and "map (verdict pb) (messages ls) = settled (mgr_outputs pb ls) @ map (\<lambda>(d, r). (Acked, d)) (sending (pos m))"
  shows "map (verdict pb) (messages (ls @ [l])) =
    settled (mgr_outputs pb (ls @ [l])) @ map (\<lambda>(d, r). (Acked, d)) (sending (pos m'))"
  using assms(1)
  by cases (use assms(2) in \<open>auto simp: messages_def sending_def verdict_def\<close>)

lemma unmarshal_logs:
  "set (snd (UnmarshalCleaningRequest pb body)) \<subseteq> {(Error, ''failed to unmarshalCleaningRequest cleaning request'')}"
  by (auto simp: UnmarshalCleaningRequest_def split: sum.splits option.splits if_splits)

lemma settlement_errors_step:
  "length (settlement_errors (mgr_output pb l)) = length (List.filter settlement_failed (settled (mgr_output pb l)))"
proof -
  have "settlement_errors (map MLog (snd (UnmarshalCleaningRequest pb body))) = []" for body
    using unmarshal_logs [of pb body] by (auto simp: settlement_errors_def filter_empty_conv)
  then show ?thesis
    by (cases l) (auto simp: settlement_errors_def ackDelivery_def nackDelivery_def settlement_failed_def)
qed

lemma settlement_errors_count:
  "length (settlement_errors (mgr_outputs pb ls)) = length (List.filter settlement_failed (settled (mgr_outputs pb ls)))"
proof (induction ls rule: rev_induct)
  case (snoc l ls)
  then show ?case using settlement_errors_step [of pb l] by (simp add: settlement_errors_def)
qed (simp add: settlement_errors_def)

lemma settle_run:
  assumes "mgr_run pb ccap scap (mgr_start e sc) ls m"
  shows "map (verdict pb) (messages ls) =
    settled (mgr_outputs pb ls) @ map (\<lambda>(d, r). (Acked, d)) (sending (pos m))"
proof -
  have "mgr_run pb ccap scap m0 ls m \<Longrightarrow> m0 = mgr_start e sc \<Longrightarrow> map (verdict pb) (messages ls) =
      settled (mgr_outputs pb ls) @ map (\<lambda>(d, r). (Acked, d)) (sending (pos m))" for m0
  proof (induction rule: mgr_run.induct)
    case (refl m)
    then show ?case by (simp add: mgr_start_def messages_def sending_def)
  next
    case (step m ls m' l m'')
    then show ?case using settle_step by blast
  qed
  with assms show ?thesis by simp
qed

subsection \<open>Properties\<close>

text \<open>C8: the manager passes on what it accepts: the messages it has accepted are those it has
  dispatched and acknowledged followed by the one in hand; what it has dispatched is what the
  housekeepers took followed by what waits in the channel, which never exceeds its capacity; each
  accepted request is the decoding of its message; and every restock request it has sent is a
  proper selection.\<close>

theorem manager_dispatches_in_order:
  assumes "mgr_run pb ccap scap (mgr_start e sc) ls m"
  shows "accepted ls = dispatched ls @ sending (pos m) \<and>
     map snd (dispatched ls) = taken_clean ls @ cleaningCh m \<and> length (cleaningCh m) \<le> ccap \<and>
     (\<forall>(d, r) \<in> set (accepted ls). fst (UnmarshalCleaningRequest pb (Body d)) = Inr r) \<and>
     (\<forall>its \<in> set (restock_requests ls). its \<noteq> [] \<and> distinct its \<and> set its \<subseteq> set ManagedStockItemNames)"
  using mgr_run_inv [OF assms] unfolding mgr_inv_def good_selection_def by blast

definition example_order :: delivery where
  "example_order = \<lparr>Body = char_of (1 :: nat) # ''oak'', AckErr = None, NackErr = None\<rparr>"

definition example_request :: CleaningRequest where
  "example_request = \<lparr>RoomName = ''oak'', RequestType = ''PREPARE_FOR_GUEST''\<rparr>"

lemma example_order_decodes: "fst (UnmarshalCleaningRequest example_proto (Body example_order)) = Inr example_request"
proof -
  have "\<not> blank ''oak''" unfolding TrimSpace_empty_iff [symmetric] by code_simp
  moreover have "of_char (char_of (1 :: nat)) = (1 :: int)" by code_simp
  ultimately show ?thesis
    unfolding UnmarshalCleaningRequest_ok
    by (simp del: One_nat_def add: example_proto_def example_order_def example_request_def RequestType_String_def RequestType_name_def)
qed

definition example_orders :: "mgr_label list" where
  "example_orders = [Accept example_order example_request, Dispatch example_order example_request,
     Accept example_order example_request, EnvCancel]"

lemma example_mgr_run:
  "mgr_run example_proto 1 1 (mgr_start None (Some [])) example_orders
     \<lparr>pos = SendingClean example_order example_request, cleaningCh = [example_request], stockerCh = Some [],
      dayChangeCh = [], mgrCtxDone = True\<rparr>"
proof -
  let ?m0 = "mgr_start None (Some [])"
  note acc = mgr_step.accept [OF _ example_order_decodes, where ccap = 1 and scap = 1]
  have m0: "pos ?m0 = AtSelect" by (simp add: mgr_start_def)
  note 1 = mgr_run.step [OF mgr_run.refl acc [OF m0]]
  have "length (cleaningCh (?m0\<lparr>pos := SendingClean example_order example_request\<rparr>)) < 1" by (simp add: mgr_start_def)
  note 2 = mgr_run.step [OF 1 mgr_step.dispatch [OF _ this, of example_order example_request]]
  note 3 = mgr_run.step [OF 2 acc]
  note 4 = mgr_run.step [OF 3 mgr_step.env_cancel]
  from 4 show ?thesis by (simp add: mgr_start_def example_orders_def)
qed

theorem manager_dispatches_in_order_witness:
  "accepted example_orders = dispatched example_orders @ [(example_order, example_request)] \<and>
   map snd (dispatched example_orders) = [example_request]"
proof -
  have "taken_clean example_orders = []" by (simp add: taken_clean_def project_def example_orders_def map_filter_def)
  with manager_dispatches_in_order [OF example_mgr_run] show ?thesis by (simp add: sending_def)
qed



text \<open>The two sends of the loop do not watch the context: while the channel to the housekeepers is
  full the manager can do nothing, even after the context is done, until a housekeeper takes a
  request.\<close>

theorem full_channel_blocks_manager:
  assumes "pos m = SendingClean d r" "length (cleaningCh m) = ccap" "mgr_step pb ccap scap m l m'" "ccap > 0"
  shows "\<not> own_label l \<and> (\<exists>x. mgr_step pb ccap scap m (EnvTakeClean x) (m\<lparr>cleaningCh := tl (cleaningCh m)\<rparr>))"
proof -
  have "\<not> own_label l" using mgr_blocked [OF assms(1)] assms(2,3) by auto
  moreover from assms(2,4) obtain x xs where x: "cleaningCh m = x # xs" by (cases "cleaningCh m") auto
  with mgr_step.env_take_clean [OF x, of pb ccap scap] show ?thesis using calculation by auto
qed

theorem full_channel_blocks_manager_witness:
  "\<exists>m. mgr_run example_proto 1 1 (mgr_start None (Some [])) example_orders m \<and> mgrCtxDone m \<and>
     \<not> mgr_step example_proto 1 1 m CtxStop (m\<lparr>pos := Returned\<rparr>)"
proof -
  let ?m = "\<lparr>pos = SendingClean example_order example_request, cleaningCh = [example_request], stockerCh = Some [],
      dayChangeCh = [], mgrCtxDone = True\<rparr>"
  have "\<not> mgr_step example_proto 1 1 ?m CtxStop (?m\<lparr>pos := Returned\<rparr>)"
  proof
    assume "mgr_step example_proto 1 1 ?m CtxStop (?m\<lparr>pos := Returned\<rparr>)"
    from full_channel_blocks_manager [OF _ _ this, of example_order example_request] show False by simp
  qed
  with example_mgr_run show ?thesis by (intro exI [of _ ?m]) simp
qed

end
