(* ===== verification/Mq.thy ===== *)
theory Mq
  imports Domain
begin

text \<open>
  \<^verbatim>\<open>internal/infra/mq\<close>: the connection that redials, the channels opened on it, the
  consumer and the producer; and the part of \<^verbatim>\<open>internal/infra/init.go\<close> that sets up the
  three consumers. The AMQP library is the parameter \<open>amqp\<close>, over a state \<open>'b\<close> of the broker
  and the network, which may change with every call (a connection may die between two of them).
  Connections and channels are numbered by the library.
\<close>

subsection \<open>Configuration\<close>

record RabbitMqConfig =
  Username :: string
  Password :: string
  Host :: string
  Port :: int

record ExchangeConfig =
  ExName :: string
  Kind :: string
  ExDurable :: bool
  ExAutoDelete :: bool
  ExInternal :: bool
  ExNoWait :: bool

record QueueConfig =
  QName :: string
  QDurable :: bool
  QAutoDelete :: bool
  QExclusive :: bool
  QNoWait :: bool

record BindingConfig =
  ExchangeName :: string
  RoutingKey :: string
  BNoWait :: bool

record PublishConfig =
  Mandatory :: bool
  Immediate :: bool

record ConsumeConfig =
  Consumer :: string
  AutoAck :: bool
  CExclusive :: bool
  NoLocal :: bool
  CNoWait :: bool

record URI =
  Scheme :: string
  UriUsername :: string
  UriPassword :: string
  UriHost :: string
  UriPort :: int

record Publishing =
  ContentType :: string
  PubBody :: string
  DeliveryMode :: int
  Headers :: "(string \<times> string) list"
  PubTimestamp :: time

subsection \<open>The library\<close>

record ('b, 'm) amqp =
  UriString :: "URI \<Rightarrow> string"
  Dial :: "string \<Rightarrow> 'b \<Rightarrow> (go_error + nat) \<times> 'b"
  ConnIsClosed :: "nat \<Rightarrow> 'b \<Rightarrow> bool \<times> 'b"
  ConnClose :: "nat \<Rightarrow> 'b \<Rightarrow> go_error option \<times> 'b"
  ConnChannel :: "nat \<Rightarrow> 'b \<Rightarrow> (go_error + nat) \<times> 'b"
  ChanIsClosed :: "nat \<Rightarrow> 'b \<Rightarrow> bool \<times> 'b"
  ChanClose :: "nat \<Rightarrow> 'b \<Rightarrow> go_error option \<times> 'b"
  QueueDeclare :: "nat \<Rightarrow> QueueConfig \<Rightarrow> 'b \<Rightarrow> (go_error + string) \<times> 'b"
  QueueBind :: "nat \<Rightarrow> string \<Rightarrow> string \<Rightarrow> string \<Rightarrow> bool \<Rightarrow> 'b \<Rightarrow> go_error option \<times> 'b"
  ConsumeWithContext :: "nat \<Rightarrow> string \<Rightarrow> ConsumeConfig \<Rightarrow> 'b \<Rightarrow> (go_error + nat) \<times> 'b"
  ExchangeDeclare :: "nat \<Rightarrow> string \<Rightarrow> string \<Rightarrow> ExchangeConfig \<Rightarrow> 'b \<Rightarrow> go_error option \<times> 'b"
  PublishWithContext :: "nat \<Rightarrow> string \<Rightarrow> string \<Rightarrow> PublishConfig \<Rightarrow> Publishing \<Rightarrow> 'b \<Rightarrow> go_error option \<times> 'b"
  Marshal :: "'m \<Rightarrow> go_error + string"

text \<open>
  The state of one connection: the library's, the struct (\<open>cfg\<close> is fixed), and what the code did
  that a caller can notice: dials with their outcome, pauses in seconds, and log records.
\<close>

datatype mq_event = MqDial bool | MqSleep int | MqLog level string

record RabbitMqConnection =
  conn :: "nat option"
  cfg :: RabbitMqConfig
  closed :: bool

record 'b mq =
  broker :: 'b
  connection :: RabbitMqConnection
  trace :: "mq_event list"

definition lib :: "('b \<Rightarrow> 'a \<times> 'b) \<Rightarrow> 'b mq \<Rightarrow> 'a \<times> 'b mq" where
  "lib f m = (case f (broker m) of (r, b) \<Rightarrow> (r, m\<lparr>broker := b\<rparr>))"

definition emit :: "mq_event \<Rightarrow> 'b mq \<Rightarrow> 'b mq" where
  "emit e m = m\<lparr>trace := trace m @ [e]\<rparr>"

definition set_conn :: "nat \<Rightarrow> 'b mq \<Rightarrow> 'b mq" where
  "set_conn c m = m\<lparr>connection := (connection m)\<lparr>conn := Some c\<rparr>\<rparr>"

subsection \<open>The connection (rabbitmq\_connection.go)\<close>

definition rabbitDialAttempts :: nat where "rabbitDialAttempts = 5"
definition rabbitDialBackoff :: int where "rabbitDialBackoff = 2"

definition connection_closed :: go_error where
  "connection_closed = ErrorString ''rabbitmq connection closed''"

text \<open>The loop of \<open>reconnectLocked\<close> with \<open>left\<close> attempts to go.\<close>

fun dial_loop :: "('b, 'm) amqp \<Rightarrow> string \<Rightarrow> nat \<Rightarrow> go_error \<Rightarrow> 'b mq \<Rightarrow> go_error option \<times> 'b mq" where
  "dial_loop A uri 0 lastErr m =
     (Some (WrapError (''dial rabbitmq after '' @ show_nat rabbitDialAttempts @ '' attempts: '') lastErr), m)"
| "dial_loop A uri (Suc left) lastErr m =
     (case lib (Dial A uri) m of
        (Inr c, m1) \<Rightarrow> (None, set_conn c (emit (MqDial True) m1))
      | (Inl err, m1) \<Rightarrow>
          (let m2 = emit (MqLog Warn ''rabbitmq dial failed'') (emit (MqDial False) m1);
               m3 = if 0 < left then emit (MqSleep rabbitDialBackoff) m2 else m2
           in dial_loop A uri left err m3))"

definition reconnectLocked :: "('b, 'm) amqp \<Rightarrow> 'b mq \<Rightarrow> go_error option \<times> 'b mq" where
  "reconnectLocked A m =
     (if closed (connection m) then (Some connection_closed, m)
      else
        (let c = cfg (connection m);
             uri = \<lparr>Scheme = ''amqp'', UriUsername = Username c, UriPassword = Password c,
                    UriHost = Host c, UriPort = Port c\<rparr>
         in dial_loop A (UriString A uri) rabbitDialAttempts (ErrorString '''') m))"

definition NewRabbitMqConnection ::
    "('b, 'm) amqp \<Rightarrow> RabbitMqConfig \<Rightarrow> 'b \<Rightarrow> go_error option \<times> 'b mq" where
  "NewRabbitMqConnection A config b =
     (case reconnectLocked A \<lparr>broker = b, connection = \<lparr>conn = None, cfg = config, closed = False\<rparr>, trace = []\<rparr> of
        (Some err, m) \<Rightarrow> (Some err, m)
      | (None, m) \<Rightarrow> (None, emit (MqLog Info ''rabbitmq connection established'') m))"

definition IsConnectionOpen :: "('b, 'm) amqp \<Rightarrow> 'b mq \<Rightarrow> bool \<times> 'b mq" where
  "IsConnectionOpen A m =
     (case conn (connection m) of
        None \<Rightarrow> (False, m)
      | Some c \<Rightarrow> (case lib (ConnIsClosed A c) m of (b, m') \<Rightarrow> (\<not> b, m')))"

definition CloseConnection :: "('b, 'm) amqp \<Rightarrow> 'b mq \<Rightarrow> go_error option \<times> 'b mq" where
  "CloseConnection A m =
     (let m0 = m\<lparr>connection := (connection m)\<lparr>closed := True\<rparr>\<rparr>
      in case conn (connection m0) of
           None \<Rightarrow> (None, m0)
         | Some c \<Rightarrow>
             (case lib (ConnIsClosed A c) m0 of (b, m1) \<Rightarrow>
                if b then (None, m1) else lib (ConnClose A c) m1))"

definition openConnection :: "('b, 'm) amqp \<Rightarrow> 'b mq \<Rightarrow> (go_error + nat) \<times> 'b mq" where
  "openConnection A m =
     (if closed (connection m) then (Inl connection_closed, m)
      else
        (case (case conn (connection m) of
                 None \<Rightarrow> (None, m)
               | Some c \<Rightarrow> (case lib (ConnIsClosed A c) m of (b, m1) \<Rightarrow> (if b then None else Some c, m1))) of
           (Some c, m1) \<Rightarrow> (Inr c, m1)
         | (None, m1) \<Rightarrow>
             (case reconnectLocked A m1 of
                (Some err, m2) \<Rightarrow> (Inl err, m2)
              | (None, m2) \<Rightarrow> (case conn (connection m2) of Some c \<Rightarrow> (Inr c, m2) | None \<Rightarrow> (Inl connection_closed, m2)))))"

subsection \<open>Channels (rabbitmq\_channel.go)\<close>

text \<open>A channel's only field of its own is \<open>channel\<close>, passed in and returned.\<close>

definition openChannel :: "('b, 'm) amqp \<Rightarrow> nat option \<Rightarrow> 'b mq \<Rightarrow> go_error option \<times> nat option \<times> 'b mq" where
  "openChannel A ch m =
     (case openConnection A m of
        (Inl err, m1) \<Rightarrow> (Some err, ch, m1)
      | (Inr c, m1) \<Rightarrow>
     (case lib (ConnChannel A c) m1 of
        (Inr x, m2) \<Rightarrow> (None, Some x, m2)
      | (Inl err, m2) \<Rightarrow>
     (case lib (ConnIsClosed A c) m2 of
        (False, m3) \<Rightarrow> (Some err, ch, m3)
      | (True, m3) \<Rightarrow>
     (case openConnection A m3 of
        (Inl openErr, m4) \<Rightarrow> (Some openErr, ch, m4)
      | (Inr c', m4) \<Rightarrow>
     (case lib (ConnChannel A c') m4 of
        (Inl err', m5) \<Rightarrow> (Some err', ch, m5)
      | (Inr x, m5) \<Rightarrow> (None, Some x, m5))))))"

definition reopenChannel :: "('b, 'm) amqp \<Rightarrow> nat option \<Rightarrow> 'b mq \<Rightarrow> go_error option \<times> nat option \<times> 'b mq" where
  "reopenChannel A ch m =
     (case openChannel A ch (emit (MqLog Warn ''channel is closed, opening a new one'') m) of
        (Some err, ch', m1) \<Rightarrow>
          (Some (MqUnexpectedErr ''unexpected error when reopening channel'' err), ch',
           emit (MqLog Error ''failed to open channel'') m1)
      | (None, ch', m1) \<Rightarrow> (None, ch', m1))"

definition CloseChannel :: "('b, 'm) amqp \<Rightarrow> nat option \<Rightarrow> 'b mq \<Rightarrow> go_error option \<times> 'b mq" where
  "CloseChannel A ch m =
     (case ch of
        None \<Rightarrow> (None, m)
      | Some x \<Rightarrow>
          (case lib (ChanIsClosed A x) m of (b, m1) \<Rightarrow>
             if b then (None, m1) else lib (ChanClose A x) m1))"

text \<open>The guard \<open>channel == nil || channel.IsClosed()\<close> before most calls.\<close>

definition ensureChannel :: "('b, 'm) amqp \<Rightarrow> nat option \<Rightarrow> 'b mq \<Rightarrow> go_error option \<times> nat option \<times> 'b mq" where
  "ensureChannel A ch m =
     (case ch of
        None \<Rightarrow> reopenChannel A ch m
      | Some x \<Rightarrow>
          (case lib (ChanIsClosed A x) m of (b, m1) \<Rightarrow>
             if b then reopenChannel A ch m1 else (None, ch, m1)))"

subsection \<open>The consumer (rabbitmq\_consumer.go)\<close>


record rabbitmqConsumer =
  c_channel :: "nat option"
  queue :: "string option"
  consumeConfig :: ConsumeConfig

definition NewRabbitmqConsumer ::
    "('b, 'm) amqp \<Rightarrow> ConsumeConfig \<Rightarrow> 'b mq \<Rightarrow> rabbitmqConsumer go_result \<times> 'b mq" where
  "NewRabbitmqConsumer A config m =
     (case openChannel A None m of
        (Some err, ch, m1) \<Rightarrow> (Err err, m1)
      | (None, ch, m1) \<Rightarrow> (Ok \<lparr>c_channel = ch, queue = None, consumeConfig = config\<rparr>, m1))"

text \<open>The verb \<open>%q\<close>, for text whose bytes above 127 are printable runes.\<close>

definition hex_digit :: "nat \<Rightarrow> char" where
  "hex_digit n = ''0123456789abcdef'' ! (n mod 16)"

definition quote_char :: "char \<Rightarrow> string" where
  "quote_char c =
     (let n = (of_char c :: nat); bs = char_of (92 :: nat) in
      if n = 34 \<or> n = 92 then [bs, c]
      else if n = 7 then [bs, CHR ''a''] else if n = 8 then [bs, CHR ''b'']
      else if n = 9 then [bs, CHR ''t''] else if n = 10 then [bs, CHR ''n'']
      else if n = 11 then [bs, CHR ''v''] else if n = 12 then [bs, CHR ''f'']
      else if n = 13 then [bs, CHR ''r'']
      else if n < 32 \<or> n = 127 then [bs, CHR ''x'', hex_digit (n div 16), hex_digit n]
      else [c])"

definition quote :: "string \<Rightarrow> string" where
  "quote s = [char_of (34 :: nat)] @ concat (map quote_char s) @ [char_of (34 :: nat)]"

definition DeclareQueue ::
    "('b, 'm) amqp \<Rightarrow> QueueConfig \<Rightarrow> rabbitmqConsumer \<Rightarrow> 'b mq \<Rightarrow> unit go_result \<times> rabbitmqConsumer \<times> 'b mq" where
  "DeclareQueue A config c m =
     (case ensureChannel A (c_channel c) m of
        (Some err, ch, m1) \<Rightarrow> (Err err, c\<lparr>c_channel := ch\<rparr>, m1)
      | (None, None, m1) \<Rightarrow> (Panicked ''nil pointer dereference'', c\<lparr>c_channel := None\<rparr>, m1)
      | (None, Some x, m1) \<Rightarrow>
          (case lib (QueueDeclare A x config) m1 of
             (Inl err, m2) \<Rightarrow>
               (Err (WrapError (''declare queue '' @ quote (QName config) @ '': '') err), c\<lparr>c_channel := Some x\<rparr>, m2)
           | (Inr q, m2) \<Rightarrow> (Ok (), c\<lparr>c_channel := Some x, queue := Some q\<rparr>, m2)))"

definition BindQueue ::
    "('b, 'm) amqp \<Rightarrow> BindingConfig \<Rightarrow> rabbitmqConsumer \<Rightarrow> 'b mq \<Rightarrow> unit go_result \<times> rabbitmqConsumer \<times> 'b mq" where
  "BindQueue A config c m =
     (case ensureChannel A (c_channel c) m of
        (Some err, ch, m1) \<Rightarrow> (Err err, c\<lparr>c_channel := ch\<rparr>, m1)
      | (None, ch, m1) \<Rightarrow>
     (let c1 = c\<lparr>c_channel := ch\<rparr> in
      case queue c of
        None \<Rightarrow> (Err (ErrorString ''queue not declared''), c1, m1)
      | Some q \<Rightarrow>
          if ExchangeName config = '''' then (Err (ErrorString ''exchange name is required''), c1, m1)
          else
            (case ch of
               None \<Rightarrow> (Panicked ''nil pointer dereference'', c1, m1)
             | Some x \<Rightarrow>
                 (case lib (QueueBind A x q (RoutingKey config) (ExchangeName config) (BNoWait config)) m1 of
                    (Some err, m2) \<Rightarrow>
                      (Err (WrapError (''bind queue '' @ quote q @ '' to exchange '' @ quote (ExchangeName config)
                          @ '' with routing key '' @ quote (RoutingKey config) @ '': '') err), c1, m2)
                  | (None, m2) \<Rightarrow> (Ok (), c1, m2)))))"

definition Consume ::
    "('b, 'm) amqp \<Rightarrow> rabbitmqConsumer \<Rightarrow> 'b mq \<Rightarrow> nat go_result \<times> rabbitmqConsumer \<times> 'b mq" where
  "Consume A c m =
     (case (case c_channel c of None \<Rightarrow> reopenChannel A None m | Some x \<Rightarrow> (None, Some x, m)) of
        (Some err, ch, m1) \<Rightarrow> (Err err, c\<lparr>c_channel := ch\<rparr>, m1)
      | (None, ch, m1) \<Rightarrow>
     (let c1 = c\<lparr>c_channel := ch\<rparr> in
      case (ch, queue c) of
        (Some x, Some q) \<Rightarrow>
          (case lib (ConsumeWithContext A x q (consumeConfig c)) m1 of
             (Inl err, m2) \<Rightarrow>
               (Err (MqUnexpectedErr (''start consuming queue '' @ quote q) err), c1,
                emit (MqLog Error ''failed to consume queue'') m2)
           | (Inr d, m2) \<Rightarrow> (Ok d, c1, m2))
      | _ \<Rightarrow> (Panicked ''nil pointer dereference'', c1, m1)))"

subsection \<open>The producer (rabbitmq\_producer.go)\<close>

text \<open>
  \<open>headers\<close> is what the propagator injects, \<open>None\<close> if the context carries no trace;
  \<open>at\<close> is \<open>time.Now()\<close>.
\<close>

record rabbitmqProducer =
  p_channel :: "nat option"
  exchangeName :: string
  exchangeKind :: string
  publishConfig :: PublishConfig

definition NewRabbitmqProducer ::
    "('b, 'm) amqp \<Rightarrow> PublishConfig \<Rightarrow> 'b mq \<Rightarrow> rabbitmqProducer go_result \<times> 'b mq" where
  "NewRabbitmqProducer A config m =
     (case openChannel A None m of
        (Some err, ch, m1) \<Rightarrow> (Err err, m1)
      | (None, ch, m1) \<Rightarrow>
          (Ok \<lparr>p_channel = ch, exchangeName = '''', exchangeKind = '''', publishConfig = config\<rparr>, m1))"

definition DeclareExchange ::
    "('b, 'm) amqp \<Rightarrow> ExchangeConfig \<Rightarrow> rabbitmqProducer \<Rightarrow> 'b mq \<Rightarrow> unit go_result \<times> rabbitmqProducer \<times> 'b mq" where
  "DeclareExchange A config p m =
     (let p0 = p\<lparr>exchangeName := ExName config, exchangeKind := Kind config\<rparr>;
          (p1, m1) = (if Kind config = ''''
                      then (p0\<lparr>exchangeKind := ''direct''\<rparr>,
                            emit (MqLog Warn (''exchange kind not specified, defaulting to '' @ [CHR 0x27] @ ''direct'' @ [CHR 0x27])) m)
                      else (p0, m))
      in case ensureChannel A (p_channel p1) m1 of
           (Some err, ch, m2) \<Rightarrow> (Err err, p1\<lparr>p_channel := ch\<rparr>, m2)
         | (None, None, m2) \<Rightarrow> (Panicked ''nil pointer dereference'', p1\<lparr>p_channel := None\<rparr>, m2)
         | (None, Some x, m2) \<Rightarrow>
             (case lib (ExchangeDeclare A x (exchangeName p1) (exchangeKind p1) config) m2 of
                (Some err, m3) \<Rightarrow>
                  (Err (WrapError (''declare exchange '' @ quote (ExName config) @ '': '') err),
                   p1\<lparr>p_channel := Some x\<rparr>, m3)
              | (None, m3) \<Rightarrow> (Ok (), p1\<lparr>p_channel := Some x\<rparr>, m3)))"

definition Publish ::
    "('b, 'm) amqp \<Rightarrow> 'm \<Rightarrow> string \<Rightarrow> (string \<times> string) list option \<Rightarrow> time \<Rightarrow>
     rabbitmqProducer \<Rightarrow> 'b mq \<Rightarrow> unit go_result \<times> rabbitmqProducer \<times> 'b mq" where
  "Publish A message routingKey headers at p m =
     (case ensureChannel A (p_channel p) m of
        (Some err, ch, m1) \<Rightarrow> (Err err, p\<lparr>p_channel := ch\<rparr>, m1)
      | (None, ch, m1) \<Rightarrow>
     (let p1 = p\<lparr>p_channel := ch\<rparr> in
      case Marshal A message of
        Inl err \<Rightarrow> (Err (MqUnexpectedErr ''failed to marshal message'' err), p1,
                    emit (MqLog Error ''failed to marshal message'') m1)
      | Inr payload \<Rightarrow>
          (case ch of
             None \<Rightarrow> (Panicked ''nil pointer dereference'', p1, m1)
           | Some x \<Rightarrow>
               (case lib (PublishWithContext A x (exchangeName p) routingKey (publishConfig p)
                       \<lparr>ContentType = ''application/protobuf'', PubBody = payload, DeliveryMode = 2,
                        Headers = (case headers of None \<Rightarrow> [] | Some hs \<Rightarrow> hs), PubTimestamp = at\<rparr>) m1 of
                  (Some err, m2) \<Rightarrow> (Err (MqUnexpectedErr ''failed to publish message'' err), p1,
                                     emit (MqLog Error ''failed to publish message'') m2)
                | (None, m2) \<Rightarrow> (Ok (), p1, m2)))))"

subsection \<open>Setting up the consumers (infra/init.go)\<close>

definition declareAndBindConsumer ::
    "('b, 'm) amqp \<Rightarrow> rabbitmqConsumer \<Rightarrow> QueueConfig \<Rightarrow> BindingConfig \<Rightarrow> 'b mq \<Rightarrow>
     unit go_result \<times> rabbitmqConsumer \<times> 'b mq" where
  "declareAndBindConsumer A c queueCfg bindingCfg m =
     (case DeclareQueue A queueCfg c m of
        (Ok u, c1, m1) \<Rightarrow> BindQueue A bindingCfg c1 m1
      | r \<Rightarrow> r)"

record consumer_cfg =
  Queue :: QueueConfig
  Binding :: BindingConfig
  ConsumeCfg :: ConsumeConfig

record Rabbitmq =
  CleaningConsumer :: rabbitmqConsumer
  DayChangeConsumer :: rabbitmqConsumer
  HourChangeConsumer :: rabbitmqConsumer

text \<open>Go on with the value of a call that succeeded, return what it returned otherwise.\<close>

fun bind_result :: "'a go_result \<times> 's \<Rightarrow> ('a \<Rightarrow> 's \<Rightarrow> 'c go_result \<times> 's) \<Rightarrow> 'c go_result \<times> 's" where
  "bind_result (Ok x, m) f = f x m"
| "bind_result (Err e, m) f = (Err e, m)"
| "bind_result (Panicked p, m) f = (Panicked p, m)"

definition bound_consumer ::
    "('b, 'm) amqp \<Rightarrow> rabbitmqConsumer \<Rightarrow> consumer_cfg \<Rightarrow> 'b mq \<Rightarrow> rabbitmqConsumer go_result \<times> 'b mq" where
  "bound_consumer A c k m =
     (case declareAndBindConsumer A c (Queue k) (Binding k) m of
        (Ok u, c1, m1) \<Rightarrow> (Ok c1, m1) | (Err e, c1, m1) \<Rightarrow> (Err e, m1) | (Panicked p, c1, m1) \<Rightarrow> (Panicked p, m1))"

text \<open>The three consumers share the connection: all are opened first, then declared and bound.\<close>

definition NewRabbitmq ::
    "('b, 'm) amqp \<Rightarrow> RabbitMqConfig \<Rightarrow> consumer_cfg \<Rightarrow> consumer_cfg \<Rightarrow> consumer_cfg \<Rightarrow> 'b \<Rightarrow>
     Rabbitmq go_result \<times> 'b mq" where
  "NewRabbitmq A config cleaning dayChange hourChange b =
     (case NewRabbitMqConnection A config b of
        (Some err, m) \<Rightarrow> (Err err, m)
      | (None, m) \<Rightarrow>
          bind_result (NewRabbitmqConsumer A (ConsumeCfg cleaning) m) (\<lambda>c1 m.
          bind_result (NewRabbitmqConsumer A (ConsumeCfg dayChange) m) (\<lambda>c2 m.
          bind_result (NewRabbitmqConsumer A (ConsumeCfg hourChange) m) (\<lambda>c3 m.
          bind_result (bound_consumer A c1 cleaning m) (\<lambda>c1 m.
          bind_result (bound_consumer A c2 dayChange m) (\<lambda>c2 m.
          bind_result (bound_consumer A c3 hourChange m) (\<lambda>c3 m.
            (Ok \<lparr>CleaningConsumer = c1, DayChangeConsumer = c2, HourChangeConsumer = c3\<rparr>, m))))))))"

subsection \<open>Dialling\<close>

definition dials :: "mq_event list \<Rightarrow> bool list" where
  "dials es = List.map_filter (\<lambda>e. case e of MqDial b \<Rightarrow> Some b | _ \<Rightarrow> None) es"

definition waited :: "mq_event list \<Rightarrow> int" where
  "waited es = sum_list (map (\<lambda>e. case e of MqSleep s \<Rightarrow> s | _ \<Rightarrow> 0) es)"

lemma trace_simps [simp]:
  "dials [] = []" "waited [] = 0"
  "dials (es @ fs) = dials es @ dials fs" "waited (es @ fs) = waited es + waited fs"
  "dials (MqDial b # es) = b # dials es" "dials (MqSleep s # es) = dials es" "dials (MqLog l t # es) = dials es"
  "waited (MqDial b # es) = waited es" "waited (MqSleep s # es) = s + waited es" "waited (MqLog l t # es) = waited es"
  by (simp_all add: dials_def waited_def map_filter_def)

lemma lib_frame: "lib f m = (r, m') \<Longrightarrow> connection m' = connection m \<and> trace m' = trace m"
  by (auto simp: lib_def split: prod.splits)

lemma emit_simps [simp]:
  "connection (emit e m) = connection m" "broker (emit e m) = broker m" "trace (emit e m) = trace m @ [e]"
  "connection (set_conn c m) = (connection m)\<lparr>conn := Some c\<rparr>" "broker (set_conn c m) = broker m"
  "trace (set_conn c m) = trace m"
  by (simp_all add: emit_def set_conn_def)

text \<open>
  The attempts stop with the first that succeeds or when none is left; between two attempts there
  is one pause, after the last there is none.
\<close>

definition dial_outcome :: "nat \<Rightarrow> 'b mq \<Rightarrow> go_error option \<Rightarrow> 'b mq \<Rightarrow> mq_event list \<Rightarrow> nat \<Rightarrow> bool" where
  "dial_outcome left m r m' es k \<longleftrightarrow>
     trace m' = trace m @ es \<and> k < left \<and> waited es = rabbitDialBackoff * int k \<and>
     cfg (connection m') = cfg (connection m) \<and> closed (connection m') = closed (connection m) \<and>
     (case r of
        None \<Rightarrow> dials es = replicate k False @ [True] \<and> conn (connection m') \<noteq> None
      | Some e' \<Rightarrow> dials es = replicate (Suc k) False \<and> Suc k = left \<and> connection m' = connection m \<and>
          (\<exists>e''. e' = WrapError (''dial rabbitmq after '' @ show_nat rabbitDialAttempts @ '' attempts: '') e''))"

lemma dial_loop_trace:
  "dial_loop A uri left e m = (r, m') \<Longrightarrow> 0 < left \<Longrightarrow> \<exists>es k. dial_outcome left m r m' es k"
proof (induction left arbitrary: e m)
  case (Suc left)
  obtain r1 m1 where d: "lib (Dial A uri) m = (r1, m1)" by fastforce
  note fr = lib_frame [OF d]
  show ?case
  proof (cases r1)
    case (Inr c)
    with Suc.prems(1) d fr have "dial_outcome (Suc left) m r m' [MqDial True] 0"
      by (auto simp: dial_outcome_def)
    then show ?thesis by blast
  next
    case (Inl err)
    define m2 where "m2 = emit (MqLog Warn ''rabbitmq dial failed'') (emit (MqDial False) m1)"
    show ?thesis
    proof (cases "left = 0")
      case True
      with Suc.prems(1) d Inl fr
      have "dial_outcome (Suc left) m r m' [MqDial False, MqLog Warn ''rabbitmq dial failed''] 0"
        by (auto simp: dial_outcome_def)
      then show ?thesis by blast
    next
      case False
      define m3 where "m3 = emit (MqSleep rabbitDialBackoff) m2"
      from Suc.prems(1) d Inl False have "dial_loop A uri left err m3 = (r, m')"
        by (simp add: Let_def m2_def m3_def)
      from Suc.IH [OF this] False obtain es k where "dial_outcome left m3 r m' es k" by blast
      then have "dial_outcome (Suc left) m r m'
          ([MqDial False, MqLog Warn ''rabbitmq dial failed'', MqSleep rabbitDialBackoff] @ es) (Suc k)"
        using fr by (auto simp: dial_outcome_def m2_def m3_def algebra_simps split: option.splits)
      then show ?thesis by blast
    qed
  qed
qed simp

subsection \<open>What an operation may do to the connection\<close>

text \<open>At most \<open>n\<close> dials; the configuration stays, and so does whether it is closed.\<close>

definition within :: "nat \<Rightarrow> 'b mq \<Rightarrow> 'b mq \<Rightarrow> bool" where
  "within n m m' \<longleftrightarrow>
     (\<exists>es. trace m' = trace m @ es \<and> length (dials es) \<le> n) \<and>
     cfg (connection m') = cfg (connection m) \<and> closed (connection m') = closed (connection m)"

lemma within_refl: "within n m m"
  unfolding within_def by (metis append_Nil2 le0 list.size(3) trace_simps(1))

lemma within_trans: "within n m1 m2 \<Longrightarrow> within k m2 m3 \<Longrightarrow> within (n + k) m1 m3"
  unfolding within_def by (elim conjE exE, intro conjI exI) (auto intro: add_mono)

lemma within_lib: "lib f m = (r, m') \<Longrightarrow> within 0 m m'"
  using lib_frame [of f m r m'] by (auto simp: within_def intro: exI [of _ "[]"])

lemma within_emit: "within 0 m (emit (MqLog l t) m)"
  by (auto simp: within_def intro: exI [of _ "[MqLog l t]"])

lemma within_mono: "within n m m' \<Longrightarrow> n \<le> k \<Longrightarrow> within k m m'"
  unfolding within_def using le_trans by blast

lemma reconnect_within:
  assumes "reconnectLocked A m = (r, m')"
  shows "within rabbitDialAttempts m m' \<and> (closed (connection m) \<longrightarrow> m' = m \<and> r = Some connection_closed) \<and>
    (r = None \<longrightarrow> conn (connection m') \<noteq> None)"
proof (cases "closed (connection m)")
  case True
  with assms within_refl show ?thesis by (auto simp: reconnectLocked_def)
next
  case False
  with assms obtain uri e where "dial_loop A uri rabbitDialAttempts e m = (r, m')"
    by (auto simp: reconnectLocked_def Let_def)
  from dial_loop_trace [OF this] obtain es k where "dial_outcome rabbitDialAttempts m r m' es k"
    by (auto simp: rabbitDialAttempts_def)
  with False show ?thesis
    unfolding within_def dial_outcome_def by (auto split: option.splits intro!: exI [of _ es])
qed

lemma openConnection_within:
  assumes "openConnection A m = (r, m')"
  shows "within rabbitDialAttempts m m' \<and> (closed (connection m) \<longrightarrow> m' = m \<and> r = Inl connection_closed) \<and>
    (\<forall>c. r = Inr c \<longrightarrow> conn (connection m') = Some c)"
proof (cases "closed (connection m)")
  case True
  with assms within_refl show ?thesis by (auto simp: openConnection_def)
next
  case False
  obtain live m1 where l: "(case conn (connection m) of
                 None \<Rightarrow> (None, m)
               | Some c \<Rightarrow> (case lib (ConnIsClosed A c) m of (b, m1) \<Rightarrow> (if b then None else Some c, m1))) = (live, m1)"
    by fastforce
  then have w: "within 0 m m1" and c: "connection m1 = connection m" and
    lv: "live = None \<or> live = conn (connection m)"
    by (auto split: option.splits prod.splits if_splits intro: within_refl within_lib dest: lib_frame)
  show ?thesis
  proof (cases live)
    case (Some x)
    with assms l False lv c within_mono [OF w] show ?thesis by (auto simp: openConnection_def)
  next
    case None
    obtain e m2 where r: "reconnectLocked A m1 = (e, m2)" by fastforce
    note rw = reconnect_within [OF r]
    have "within rabbitDialAttempts m m2" using within_trans [OF w] rw by fastforce
    with assms l False None r rw show ?thesis
      by (auto simp: openConnection_def split: option.splits)
  qed
qed

lemma openChannel_within:
  assumes "openChannel A ch m = (e, ch', m')"
  shows "within (2 * rabbitDialAttempts) m m' \<and>
    (closed (connection m) \<longrightarrow> m' = m \<and> e = Some connection_closed) \<and>
    (if e = None then ch' \<noteq> None else ch' = ch)"
proof -
  obtain r1 m1 where o1: "openConnection A m = (r1, m1)" by fastforce
  note w1 = openConnection_within [OF o1]
  show ?thesis
  proof (cases r1)
    case (Inl err)
    with assms o1 w1 show ?thesis by (auto simp: openChannel_def intro: within_mono)
  next
    case (Inr c)
    with w1 have nc: "\<not> closed (connection m)" by auto
    obtain r2 m2 where o2: "lib (ConnChannel A c) m1 = (r2, m2)" by fastforce
    have w2: "within rabbitDialAttempts m m2" using within_trans [OF _ within_lib [OF o2]] w1 by fastforce
    show ?thesis
    proof (cases r2)
      case (Inr x)
      with assms o1 o2 \<open>r1 = Inr c\<close> nc w2 show ?thesis
        by (auto simp: openChannel_def intro: within_mono)
    next
      case (Inl err)
      obtain b m3 where o3: "lib (ConnIsClosed A c) m2 = (b, m3)" by fastforce
      have w3: "within rabbitDialAttempts m m3" using within_trans [OF w2 within_lib [OF o3]] by simp
      obtain r4 m4 where o4: "openConnection A m3 = (r4, m4)" by fastforce
      have w4: "within (2 * rabbitDialAttempts) m m4"
        using within_trans [OF w3] openConnection_within [OF o4] by (metis mult_2)
      have w5: "within (2 * rabbitDialAttempts) m m5" if "lib (ConnChannel A c') m4 = (r5, m5)" for c' r5 m5
        using within_trans [OF w4 within_lib [OF that]] by simp
      show ?thesis
        using assms o1 o2 o3 o4 \<open>r1 = Inr c\<close> Inl nc w4 within_mono [OF w3] w5
        by (cases b; cases r4) (auto simp: openChannel_def split: prod.splits sum.splits)
    qed
  qed
qed

lemma ensureChannel_within:
  assumes "ensureChannel A ch m = (e, ch', m')"
  shows "within (2 * rabbitDialAttempts) m m' \<and> (closed (connection m) \<longrightarrow> within 0 m m') \<and>
    (e = None \<longrightarrow> ch' \<noteq> None)"
proof -
  have re: "within (2 * rabbitDialAttempts) m m2 \<and> (closed (connection m) \<longrightarrow> within 0 m m2) \<and> (e2 = None \<longrightarrow> ch2 \<noteq> None)"
    if r: "reopenChannel A ch m1 = (e2, ch2, m2)" and w: "within 0 m m1" for m1 e2 ch2 m2
  proof -
    let ?m = "emit (MqLog Warn ''channel is closed, opening a new one'') m1"
    obtain e3 ch3 m3 where o: "openChannel A ch ?m = (e3, ch3, m3)" by (metis surj_pair)
    note ow = openChannel_within [OF o]
    have w0: "within 0 m ?m" using within_trans [OF w within_emit] by simp
    then have cl: "closed (connection ?m) = closed (connection m)" by (simp add: within_def)
    have w3: "within (2 * rabbitDialAttempts) m m3" using within_trans [OF w0] ow by fastforce
    have w4: "within (2 * rabbitDialAttempts) m (emit (MqLog l t) m3)" for l t
      using within_trans [OF w3 within_emit] by simp
    have w5: "within 0 m (emit (MqLog l t) ?m)" for l t using within_trans [OF w0 within_emit] by simp
    show ?thesis
    proof (cases e3)
      case None
      with r o ow w3 cl show ?thesis by (auto simp: reopenChannel_def)
    next
      case (Some err)
      with r o have "m2 = emit (MqLog Error ''failed to open channel'') m3" "e2 \<noteq> None"
        by (auto simp: reopenChannel_def)
      with w4 w5 ow cl show ?thesis by auto
    qed
  qed
  show ?thesis
  proof (cases ch)
    case None
    with assms re [OF _ within_refl] show ?thesis by (simp add: ensureChannel_def)
  next
    case (Some x)
    obtain b m1 where l: "lib (ChanIsClosed A x) m = (b, m1)" by fastforce
    with assms Some re [OF _ within_lib [OF l]] within_lib [OF l] within_mono [OF within_lib [OF l]] show ?thesis
      by (cases b) (auto simp: ensureChannel_def)
  qed
qed

subsection \<open>Properties\<close>

text \<open>A library for the witnesses: dials follow a plan, everything else succeeds.\<close>

definition plan_amqp :: "(bool list, string) amqp" where
  "plan_amqp =
     \<lparr>UriString = (\<lambda>u. UriHost u),
      Dial = (\<lambda>u b. case b of [] \<Rightarrow> (Inr 0, []) | x # xs \<Rightarrow> (if x then Inr 0 else Inl (ErrorString ''dial''), xs)),
      ConnIsClosed = (\<lambda>c b. (False, b)), ConnClose = (\<lambda>c b. (None, b)), ConnChannel = (\<lambda>c b. (Inr 1, b)),
      ChanIsClosed = (\<lambda>x b. (False, b)), ChanClose = (\<lambda>x b. (None, b)),
      QueueDeclare = (\<lambda>x q b. (Inr (QName q), b)), QueueBind = (\<lambda>x q k e n b. (None, b)),
      ConsumeWithContext = (\<lambda>x q c b. (Inr 2, b)), ExchangeDeclare = (\<lambda>x n k c b. (None, b)),
      PublishWithContext = (\<lambda>x e k c p b. (None, b)), Marshal = Inr\<rparr>"

definition example_config :: RabbitMqConfig where
  "example_config = \<lparr>Username = ''u'', Password = ''p'', Host = ''h'', Port = 5672\<rparr>"



lemma within_lib_emit:
  "within n m1 m2 \<Longrightarrow> lib f m2 = (x, m3) \<Longrightarrow> within n m1 m3"
  "within n m1 m2 \<Longrightarrow> within n m1 (emit (MqLog l t) m2)"
  using within_trans [OF _ within_lib, of n m1 m2 f x m3] within_trans [OF _ within_emit, of n m1 m2 l t] by simp_all



lemma DeclareQueue_ok:
  "DeclareQueue A q c m = (Ok u, c', m') \<Longrightarrow> c_channel c' \<noteq> None \<and> queue c' \<noteq> None \<and> consumeConfig c' = consumeConfig c"
  by (auto simp: DeclareQueue_def split: prod.splits option.splits sum.splits)

lemma DeclareQueue_no_panic: "fst (DeclareQueue A q c m) \<noteq> Panicked p"
proof -
  obtain e ch' m' where en: "ensureChannel A (c_channel c) m = (e, ch', m')" by (metis surj_pair)
  with ensureChannel_within [OF en] show ?thesis
    by (auto simp: DeclareQueue_def split: prod.splits option.splits sum.splits)
qed

lemma BindQueue_no_panic: "fst (BindQueue A k c m) \<noteq> Panicked p"
proof -
  obtain e ch' m' where en: "ensureChannel A (c_channel c) m = (e, ch', m')" by (metis surj_pair)
  with ensureChannel_within [OF en] show ?thesis
    by (auto simp: BindQueue_def Let_def split: prod.splits option.splits sum.splits)
qed

lemma BindQueue_ok:
  "BindQueue A k c m = (Ok u, c', m') \<Longrightarrow>
     c_channel c' \<noteq> None \<and> queue c' \<noteq> None \<and> consumeConfig c' = consumeConfig c \<and> ExchangeName k \<noteq> ''''"
  by (auto simp: BindQueue_def Let_def split: prod.splits option.splits sum.splits if_splits)

lemma bound_consumer_ok:
  "bound_consumer A c k m = (Ok c', m') \<Longrightarrow>
     c_channel c' \<noteq> None \<and> queue c' \<noteq> None \<and> consumeConfig c' = consumeConfig c \<and> ExchangeName (Binding k) \<noteq> ''''"
  by (auto simp: bound_consumer_def declareAndBindConsumer_def split: prod.splits go_result.splits
      dest!: BindQueue_ok DeclareQueue_ok)

lemma bound_consumer_no_panic: "fst (bound_consumer A c k m) \<noteq> Panicked p"
proof -
  obtain r1 c1 m1 where d: "DeclareQueue A (Queue k) c m = (r1, c1, m1)" by (metis surj_pair)
  obtain r2 c2 m2 where b: "BindQueue A (Binding k) c1 m1 = (r2, c2, m2)" by (metis surj_pair)
  have "r1 \<noteq> Panicked q" "r2 \<noteq> Panicked q" for q
    using DeclareQueue_no_panic [of A "Queue k" c m] BindQueue_no_panic [of A "Binding k" c1 m1] d b by auto
  with d b show ?thesis
    by (cases r1; cases r2) (auto simp: bound_consumer_def declareAndBindConsumer_def)
qed

lemma NewRabbitmqConsumer_ok:
  "NewRabbitmqConsumer A k m = (Ok c, m') \<Longrightarrow> consumeConfig c = k"
  by (auto simp: NewRabbitmqConsumer_def split: prod.splits option.splits)

lemma NewRabbitmqConsumer_no_panic: "fst (NewRabbitmqConsumer A k m) \<noteq> Panicked p"
  by (auto simp: NewRabbitmqConsumer_def split: prod.splits option.splits)

lemma bind_result_Ok:
  "bind_result x f = (Ok y, m) \<longleftrightarrow> (\<exists>a m'. x = (Ok a, m') \<and> f a m' = (Ok y, m))"
  by (cases "(x, f)" rule: bind_result.cases) auto

lemma bind_result_no_panic:
  "fst x \<noteq> Panicked p \<Longrightarrow> (\<And>a m. fst (f a m) \<noteq> Panicked p) \<Longrightarrow> fst (bind_result x f) \<noteq> Panicked p"
  by (cases "(x, f)" rule: bind_result.cases) auto

lemma Consume_no_panic:
  assumes "queue c \<noteq> None"
  shows "fst (Consume A c m) \<noteq> Panicked p"
proof -
  obtain e ch m1 where r: "(case c_channel c of None \<Rightarrow> reopenChannel A None m | Some x \<Rightarrow> (None, Some x, m)) = (e, ch, m1)"
    by (metis surj_pair)
  have "e = None \<longrightarrow> ch \<noteq> None"
  proof (cases "c_channel c")
    case None
    with ensureChannel_within [of A None m e ch m1] r show ?thesis by (simp add: ensureChannel_def)
  next
    case (Some x)
    with r have "ch = Some x" by simp
    then show ?thesis by simp
  qed
  with assms r show ?thesis
    by (auto simp: Consume_def Let_def split: prod.splits option.splits sum.splits)
qed

text \<open>C27: setting up the three consumers never panics, and when it succeeds every one of them has a
  channel, a declared queue and a non-empty exchange, so that consuming cannot panic either; a
  consumer whose queue was never declared does panic.\<close>

theorem consumers_ready:
  "fst (NewRabbitmq A config cl dc hc b) \<noteq> Panicked p \<and>
   (case NewRabbitmq A config cl dc hc b of
      (Ok r, m) \<Rightarrow> list_all (\<lambda>c. c_channel c \<noteq> None \<and> queue c \<noteq> None \<and> (\<forall>m' p. fst (Consume A c m') \<noteq> Panicked p))
         [CleaningConsumer r, DayChangeConsumer r, HourChangeConsumer r] \<and>
         list_all (\<lambda>k. ExchangeName (Binding k) \<noteq> '''') [cl, dc, hc]
    | _ \<Rightarrow> True) \<and>
   fst (Consume plan_amqp \<lparr>c_channel = Some 1, queue = None, consumeConfig = ConsumeCfg cl\<rparr> m0) =
     Panicked ''nil pointer dereference''"
proof -
  have 1: "fst (NewRabbitmq A config cl dc hc b) \<noteq> Panicked p"
  proof -
    obtain e m where c: "NewRabbitMqConnection A config b = (e, m)" by fastforce
    show ?thesis
    proof (cases e)
      case None
      show ?thesis
        unfolding NewRabbitmq_def c None prod.case option.case
        by (rule bind_result_no_panic NewRabbitmqConsumer_no_panic bound_consumer_no_panic | simp)+
    qed (simp add: NewRabbitmq_def c)
  qed
  have 2: "list_all (\<lambda>c. c_channel c \<noteq> None \<and> queue c \<noteq> None \<and> (\<forall>m' p. fst (Consume A c m') \<noteq> Panicked p))
         [CleaningConsumer r, DayChangeConsumer r, HourChangeConsumer r] \<and>
         list_all (\<lambda>k. ExchangeName (Binding k) \<noteq> '''') [cl, dc, hc]"
    if "NewRabbitmq A config cl dc hc b = (Ok r, m)" for r m
    using that unfolding NewRabbitmq_def
    by (auto split: prod.splits option.splits simp: bind_result_Ok Consume_no_panic dest!: bound_consumer_ok)
  show ?thesis
    using 1 2 by (auto simp: Consume_def split: prod.splits go_result.splits)
qed

end
