(* ===== verification/Startup.thy ===== *)
theory Startup
  imports Shared_Calls Manager_Service Mq "HOL-Library.Word"
begin

text \<open>
  How the service is put together and taken down: the constructors of \<^verbatim>\<open>internal/app\<close>,
  \<open>NewServices\<close> (\<^verbatim>\<open>internal/app/init.go\<close>), the MongoDB client of
  \<^verbatim>\<open>internal/infra/mdb/mongo_db.go\<close>, the readiness probe, and \<^verbatim>\<open>internal/main.go\<close>.
\<close>

subsection \<open>The constructors\<close>

text \<open>A dependency is what \<open>NotZeroValue\<close> sees of it (\<open>go_any\<close>).\<close>

definition NewTimeEventNotificationService ::
    "go_any \<Rightarrow> go_any \<Rightarrow> TimeEventNotificationService go_result" where
  "NewTimeEventNotificationService hourChangeClient dayChangeClient =
     validated (NotZeroValue ''dayChangeClient'' dayChangeClient
                 (NotZeroValue ''hourChangeClient'' hourChangeClient New)) new_registry"

record StockerService =
  stockers :: "RestockRequest employeeService"
  immediateRestocker :: stocker_ref

definition NewStockerService :: "string list \<Rightarrow> go_any \<Rightarrow> StockerService go_result" where
  "NewStockerService employeeNames stockRepo =
     validated (PositiveValue ''employeeCount'' (int (length employeeNames))
                 (NotZeroValue ''stockRepo'' stockRepo New))
       \<lparr>stockers = new_employeeService empty_restock employeeNames, immediateRestocker = WithStocker\<rparr>"

definition NewHousekeeperService ::
    "string list \<Rightarrow> go_any \<Rightarrow> go_any \<Rightarrow> CleaningRequest employeeService go_result" where
  "NewHousekeeperService employeeNames cottageRepo stockRepo =
     validated (PositiveValue ''employeeCount'' (int (length employeeNames))
                 (NotZeroValue ''stockRepo'' stockRepo (NotZeroValue ''cottageRepo'' cottageRepo New)))
       (new_employeeService empty_cleaning employeeNames)"

definition NewLaundererService ::
    "string list \<Rightarrow> go_any \<Rightarrow> go_any \<Rightarrow> go_any \<Rightarrow> WashRequest employeeService go_result" where
  "NewLaundererService employeeNames clock hourChange stockRepo =
     validated (PositiveValue ''employeeCount'' (int (length employeeNames))
                 (NotZeroValue ''stockRepo'' stockRepo
                   (NotZeroValue ''hourChange'' hourChange (NotZeroValue ''clock'' clock New))))
       (new_employeeService empty_wash employeeNames)"

text \<open>The manager's loop starts from \<open>mgr_start\<close>; whether its channel to the stockers is nil is kept.\<close>

definition NewManagerService ::
    "go_any \<Rightarrow> go_any \<Rightarrow> go_any \<Rightarrow> RestockRequest list option \<Rightarrow> RestockRequest list option go_result" where
  "NewManagerService cleaningEventConsumer timeEvents cleaning stockerChan =
     validated (NotZeroValue ''cleaningCh'' cleaning
                 (NotZeroValue ''timeEventRegistry'' timeEvents
                   (NotZeroValue ''cleaningEventConsumer'' cleaningEventConsumer New))) stockerChan"

subsection \<open>NewServices (init.go)\<close>

definition cleaning_cap :: nat where "cleaning_cap = 32"
definition launderer_cap :: nat where "launderer_cap = 32"
definition stocker_cap :: nat where "stocker_cap = 16"

record Employees =
  Housekeepers :: "string list"
  Launderers :: "string list"
  Stockers :: "string list"

record Deps =
  HourConsumer :: go_any
  DayConsumer :: go_any
  CleanConsumer :: go_any
  StockRepoDep :: go_any
  CottageRepoDep :: go_any
  ClockDep :: go_any

record Services =
  HousekeeperSvc :: "CleaningRequest employeeService"
  LaundererSvc :: "WashRequest employeeService"
  StockerSvc :: StockerService
  ManagerStockerCh :: "RestockRequest list option"
  TimeEventSvc :: TimeEventNotificationService

fun and_then :: "'a go_result \<Rightarrow> ('a \<Rightarrow> 'b go_result) \<Rightarrow> 'b go_result" where
  "and_then (Ok x) f = f x"
| "and_then (Err e) f = Err e"
| "and_then (Panicked p) f = Panicked p"

text \<open>The channels and the services built on the way are never nil.\<close>

definition NewServices :: "Employees \<Rightarrow> Deps \<Rightarrow> Services go_result" where
  "NewServices staff d =
     and_then (NewTimeEventNotificationService (HourConsumer d) (DayConsumer d)) (\<lambda>te.
     and_then (NewStockerService (Stockers staff) (StockRepoDep d)) (\<lambda>st.
     and_then (NewHousekeeperService (Housekeepers staff) (CottageRepoDep d) (StockRepoDep d)) (\<lambda>hk.
     and_then (NewLaundererService (Launderers staff) (ClockDep d) NonZero (StockRepoDep d)) (\<lambda>la.
     and_then (NewManagerService (CleanConsumer d) NonZero NonZero (Some [])) (\<lambda>sc.
       Ok \<lparr>HousekeeperSvc = hk, LaundererSvc = la, StockerSvc = st, ManagerStockerCh = sc, TimeEventSvc = te\<rparr>)))))"

lemma validated_simps [simp]:
  "validated (NotZeroValue f NonZero v) x = validated v x"
  "validated (PositiveValue f n v) x =
     (case validated v x of
        Ok y \<Rightarrow> if n \<le> 0 then Err (ErrValidationConstrain f ''must be greater than 0'') else Ok y
      | r \<Rightarrow> r)"
  "validated (NotZeroValue f NilInterface v) x =
     (case validated v x of
        Ok y \<Rightarrow> Panicked ''reflect: call of reflect.Value.IsZero on zero Value'' | r \<Rightarrow> r)"
  "validated (NotZeroValue f ZeroOfType v) x =
     (case validated v x of
        Ok y \<Rightarrow> Err (ErrValidationConstrain f ''must not be zero value'') | r \<Rightarrow> r)"
  "validated New x = Ok x"
  by (simp_all add: validated_def NotZeroValue_def PositiveValue_def split: outcome.splits)

lemmas constructor_defs =
  NewTimeEventNotificationService_def NewStockerService_def NewHousekeeperService_def
  NewLaundererService_def NewManagerService_def

subsection \<open>Durations\<close>

text \<open>\<open>time.Duration(n) * time.Second\<close>: a product of signed 64-bit numbers.\<close>

definition Seconds_duration :: "int \<Rightarrow> int" where
  "Seconds_duration n = sint (word_of_int n * word_of_int (10 ^ 9) :: 64 word)"

lemma Seconds_duration_exact:
  assumes "\<bar>n\<bar> * 10 ^ 9 < 2 ^ 63"
  shows "Seconds_duration n = n * 10 ^ 9"
proof -
  have "Seconds_duration n = signed_take_bit 63 (n * 10 ^ 9)"
    unfolding Seconds_duration_def wi_hom_mult sint_sbintrunc' by simp
  also have "\<dots> = n * 10 ^ 9"
  proof (rule signed_take_bit_int_eq_self)
    have "\<bar>n * 10 ^ 9\<bar> < 2 ^ 63" using assms by (simp add: abs_mult)
    then show "- (2 ^ 63) \<le> n * 10 ^ 9" "n * 10 ^ 9 < 2 ^ 63" by linarith+
  qed
  finally show ?thesis .
qed

subsection \<open>The MongoDB client (mongo\_db.go)\<close>

record MongoConn =
  MUsername :: string
  MPassword :: string
  MHost :: string
  MDatabase :: string
  ReplicaSet :: string
  ConnectionTimeoutInSeconds :: int
  ServerSelectionTimeoutInSeconds :: int
  PingTimeoutInSeconds :: int
  StartupTimeoutInSeconds :: int
  MaxConnIdleTimeInSeconds :: int
  MaxPoolSize :: "64 word"
  MinPoolSize :: "64 word"
  RetryWrites :: bool

definition HasPrefix :: "string \<Rightarrow> string \<Rightarrow> bool" where
  "HasPrefix s p \<longleftrightarrow> take (length p) s = p"

definition buildMongoURI :: "MongoConn \<Rightarrow> string" where
  "buildMongoURI config =
     (let host = MHost config in
      if HasPrefix host ''mongodb://'' \<or> HasPrefix host ''mongodb+srv://'' then host
      else ''mongodb://'' @ MUsername config @ '':'' @ MPassword config @ ''@'' @ host)"

text \<open>
  The options of the client, in the order in which they are set. The monitor is the tracing of
  \<open>otelmongo\<close>, with the text of the commands left out.
\<close>

datatype mongo_option =
    ApplyURI string | SetMonitor bool
  | SetConnectTimeout int | SetServerSelectionTimeout int | SetMaxConnIdleTime int
  | SetMaxPoolSize "64 word" | SetMinPoolSize "64 word" | SetRetryWrites bool | SetReplicaSet string

definition clientOptions :: "MongoConn \<Rightarrow> mongo_option list" where
  "clientOptions config =
     [ApplyURI (buildMongoURI config),
      SetMonitor True,
      SetConnectTimeout (Seconds_duration (ConnectionTimeoutInSeconds config)),
      SetServerSelectionTimeout (Seconds_duration (ServerSelectionTimeoutInSeconds config)),
      SetMaxConnIdleTime (Seconds_duration (MaxConnIdleTimeInSeconds config)),
      SetMaxPoolSize (MaxPoolSize config),
      SetMinPoolSize (MinPoolSize config),
      SetRetryWrites (RetryWrites config)] @
     (if ReplicaSet config \<noteq> [] then [SetReplicaSet (ReplicaSet config)] else [])"

text \<open>
  The driver is a parameter: connecting with the options, the ping, and disconnecting, over a
  state \<open>'b\<close>. A ping is given the timeouts of its context, the outer one first (it runs from
  before the connection is made), and none where the context is \<open>context.Background()\<close>.
\<close>

record 'b mongo_driver =
  Connect :: "mongo_option list \<Rightarrow> 'b \<Rightarrow> (go_error + nat) \<times> 'b"
  Ping :: "int list \<Rightarrow> nat \<Rightarrow> 'b \<Rightarrow> go_error option \<times> 'b"
  Disconnect :: "nat \<Rightarrow> 'b \<Rightarrow> go_error option \<times> 'b"

definition pingTimeouts :: "MongoConn \<Rightarrow> int list" where
  "pingTimeouts config =
     [Seconds_duration (StartupTimeoutInSeconds config), Seconds_duration (PingTimeoutInSeconds config)]"

definition NewMongoDb :: "'b mongo_driver \<Rightarrow> MongoConn \<Rightarrow> 'b \<Rightarrow> (go_error + nat) \<times> 'b" where
  "NewMongoDb D config b =
     (let uri = buildMongoURI config in
      case Connect D (clientOptions config) b of
        (Inl err, b1) \<Rightarrow> (Inl err, b1)
      | (Inr client, b1) \<Rightarrow>
          (case Ping D (pingTimeouts config) client b1 of
             (Some err, b2) \<Rightarrow>
               (case Disconnect D client b2 of (ignored, b3) \<Rightarrow>
                  (Inl (WrapError (''mongo ping failed for URI: '' @ uri @ '', error: '') err), b3))
           | (None, b2) \<Rightarrow> (Inr client, b2)))"

definition Mdb_Ping :: "'b mongo_driver \<Rightarrow> nat \<Rightarrow> 'b \<Rightarrow> go_error option \<times> 'b" where
  "Mdb_Ping D client b = Ping D [] client b"

definition Mdb_Close :: "'b mongo_driver \<Rightarrow> nat \<Rightarrow> 'b \<Rightarrow> go_error option \<times> 'b" where
  "Mdb_Close D client b = Disconnect D client b"

subsection \<open>The readiness probe (probe.go)\<close>

definition ReadinessHandler ::
    "('b, 'm) amqp \<Rightarrow> 'd mongo_driver \<Rightarrow> nat \<Rightarrow> 'b mq \<Rightarrow> 'd \<Rightarrow> (int \<times> string) \<times> 'b mq \<times> 'd" where
  "ReadinessHandler A D client m d =
     (case IsConnectionOpen A m of
        (False, m1) \<Rightarrow> ((503, ''rabbitmq connection closed''), m1, d)
      | (True, m1) \<Rightarrow>
          (case Mdb_Ping D client d of
             (Some err, d1) \<Rightarrow> ((503, ''db ping failed''), m1, d1)
           | (None, d1) \<Rightarrow> ((200, ''''), m1, d1)))"

definition HealthHandler :: int where "HealthHandler = 200"

subsection \<open>main.go\<close>

datatype resource =
    Telemetry | MongoConnection | HourChannel | DayChannel | CleaningChannel | RabbitConnection
  | ClockClient | HttpServer

definition shutdown_message :: "resource \<Rightarrow> string" where
  "shutdown_message r =
     (case r of
        Telemetry \<Rightarrow> ''failed to shutdown telemetry''
      | MongoConnection \<Rightarrow> ''failed to close mongo connection''
      | HourChannel \<Rightarrow> ''failed to close hour change consumer channel''
      | DayChannel \<Rightarrow> ''failed to close day change consumer channel''
      | CleaningChannel \<Rightarrow> ''failed to close cleaning consumer channel''
      | RabbitConnection \<Rightarrow> ''failed to close rabbitmq connection''
      | ClockClient \<Rightarrow> ''failed to close clock client''
      | HttpServer \<Rightarrow> ''failed to close http server'')"

text \<open>\<open>closeErr r\<close> is what closing \<open>r\<close> returns. The result is what was closed, in order, and the log.\<close>

fun shutdown_list :: "(resource \<Rightarrow> go_error option) \<Rightarrow> resource list \<Rightarrow> resource list \<times> log_line list" where
  "shutdown_list closeErr [] = ([], [])"
| "shutdown_list closeErr (r # rs) =
     (case shutdown_list closeErr rs of (cs, ls) \<Rightarrow>
        (r # cs, (if closeErr r \<noteq> None then [(Error, shutdown_message r)] else []) @ ls))"

definition shutdown :: "(resource \<Rightarrow> go_error option) \<Rightarrow> resource list \<times> log_line list" where
  "shutdown closeErr =
     shutdown_list closeErr
       [Telemetry, MongoConnection, HourChannel, DayChannel, CleaningChannel, RabbitConnection, ClockClient, HttpServer]"

text \<open>
  \<open>run\<close>: the stages of the start in order, each with what it returns; the first error ends
  the run. After the services have returned and the context is done, everything is closed.
\<close>

datatype stage = LoadConfigs | InitTelemetry | StartMongo | StartRabbit | StartClock | BuildServices

datatype action = Staged stage | StartHttp | ServicesStart | Closing "resource list \<times> log_line list"

fun run_stages :: "(stage \<Rightarrow> go_error option) \<Rightarrow> stage list \<Rightarrow> action list \<times> go_error option" where
  "run_stages res [] = ([], None)"
| "run_stages res (s # ss) =
     (case res s of
        Some err \<Rightarrow> ([Staged s], Some err)
      | None \<Rightarrow> (case run_stages res ss of (as, e) \<Rightarrow> (Staged s # as, e)))"

definition run :: "(stage \<Rightarrow> go_error option) \<Rightarrow> (resource \<Rightarrow> go_error option) \<Rightarrow> action list \<times> go_error option" where
  "run res closeErr =
     (case run_stages res [LoadConfigs, InitTelemetry, StartMongo, StartRabbit, StartClock] of
        (as, Some err) \<Rightarrow> (as, Some err)
      | (as, None) \<Rightarrow>
          (case res BuildServices of
             Some err \<Rightarrow> (as @ [StartHttp, Staged BuildServices], Some err)
           | None \<Rightarrow> (as @ [StartHttp, Staged BuildServices, ServicesStart, Closing (shutdown closeErr)], None)))"

subsection \<open>Properties\<close>

definition wired_deps :: Deps where
  "wired_deps = \<lparr>HourConsumer = NonZero, DayConsumer = NonZero, CleanConsumer = NonZero,
     StockRepoDep = NonZero, CottageRepoDep = NonZero, ClockDep = NonZero\<rparr>"

text \<open>With every dependency present the services are built exactly if each of the three lists of
  names is non-empty, otherwise the first empty one, in the order stockers, housekeepers,
  launderers, is reported as a validation error; every named employee then starts idle with no
  request handled, and all of them are counted idle.\<close>

theorem services_built:
  "case NewServices staff wired_deps of
     Ok s \<Rightarrow> [] \<notin> {Stockers staff, Housekeepers staff, Launderers staff} \<and>
       HousekeeperSvc s = new_employeeService empty_cleaning (Housekeepers staff) \<and>
       LaundererSvc s = new_employeeService empty_wash (Launderers staff) \<and>
       stockers (StockerSvc s) = new_employeeService empty_restock (Stockers staff) \<and>
       StockerService_ImmediateRestock (immediateRestocker (StockerSvc s)) = wired \<and>
       ManagerStockerCh s \<noteq> None \<and>
       (distinct (Housekeepers staff) \<longrightarrow>
         IdleEmployeeCount (Housekeepers staff) (HousekeeperSvc s) = employeeCount (HousekeeperSvc s))
   | Err e \<Rightarrow> [] \<in> {Stockers staff, Housekeepers staff, Launderers staff} \<and>
       e = ErrValidationConstrain ''employeeCount'' ''must be greater than 0''
   | Panicked p \<Rightarrow> False"
proof -
  have "IdleEmployeeCount ns (new_employeeService z ns) = employeeCount (new_employeeService z ns)" for ns and z :: 'r
    unfolding IdleEmployeeCount_filter
    by (simp add: new_employeeService_apply) (simp add: new_employeeService_def)
  then show ?thesis
    by (auto simp: NewServices_def constructor_defs wired_deps_def StockerService_ImmediateRestock_def)
qed

theorem services_built_witness:
  "\<exists>s. NewServices \<lparr>Housekeepers = [''hal''], Launderers = [''liz''], Stockers = [''sam'']\<rparr> wired_deps = Ok s \<and>
     IdleEmployeeCount [''hal''] (HousekeeperSvc s) = 1"
proof -
  let ?cfg = "\<lparr>Housekeepers = [''hal''], Launderers = [''liz''], Stockers = [''sam'']\<rparr>"
  obtain s where s: "NewServices ?cfg wired_deps = Ok s"
    by (simp add: NewServices_def constructor_defs wired_deps_def)
  with services_built [of ?cfg] have "IdleEmployeeCount [''hal''] (HousekeeperSvc s) = employeeCount (HousekeeperSvc s)"
    and "HousekeeperSvc s = new_employeeService empty_cleaning [''hal'']"
    unfolding s go_result.case by (elim conjE, simp)+
  with s show ?thesis by (simp add: new_employeeService_def)
qed

text \<open>A dependency that is the nil interface is not reported as a validation error: the check that
  is meant to reject it panics.\<close>

theorem nil_dependency_panics:
  assumes "NilInterface \<in> {HourConsumer d, ClockDep d, CleanConsumer d}"
    and "{DayConsumer d, StockRepoDep d, CottageRepoDep d} = {NonZero}"
    and "{HourConsumer d, ClockDep d, CleanConsumer d} \<subseteq> {NilInterface, NonZero}"
    and "[] \<notin> {Stockers staff, Housekeepers staff, Launderers staff}"
  shows "\<exists>p. NewServices staff d = Panicked p"
proof -
  from assms(2) have "DayConsumer d = NonZero" "StockRepoDep d = NonZero" "CottageRepoDep d = NonZero" by auto
  with assms(1,3,4) show ?thesis
    by (cases "HourConsumer d"; cases "ClockDep d"; cases "CleanConsumer d") (auto simp: NewServices_def constructor_defs)
qed

theorem nil_dependency_panics_witness:
  "\<exists>p. NewServices \<lparr>Housekeepers = [''hal''], Launderers = [''liz''], Stockers = [''sam'']\<rparr>
     (wired_deps\<lparr>ClockDep := NilInterface\<rparr>) = Panicked p"
  by (rule nil_dependency_panics) (simp_all add: wired_deps_def)

text \<open>The shutdown tries to close every resource, once and in the fixed order, whatever fails, and
  logs exactly the failures; it is reached exactly if all the stages of the start succeeded, and a
  failed start closes nothing and never starts the services.\<close>

theorem run_closes_everything:
  "fst (shutdown closeErr) =
     [Telemetry, MongoConnection, HourChannel, DayChannel, CleaningChannel, RabbitConnection, ClockClient, HttpServer] \<and>
   snd (shutdown closeErr) =
     map (\<lambda>r. (Error, shutdown_message r)) (List.filter (\<lambda>r. closeErr r \<noteq> None) (fst (shutdown closeErr))) \<and>
   (snd (run res closeErr) = None) = (\<forall>s. res s = None) \<and>
   (Closing (shutdown closeErr) \<in> set (fst (run res closeErr))) = (\<forall>s. res s = None) \<and>
   (ServicesStart \<in> set (fst (run res closeErr))) = (\<forall>s. res s = None)"
proof -
  have l: "fst (shutdown_list closeErr rs) = rs \<and>
      snd (shutdown_list closeErr rs) = map (\<lambda>r. (Error, shutdown_message r)) (List.filter (\<lambda>r. closeErr r \<noteq> None) rs)" for rs
    by (induction rs) (auto split: prod.splits)
  have all: "(\<forall>s. res s = None) \<longleftrightarrow> res LoadConfigs = None \<and> res InitTelemetry = None \<and> res StartMongo = None \<and>
      res StartRabbit = None \<and> res StartClock = None \<and> res BuildServices = None"
    by (metis stage.exhaust)
  show ?thesis
    unfolding all using l by (auto simp: shutdown_def run_def split: option.splits)
qed

text \<open>Although the configuration hides passwords, the error that reports a failed first ping carries
  the whole connection string: its text contains the password in the clear.\<close>

theorem ping_error_reveals_password:
  assumes "Connect D (clientOptions config) b = (Inr client, b1)" "Ping D (pingTimeouts config) client b1 = (Some err, b2)"
    and "\<not> HasPrefix (MHost config) ''mongodb://''" "\<not> HasPrefix (MHost config) ''mongodb+srv://''"
  shows "\<exists>e pre post. fst (NewMongoDb D config b) = Inl e \<and> Error_db e = pre @ MPassword config @ post"
proof -
  let ?e = "WrapError (''mongo ping failed for URI: '' @ buildMongoURI config @ '', error: '') err"
  have 1: "fst (NewMongoDb D config b) = Inl ?e"
    using assms(1,2) by (simp add: NewMongoDb_def Let_def split: prod.splits)
  have 2: "Error_db ?e = (''mongo ping failed for URI: mongodb://'' @ MUsername config @ '':'') @ MPassword config @
      (''@'' @ MHost config @ '', error: '' @ Error_db err)"
    using assms(3,4) by (simp add: buildMongoURI_def Let_def)
  from 1 2 show ?thesis by blast
qed

definition example_mongo :: MongoConn where
  "example_mongo =
     \<lparr>MUsername = ''root'', MPassword = ''secret'', MHost = ''db'', MDatabase = ''d'', ReplicaSet = '''',
      ConnectionTimeoutInSeconds = 10, ServerSelectionTimeoutInSeconds = 10, PingTimeoutInSeconds = 5,
      StartupTimeoutInSeconds = 10, MaxConnIdleTimeInSeconds = 60, MaxPoolSize = 100, MinPoolSize = 0,
      RetryWrites = True\<rparr>"

theorem ping_error_reveals_password_witness:
  "\<exists>e pre post. fst (NewMongoDb \<lparr>Connect = (\<lambda>opts b. (Inr 0, b)), Ping = (\<lambda>ts c b. (Some (ErrorString ''down''), b)),
       Disconnect = (\<lambda>c b. (None, b))\<rparr>
       example_mongo ()) = Inl e \<and>
     Error_db e = pre @ ''secret'' @ post"
  using ping_error_reveals_password [of "\<lparr>Connect = (\<lambda>opts b. (Inr 0, b)), Ping = (\<lambda>ts c b. (Some (ErrorString ''down''), b)),
       Disconnect = (\<lambda>c b. (None, b))\<rparr>"
       "example_mongo" "()" 0 "()"
       "ErrorString ''down''" "()"]
  by (simp add: HasPrefix_def example_mongo_def)

end
