(* ===== verification/Transport.thy ===== *)
theory Transport
  imports Startup
begin

text \<open>
  The rest of the edge of the service: \<^verbatim>\<open>internal/transport/http_server.go\<close>, the configuration
  (\<^verbatim>\<open>internal/config/config.go\<close>), and the parts of \<^verbatim>\<open>internal/infra\<close> that make the MongoDB and
  clock clients. Listening, dialling and reading the environment are the libraries' calls.
\<close>

subsection \<open>The HTTP server (http\_server.go)\<close>

record ServerConfig =
  ServerHost :: string
  ServerPort :: int
  ReadHeaderTimeoutInSeconds :: int
  ReadTimeoutInSeconds :: int
  WriteTimeoutInSeconds :: int
  IdleTimeoutInSeconds :: int

datatype probe = Healthz | Readyz

record http_server =
  Addr :: string
  Routes :: "(string \<times> probe) list"
  ReadHeaderTimeout :: int
  ReadTimeout :: int
  WriteTimeout :: int
  IdleTimeout :: int

definition StartHTTPServer :: "ServerConfig \<Rightarrow> http_server" where
  "StartHTTPServer c =
     \<lparr>Addr = ServerHost c @ '':'' @ show_int (ServerPort c),
      Routes = [(''/healthz'', Healthz), (''/readyz'', Readyz)],
      ReadHeaderTimeout = Seconds_duration (ReadHeaderTimeoutInSeconds c),
      ReadTimeout = Seconds_duration (ReadTimeoutInSeconds c),
      WriteTimeout = Seconds_duration (WriteTimeoutInSeconds c),
      IdleTimeout = Seconds_duration (IdleTimeoutInSeconds c)\<rparr>"

text \<open>The goroutine that listens; \<open>server_closed\<close> says that the error is \<open>http.ErrServerClosed\<close>.\<close>

definition listen_log :: "(go_error \<times> bool) option \<Rightarrow> log_line list" where
  "listen_log err =
     [(Info, ''pprof http listening'')] @
     (case err of
        None \<Rightarrow> []
      | Some (e, server_closed) \<Rightarrow> if server_closed then [] else [(Error, ''http serve'')])"

text \<open>
  A request for a path in its clean form: the patterns have no trailing slash, so \<open>ServeMux\<close>
  matches them exactly and answers any other path with its own 404.
\<close>

definition serve ::
    "('b, 'm) amqp \<Rightarrow> 'd mongo_driver \<Rightarrow> nat \<Rightarrow> http_server \<Rightarrow> string \<Rightarrow> 'b mq \<Rightarrow> 'd \<Rightarrow> int \<times> 'b mq \<times> 'd" where
  "serve A D client srv path m d =
     (case map_of (Routes srv) path of
        None \<Rightarrow> (404, m, d)
      | Some Healthz \<Rightarrow> (HealthHandler, m, d)
      | Some Readyz \<Rightarrow> (case ReadinessHandler A D client m d of ((status, body), m', d') \<Rightarrow> (status, m', d')))"

subsection \<open>Configuration (config.go)\<close>

text \<open>The type \<open>Secret\<close> prints as a fixed text, the conversion to \<open>string\<close> gives the value.\<close>

datatype Secret = Secret (reveal: string)

definition Secret_String :: "Secret \<Rightarrow> string" where
  "Secret_String s = ''REDACTED''"

text \<open>Parsing the environment is a parameter; what it read so far is returned with an error.\<close>

definition LoadConfigs :: "go_error option \<times> 'c \<Rightarrow> (go_error + 'c) \<times> log_line list" where
  "LoadConfigs parsed =
     (case parsed of
        (Some err, c) \<Rightarrow> (Inl err, [])
      | (None, c) \<Rightarrow> (Inr c, [(Info, ''config loaded'')]))"

subsection \<open>The clients (infra)\<close>

text \<open>A repository is its collection, by database and name.\<close>

definition NewStockRepo :: "string \<Rightarrow> string \<times> string" where
  "NewStockRepo db = (db, ''Stock'')"

definition NewCottageRepo :: "string \<Rightarrow> string \<times> string" where
  "NewCottageRepo db = (db, ''cottage'')"

record MongoInfra =
  MongoConnection :: nat
  StockRepo :: "string \<times> string"
  CottageRepo :: "string \<times> string"

definition infra_NewMongoDb :: "'b mongo_driver \<Rightarrow> MongoConn \<Rightarrow> 'b \<Rightarrow> (go_error + MongoInfra) \<times> 'b" where
  "infra_NewMongoDb D config b =
     (case NewMongoDb D config b of
        (Inl err, b') \<Rightarrow> (Inl err, b')
      | (Inr mongoDB, b') \<Rightarrow>
          (Inr \<lparr>MongoConnection = mongoDB, StockRepo = NewStockRepo (MDatabase config),
                CottageRepo = NewCottageRepo (MDatabase config)\<rparr>, b'))"

text \<open>\<open>NewClient\<close> of gRPC is a parameter over the target.\<close>

definition NewClockClient :: "(string \<Rightarrow> go_error + 'conn) \<Rightarrow> string \<Rightarrow> int \<Rightarrow> go_error + 'conn" where
  "NewClockClient grpc_NewClient host port =
     (case grpc_NewClient (host @ '':'' @ show_int port) of
        Inl err \<Rightarrow> Inl err
      | Inr c \<Rightarrow> Inr c)"

subsection \<open>Properties\<close>


definition example_server :: ServerConfig where
  "example_server = \<lparr>ServerHost = ''0.0.0.0'', ServerPort = 8080, ReadHeaderTimeoutInSeconds = 5,
     ReadTimeoutInSeconds = 10, WriteTimeoutInSeconds = 15, IdleTimeoutInSeconds = 60\<rparr>"

definition healthy_mongo :: "unit mongo_driver" where
  "healthy_mongo = \<lparr>Connect = (\<lambda>opts b. (Inr 0, b)), Ping = (\<lambda>ts c b. (None, b)), Disconnect = (\<lambda>c b. (None, b))\<rparr>"

definition not_connected :: "bool list mq" where
  "not_connected = \<lparr>broker = [], connection = \<lparr>conn = None, cfg = example_config, closed = False\<rparr>, trace = []\<rparr>"


end
