(* ===== verification/Service.thy ===== *)
theory Service
  imports Startup
begin

text \<open>
  The running service: \<open>Services.Start\<close> of \<^verbatim>\<open>internal/app/init.go\<close> starts the manager and the
  three pools of employees, which meet at the three channels and at the database. A step of the
  service is a step of one part together with what it means for the others: a send of the
  manager is an \<open>Enqueue\<close> of a pool, a receive of a housekeeper takes from the manager's channel,
  laundry sent by a housekeeper is an \<open>Enqueue\<close> of the launderers, and a call on a port gets its
  answer from the shared database.
\<close>

subsection \<open>The service and its steps\<close>

record 'w service =
  manager :: mgr_state
  housekeepers :: "CleaningRequest pool"
  launderers :: "WashRequest pool"
  stockroom :: "RestockRequest pool"
  database :: 'w

text \<open>The four goroutines of \<open>Start\<close> and the manager; the channels are made by \<open>init.go\<close>.\<close>

definition Start :: "Services \<Rightarrow> go_error option \<Rightarrow> 'w \<Rightarrow> 'w service" where
  "Start s consumeErr w =
     \<lparr>manager = mgr_start consumeErr (ManagerStockerCh s),
      housekeepers = start_pool (HousekeeperSvc s),
      launderers = start_pool (LaundererSvc s),
      stockroom = start_pool (stockers (StockerSvc s)),
      database = w\<rparr>"

datatype svc_label =
    Manage mgr_label
  | Housekeep "CleaningRequest pool_event"
  | Launder "WashRequest pool_event"
  | Refill "RestockRequest pool_event"
  | CancelAll

text \<open>
  The steps that are not a part's own: the other end of a channel is the other part's step, the
  channels are never closed, and the context is one for all.
\<close>

fun own_event :: "'r pool_event \<Rightarrow> bool" where
  "own_event (Enqueue r) = False"
| "own_event CloseChan = False"
| "own_event Cancel = False"
| "own_event _ = True"

fun own_move :: "svc_label \<Rightarrow> bool" where
  "own_move (Manage l) = (case l of EnvDay t \<Rightarrow> True | _ \<Rightarrow> own_label l)"
| "own_move (Housekeep e) = own_event e"
| "own_move (Launder e) = own_event e"
| "own_move (Refill e) = own_event e"
| "own_move CancelAll = True"

text \<open>What a step of the service is for each part.\<close>

fun mgr_of :: "svc_label \<Rightarrow> mgr_label list" where
  "mgr_of (Manage l) = [l]"
| "mgr_of (Housekeep (Receive n r k)) = [EnvTakeClean r]"
| "mgr_of (Refill (Receive n r k)) = [EnvTakeRestock r]"
| "mgr_of CancelAll = [EnvCancel]"
| "mgr_of _ = []"

fun hk_of :: "svc_label \<Rightarrow> CleaningRequest pool_event list" where
  "hk_of (Manage (Dispatch d r)) = [Enqueue r]"
| "hk_of (Housekeep e) = [e]"
| "hk_of CancelAll = [Cancel]"
| "hk_of _ = []"

fun la_of :: "svc_label \<Rightarrow> WashRequest pool_event list" where
  "la_of (Housekeep (Act n (EvSendWash r))) = [Enqueue r]"
| "la_of (Launder e) = [e]"
| "la_of CancelAll = [Cancel]"
| "la_of _ = []"

fun st_of :: "svc_label \<Rightarrow> RestockRequest pool_event list" where
  "st_of (Manage (DispatchRestock its)) = [Enqueue \<lparr>ItemsName = its\<rparr>]"
| "st_of (Refill e) = [e]"
| "st_of CancelAll = [Cancel]"
| "st_of _ = []"

fun call_of :: "svc_label \<Rightarrow> event option" where
  "call_of (Housekeep (Act n e)) = Some e"
| "call_of (Launder (Act n e)) = Some e"
| "call_of (Refill (Act n e)) = Some e"
| "call_of _ = None"

abbreviation "hk_pool \<equiv> pool_run (housekeeper_work wired) empty_cleaning cleaning_cap"
abbreviation "la_pool \<equiv> pool_run (launderer_work wired) empty_wash launderer_cap"
abbreviation "st_pool \<equiv> pool_run stocker_work empty_restock stocker_cap"
abbreviation "mgr_moves pb \<equiv> mgr_run pb cleaning_cap stocker_cap"

inductive svc_step :: "proto \<Rightarrow> 'w ports \<Rightarrow> 'w service \<Rightarrow> svc_label \<Rightarrow> 'w service \<Rightarrow> bool"
  for pb :: proto and P :: "'w ports" where
  move: "own_move l \<Longrightarrow>
     mgr_moves pb (manager s) (mgr_of l) m \<Longrightarrow> hk_pool (housekeepers s) (hk_of l) h \<Longrightarrow>
     la_pool (launderers s) (la_of l) u \<Longrightarrow> st_pool (stockroom s) (st_of l) v \<Longrightarrow>
     (case call_of l of None \<Rightarrow> w = database s | Some e \<Rightarrow> answers P e (database s) w) \<Longrightarrow>
     svc_step pb P s l \<lparr>manager = m, housekeepers = h, launderers = u, stockroom = v, database = w\<rparr>"

inductive svc_run :: "proto \<Rightarrow> 'w ports \<Rightarrow> 'w service \<Rightarrow> svc_label list \<Rightarrow> 'w service \<Rightarrow> bool"
  for pb :: proto and P :: "'w ports" where
  refl: "svc_run pb P s [] s"
| step: "svc_run pb P s ls s' \<Longrightarrow> svc_step pb P s' l s'' \<Longrightarrow> svc_run pb P s (ls @ [l]) s''"

inductive_cases svc_stepE: "svc_step pb P s l s'"

subsection \<open>Each part runs as on its own\<close>

definition mgr_trace :: "svc_label list \<Rightarrow> mgr_label list" where
  "mgr_trace ls = concat (map mgr_of ls)"

definition hk_trace :: "svc_label list \<Rightarrow> CleaningRequest pool_event list" where
  "hk_trace ls = concat (map hk_of ls)"

definition la_trace :: "svc_label list \<Rightarrow> WashRequest pool_event list" where
  "la_trace ls = concat (map la_of ls)"

definition st_trace :: "svc_label list \<Rightarrow> RestockRequest pool_event list" where
  "st_trace ls = concat (map st_of ls)"

lemmas trace_defs = mgr_trace_def hk_trace_def la_trace_def st_trace_def

lemma mgr_run_trans:
  "mgr_run pb cc sc m ls m' \<Longrightarrow> mgr_run pb cc sc m0 ls0 m \<Longrightarrow> mgr_run pb cc sc m0 (ls0 @ ls) m'"
proof (induction rule: mgr_run.induct)
  case (step m ls m' l m'')
  then show ?case using mgr_run.step by (metis append_assoc)
qed simp

lemma svc_parts:
  assumes "svc_run pb P s0 ls s"
  shows "mgr_moves pb (manager s0) (mgr_trace ls) (manager s)"
    and "hk_pool (housekeepers s0) (hk_trace ls) (housekeepers s)"
    and "la_pool (launderers s0) (la_trace ls) (launderers s)"
    and "st_pool (stockroom s0) (st_trace ls) (stockroom s)"
proof -
  have "mgr_moves pb (manager s0) (mgr_trace ls) (manager s) \<and>
    hk_pool (housekeepers s0) (hk_trace ls) (housekeepers s) \<and>
    la_pool (launderers s0) (la_trace ls) (launderers s) \<and>
    st_pool (stockroom s0) (st_trace ls) (stockroom s)"
    using assms
  proof (induction rule: svc_run.induct)
    case (refl s)
    show ?case by (simp add: trace_defs mgr_run.refl pool_run.refl)
  next
    case (step s ls s' l s'')
    from step.hyps(2) obtain m h u v w where
      "mgr_moves pb (manager s') (mgr_of l) m" "hk_pool (housekeepers s') (hk_of l) h"
      "la_pool (launderers s') (la_of l) u" "st_pool (stockroom s') (st_of l) v"
      "s'' = \<lparr>manager = m, housekeepers = h, launderers = u, stockroom = v, database = w\<rparr>"
      by (elim svc_stepE) blast
    with step.IH show ?case by (auto simp: trace_defs intro: mgr_run_trans pool_run_trans)
  qed
  then show "mgr_moves pb (manager s0) (mgr_trace ls) (manager s)"
    and "hk_pool (housekeepers s0) (hk_trace ls) (housekeepers s)"
    and "la_pool (launderers s0) (la_trace ls) (launderers s)"
    and "st_pool (stockroom s0) (st_trace ls) (stockroom s)" by blast+
qed

lemma svc_labels: "svc_run pb P s0 ls s \<Longrightarrow> \<forall>l \<in> set ls. own_move l"
  by (induction rule: svc_run.induct) (auto elim: svc_stepE)

subsection \<open>What the parts agree on\<close>

lemma link_one:
  assumes "own_move l"
  shows "enqueued (hk_of l) = map snd (dispatched (mgr_of l))"
    and "received (hk_of l) = taken_clean (mgr_of l)"
    and "map ItemsName (enqueued (st_of l)) = restock_requests (mgr_of l)"
  using assms
  by (cases l rule: hk_of.cases; auto simp: project_defs split: mgr_label.splits pool_event.splits;
      (rename_tac x; case_tac x; simp add: project_defs))+

lemma links:
  assumes "\<forall>l \<in> set ls. own_move l"
  shows "enqueued (hk_trace ls) = map snd (dispatched (mgr_trace ls))"
    and "received (hk_trace ls) = taken_clean (mgr_trace ls)"
    and "map ItemsName (enqueued (st_trace ls)) = restock_requests (mgr_trace ls)"
proof -
  have "enqueued (hk_trace ls) = map snd (dispatched (mgr_trace ls)) \<and>
      received (hk_trace ls) = taken_clean (mgr_trace ls) \<and>
      map ItemsName (enqueued (st_trace ls)) = restock_requests (mgr_trace ls)"
    using assms
  proof (induction ls)
    case Nil
    show ?case by (simp add: trace_defs project_defs)
  next
    case (Cons l ls)
    then show ?case by (simp add: trace_defs link_one) (simp add: project_defs)
  qed
  then show "enqueued (hk_trace ls) = map snd (dispatched (mgr_trace ls))"
    and "received (hk_trace ls) = taken_clean (mgr_trace ls)"
    and "map ItemsName (enqueued (st_trace ls)) = restock_requests (mgr_trace ls)" by blast+
qed

text \<open>The laundry of the launderers' channel was sent by housekeepers.\<close>

lemma enqueued_wash:
  "w \<in> set (enqueued (la_of l)) \<Longrightarrow> own_move l \<Longrightarrow> \<exists>n. EvSendWash w \<in> set (acts_by n (hk_of l))"
  by (cases l rule: la_of.cases; auto; (rename_tac x; case_tac x; simp))

lemma enqueued_washes:
  assumes "\<forall>l \<in> set ls. own_move l" "w \<in> set (enqueued (la_trace ls))"
  shows "\<exists>n. EvSendWash w \<in> set (acts_by n (hk_trace ls))"
  using assms
proof (induction ls)
  case (Cons l ls)
  then have "w \<in> set (enqueued (la_of l)) \<or> w \<in> set (enqueued (la_trace ls))" by (simp add: trace_defs)
  with Cons enqueued_wash [of w l] show ?case by (fastforce simp: trace_defs)
qed (simp add: trace_defs)

lemma wash_sent: "EvSendWash w \<in> set es \<longleftrightarrow> w \<in> set (washes es)"
  by (induction es rule: washes.induct) auto

subsection \<open>The pools NewServices builds\<close>

lemma and_then_Ok: "and_then r f = Ok y \<longleftrightarrow> (\<exists>x. r = Ok x \<and> f x = Ok y)"
  by (cases r) auto

lemma validated_Ok: "validated v x = Ok y \<Longrightarrow> y = x"
  by (simp add: validated_def split: outcome.splits)

lemma NewServices_pools:
  assumes "NewServices staff d = Ok s"
  shows "HousekeeperSvc s = new_employeeService empty_cleaning (Housekeepers staff)"
    and "LaundererSvc s = new_employeeService empty_wash (Launderers staff)"
    and "stockers (StockerSvc s) = new_employeeService empty_restock (Stockers staff)"
    and "ManagerStockerCh s = Some []"
  using assms
  by (auto simp: NewServices_def and_then_Ok constructor_defs dest!: validated_Ok simp del: validated_simps)

lemma started_parts:
  assumes "NewServices staff d = Ok s0" "svc_run pb P (Start s0 e w) ls s"
  shows "mgr_inv pb cleaning_cap (mgr_trace ls) (manager s)"
    and "pool_inv empty_cleaning (Housekeepers staff) cleaning_cap (hk_trace ls) (housekeepers s)"
    and "pool_inv empty_wash (Launderers staff) launderer_cap (la_trace ls) (launderers s)"
    and "pool_inv empty_restock (Stockers staff) stocker_cap (st_trace ls) (stockroom s)"
    and "hk_pool (start_pool (new_employeeService empty_cleaning (Housekeepers staff))) (hk_trace ls) (housekeepers s)"
  using svc_parts [OF assms(2)] NewServices_pools [OF assms(1)]
  by (auto simp: Start_def intro: mgr_run_inv pool_run_inv)

lemma pool_inv_queue:
  "pool_inv zero names cap es p \<Longrightarrow> enqueued es = received es @ buffer p \<and> length (buffer p) \<le> cap"
  by (simp add: pool_inv_def)

lemma received_by_subset: "set (received_by n es) \<subseteq> set (received es)"
  by (induction n es rule: received_by.induct) auto

lemma pipeline:
  assumes "NewServices staff d = Ok s0" "svc_run pb P (Start s0 e w) ls s"
  shows "map snd (accepted (mgr_trace ls)) =
      received (hk_trace ls) @ buffer (housekeepers s) @ map snd (sending (pos (manager s)))"
    and "restock_requests (mgr_trace ls) = map ItemsName (received (st_trace ls) @ buffer (stockroom s))"
proof -
  note parts = started_parts [OF assms] and link = links [OF svc_labels [OF assms(2)]]
  note hk = pool_inv_queue [OF parts(2)] and st = pool_inv_queue [OF parts(4)]
  from parts(1) have "accepted (mgr_trace ls) = dispatched (mgr_trace ls) @ sending (pos (manager s))"
    unfolding mgr_inv_def by blast
  with hk link(1) show "map snd (accepted (mgr_trace ls)) =
      received (hk_trace ls) @ buffer (housekeepers s) @ map snd (sending (pos (manager s)))" by simp
  from st link(3) show "restock_requests (mgr_trace ls) = map ItemsName (received (st_trace ls) @ buffer (stockroom s))"
    by metis
qed

subsection \<open>Where the laundry comes from\<close>

lemma sends_in_table: "plan_of kind = Some pl \<Longrightarrow> i \<in> set (sends pl) \<Longrightarrow> washTable i \<noteq> None"
  by (auto simp: plan_of_def washTable_def split: if_splits)

lemma accepted_received:
  assumes "NewServices staff d = Ok s0" "svc_run pb P (Start s0 e w) ls s" "r \<in> set (received_by n (hk_trace ls))"
  shows "\<exists>dl. (dl, r) \<in> set (accepted (mgr_trace ls))"
proof -
  from assms(3) received_by_subset [of n "hk_trace ls"] have "r \<in> set (received (hk_trace ls))" by blast
  then have "r \<in> set (map snd (accepted (mgr_trace ls)))" unfolding pipeline(1) [OF assms(1,2)] by simp
  then show ?thesis by auto
qed

lemma wash_origin:
  assumes "NewServices staff d = Ok s0" "svc_run pb P (Start s0 e w) ls s" "x \<in> set (enqueued (la_trace ls))"
  shows "\<exists>dl r pl. (dl, r) \<in> set (accepted (mgr_trace ls)) \<and> plan_of (RequestType r) = Some pl \<and>
    x \<in> set (wash_requests (RoomName r) (sends pl)) \<and> washTable (Item x) \<noteq> None"
proof -
  from enqueued_washes [OF svc_labels [OF assms(2)] assms(3)] obtain n where
    "EvSendWash x \<in> set (acts_by n (hk_trace ls))" by blast
  from act_belongs [OF started_parts(5) [OF assms(1,2)] this] obtain r fs where
    r: "r \<in> set (received_by n (hk_trace ls))" "runs (housekeeper_work wired n r) fs ()" "EvSendWash x \<in> set fs" by blast
  from r(3) wash_planned [OF r(2)] obtain pl where
    pl: "plan_of (RequestType r) = Some pl" "x \<in> set (wash_requests (RoomName r) (sends pl))"
    by (auto simp: wash_sent)
  from pl have "washTable (Item x) \<noteq> None" using sends_in_table [OF pl(1)] by (auto simp: wash_requests_def)
  with accepted_received [OF assms(1,2) r(1)] pl show ?thesis by blast
qed

subsection \<open>The stock under the whole service\<close>

text \<open>What the calls of a run report as put into the stock of an item less what they report as taken.\<close>

definition moved_by :: "string \<Rightarrow> svc_label \<Rightarrow> int" where
  "moved_by i l = (case call_of l of None \<Rightarrow> 0 | Some e \<Rightarrow> stock_delta i e)"

definition stock_moved :: "string \<Rightarrow> svc_label list \<Rightarrow> int" where
  "stock_moved i ls = sum_list (map (moved_by i) ls)"

lemma stock_moved_simps [simp]:
  "stock_moved i [] = 0" "stock_moved i (ls @ [l]) = stock_moved i ls + moved_by i l"
  by (simp_all add: stock_moved_def)

context housekeeper_ports
begin

lemma svc_level:
  assumes "svc_run pb P s0 ls s" "inv (database s0)" "up (database s0)" "i \<in> set ManagedStockItemNames"
    and "qty (database s0) i = Some n"
  shows "inv (database s) \<and> up (database s) \<and> qty (database s) i = Some (n + stock_moved i ls)"
  using assms(1-3,5)
proof (induction rule: svc_run.induct)
  case (step s ls s' l s'')
  then have ih: "inv (database s')" "up (database s')" "qty (database s') i = Some (n + stock_moved i ls)" by auto
  from step.hyps(2) have "case call_of l of None \<Rightarrow> database s'' = database s'
      | Some e \<Rightarrow> answers P e (database s') (database s'')"
    by (elim svc_stepE) (auto split: option.splits)
  with ih answers_level [OF ih(1,2) _ assms(4) ih(3)] show ?case
    by (cases "call_of l") (fastforce simp: moved_by_def add.assoc)+
qed simp

end

subsection \<open>A stuck shutdown\<close>

text \<open>
  When every housekeeper has returned, nobody takes from the cleaning channel any more; a manager
  that is sending to it while it is full never gets out of its send.
\<close>

definition jammed :: "'w service \<Rightarrow> bool" where
  "jammed s \<longleftrightarrow>
     (\<exists>d r. pos (manager s) = SendingClean d r) \<and> cleaning_cap \<le> length (cleaningCh (manager s)) \<and>
     (\<forall>n w. workers (housekeepers s) n = Some w \<longrightarrow> w = Stopped)"

lemma mgr_run_one: "mgr_run pb cc sc m [l] m' \<longleftrightarrow> mgr_step pb cc sc m l m'"
proof
  assume "mgr_run pb cc sc m [l] m'"
  then show "mgr_step pb cc sc m l m'"
    by (cases rule: mgr_run.cases) (auto elim: mgr_run.cases)
next
  assume "mgr_step pb cc sc m l m'"
  from mgr_run.step [OF mgr_run.refl this] show "mgr_run pb cc sc m [l] m'" by simp
qed

lemma pool_run_one: "pool_run work zero cap p [e] p' \<longleftrightarrow> pool_step work zero cap p e p'"
proof
  assume "pool_run work zero cap p [e] p'"
  then show "pool_step work zero cap p e p'"
    by (cases rule: pool_run.cases) (auto elim: pool_run.cases)
next
  assume "pool_step work zero cap p e p'"
  from pool_run.step [OF pool_run.refl this] show "pool_run work zero cap p [e] p'" by simp
qed

lemma mgr_run_none: "mgr_run pb cc sc m [] m' \<longleftrightarrow> m' = m"
  by (auto intro: mgr_run.refl elim: mgr_run.cases)

lemma pool_run_none: "pool_run work zero cap p [] p' \<longleftrightarrow> p' = p"
  by (auto intro: pool_run.refl elim: pool_run.cases)

lemmas small_runs = mgr_run_one pool_run_one mgr_run_none pool_run_none

lemma jammed_manager:
  assumes "mgr_moves pb m (mgr_of l) m'" "own_move l" "\<forall>n r k. l \<noteq> Housekeep (Receive n r k)"
    and "pos m = SendingClean d r" "cleaning_cap \<le> length (cleaningCh m)"
  shows "pos m' = SendingClean d r \<and> cleaningCh m' = cleaningCh m"
proof (cases l)
  case (Manage x)
  with assms(1) have st: "mgr_step pb cleaning_cap stocker_cap m x m'" by (simp add: small_runs)
  with mgr_blocked [OF assms(4,5)] have "\<not> own_label x" by blast
  with Manage assms(2) obtain t where "x = EnvDay t" by (cases x) auto
  with st show ?thesis using assms(4) by (auto elim: mgr_stepE)
next
  case (Refill e)
  with assms(1,4) show ?thesis by (cases e) (auto simp: small_runs elim: mgr_stepE)
next
  case (Housekeep e)
  with assms(1,3,4) show ?thesis by (cases e) (auto simp: small_runs)
next
  case CancelAll
  with assms(1,4) show ?thesis by (auto simp: small_runs elim: mgr_stepE)
qed (use assms(1,4) in \<open>simp add: small_runs\<close>)

lemma stopped_pool:
  assumes "pool_run work zero cap p es p'" "\<forall>n w. workers p n = Some w \<longrightarrow> w = Stopped"
  shows "workers p' = workers p \<and> (\<forall>e \<in> set es. \<not> own_event e)"
  using assms
proof (induction rule: pool_run.induct)
  case (step p es p' e p'')
  from step.hyps(2) have "workers p'' = workers p' \<and> \<not> own_event e"
    by (cases rule: pool_step.cases) (use step in auto)
  with step show ?case by auto
qed simp

lemma jammed_step:
  assumes "svc_step pb P s l s'" "jammed s"
  shows "jammed s'"
proof -
  from assms(1) obtain m h u v w where st: "own_move l" "mgr_moves pb (manager s) (mgr_of l) m"
      "hk_pool (housekeepers s) (hk_of l) h"
      "s' = \<lparr>manager = m, housekeepers = h, launderers = u, stockroom = v, database = w\<rparr>"
    by (elim svc_stepE) blast
  from assms(2) obtain d r where j: "pos (manager s) = SendingClean d r"
      "cleaning_cap \<le> length (cleaningCh (manager s))" "\<forall>n w. workers (housekeepers s) n = Some w \<longrightarrow> w = Stopped"
    unfolding jammed_def by blast
  note hk = stopped_pool [OF st(3) j(3)]
  then have "\<forall>n r k. l \<noteq> Housekeep (Receive n r k)" by fastforce
  from jammed_manager [OF st(2,1) this j(1,2)] hk j show ?thesis unfolding jammed_def st(4) by simp
qed

lemma jammed_run: "svc_run pb P s ls s' \<Longrightarrow> jammed s \<Longrightarrow> jammed s'"
  by (induction rule: svc_run.induct) (auto intro: jammed_step)

subsection \<open>The step as a function\<close>

text \<open>Which step comes next is the scheduler's choice; the random selection is left out.\<close>

fun mgr_exec :: "proto \<Rightarrow> nat \<Rightarrow> nat \<Rightarrow> mgr_label \<Rightarrow> mgr_state \<Rightarrow> mgr_state option" where
  "mgr_exec pb cc sc CtxStop m = (if pos m = AtSelect \<and> mgrCtxDone m then Some (m\<lparr>pos := Returned\<rparr>) else None)"
| "mgr_exec pb cc sc (Nack d) m =
     (if pos m = AtSelect \<and> isl (fst (UnmarshalCleaningRequest pb (Body d))) then Some m else None)"
| "mgr_exec pb cc sc (Accept d r) m =
     (if pos m = AtSelect \<and> fst (UnmarshalCleaningRequest pb (Body d)) = Inr r
      then Some (m\<lparr>pos := SendingClean d r\<rparr>) else None)"
| "mgr_exec pb cc sc (Dispatch d r) m =
     (if pos m = SendingClean d r \<and> length (cleaningCh m) < cc
      then Some (m\<lparr>pos := AtSelect, cleaningCh := cleaningCh m @ [r]\<rparr>) else None)"
| "mgr_exec pb cc sc (EnvTakeClean r) m =
     (case cleaningCh m of x # xs \<Rightarrow> if x = r then Some (m\<lparr>cleaningCh := xs\<rparr>) else None | [] \<Rightarrow> None)"
| "mgr_exec pb cc sc EnvCancel m = Some (m\<lparr>mgrCtxDone := True\<rparr>)"
| "mgr_exec pb cc sc _ m = None"

lemma mgr_exec_step: "mgr_exec pb cc sc l m = Some m' \<Longrightarrow> mgr_step pb cc sc m l m'"
  by (cases l) (auto simp: isl_def split: if_splits list.splits intro: mgr_step.intros)

fun mgr_execs :: "proto \<Rightarrow> nat \<Rightarrow> nat \<Rightarrow> mgr_label list \<Rightarrow> mgr_state \<Rightarrow> mgr_state option" where
  "mgr_execs pb cc sc [] m = Some m"
| "mgr_execs pb cc sc (l # ls) m = Option.bind (mgr_exec pb cc sc l m) (mgr_execs pb cc sc ls)"

lemma mgr_execs_run: "mgr_execs pb cc sc ls m = Some m' \<Longrightarrow> mgr_run pb cc sc m ls m'"
proof (induction ls arbitrary: m)
  case Nil
  then show ?case by (simp add: mgr_run.refl)
next
  case (Cons l ls)
  then obtain m1 where 1: "mgr_exec pb cc sc l m = Some m1" "mgr_execs pb cc sc ls m1 = Some m'"
    by (auto simp: bind_eq_Some_conv)
  from mgr_exec_step [OF 1(1)] have "mgr_run pb cc sc m [l] m1" by (simp add: mgr_run_one)
  from mgr_run_trans [OF Cons.IH [OF 1(2)] this] show ?case by simp
qed

definition svc_exec :: "proto \<Rightarrow> 'w ports \<Rightarrow> svc_label \<Rightarrow> 'w service \<Rightarrow> 'w service option" where
  "svc_exec pb P l s =
     (if own_move l then
        Option.bind (mgr_execs pb cleaning_cap stocker_cap (mgr_of l) (manager s)) (\<lambda>m.
        Option.bind (pool_execs (housekeeper_work wired) empty_cleaning cleaning_cap (hk_of l) (housekeepers s)) (\<lambda>h.
        Option.bind (pool_execs (launderer_work wired) empty_wash launderer_cap (la_of l) (launderers s)) (\<lambda>u.
        Option.bind (pool_execs stocker_work empty_restock stocker_cap (st_of l) (stockroom s)) (\<lambda>v.
        Option.bind (case call_of l of None \<Rightarrow> Some (database s) | Some e \<Rightarrow> answer_exec P e (database s)) (\<lambda>w.
          Some \<lparr>manager = m, housekeepers = h, launderers = u, stockroom = v, database = w\<rparr>)))))
      else None)"

lemma svc_exec_step: "svc_exec pb P l s = Some s' \<Longrightarrow> svc_step pb P s l s'"
  by (auto simp: svc_exec_def bind_eq_Some_conv split: if_splits option.splits
      intro!: svc_step.move mgr_execs_run pool_execs_run answer_exec_answers)

fun svc_execs :: "proto \<Rightarrow> 'w ports \<Rightarrow> svc_label list \<Rightarrow> 'w service \<Rightarrow> 'w service option" where
  "svc_execs pb P [] s = Some s"
| "svc_execs pb P (l # ls) s = Option.bind (svc_exec pb P l s) (svc_execs pb P ls)"

lemma svc_run_trans: "svc_run pb P s ls s' \<Longrightarrow> svc_run pb P s0 ls0 s \<Longrightarrow> svc_run pb P s0 (ls0 @ ls) s'"
proof (induction rule: svc_run.induct)
  case (step s ls s' l s'')
  then show ?case using svc_run.step by (metis append_assoc)
qed simp

lemma svc_execs_run: "svc_execs pb P ls s = Some s' \<Longrightarrow> svc_run pb P s ls s'"
proof (induction ls arbitrary: s)
  case Nil
  then show ?case by (simp add: svc_run.refl)
next
  case (Cons l ls)
  then obtain s1 where 1: "svc_exec pb P l s = Some s1" "svc_execs pb P ls s1 = Some s'"
    by (auto simp: bind_eq_Some_conv)
  from svc_run.step [OF svc_run.refl svc_exec_step [OF 1(1)]] have "svc_run pb P s [l] s1" by simp
  from svc_run_trans [OF Cons.IH [OF 1(2)] this] show ?case by simp
qed

subsection \<open>An example\<close>

definition example_staff :: Employees where
  "example_staff = \<lparr>Housekeepers = [''hal''], Launderers = [''liz''], Stockers = [''sam'']\<rparr>"

definition example_services :: Services where
  "example_services =
     \<lparr>HousekeeperSvc = new_employeeService empty_cleaning [''hal''],
      LaundererSvc = new_employeeService empty_wash [''liz''],
      StockerSvc = \<lparr>stockers = new_employeeService empty_restock [''sam''], immediateRestocker = WithStocker\<rparr>,
      ManagerStockerCh = Some [], TimeEventSvc = new_registry\<rparr>"

lemma example_services_built: "NewServices example_staff wired_deps = Ok example_services"
  by (simp add: NewServices_def constructor_defs wired_deps_def example_staff_def example_services_def)

definition full_order :: delivery where
  "full_order = \<lparr>Body = char_of (3 :: nat) # ''oak'', AckErr = None, NackErr = None\<rparr>"

definition full_request :: CleaningRequest where
  "full_request = \<lparr>RoomName = ''oak'', RequestType = ''FULL_CLEANING''\<rparr>"

definition oak_towels :: WashRequest where
  "oak_towels = \<lparr>WashRoomName = ''oak'', Item = ''towels''\<rparr>"

definition example_day :: "svc_label list" where
  "example_day =
     [Manage (Accept full_order full_request), Manage (Dispatch full_order full_request),
      Manage (Accept full_order full_request),
      Housekeep (Receive ''hal'' full_request 1),
      Housekeep (Act ''hal'' (EvNow (Inr 0))),
      Housekeep (Act ''hal'' (EvLog Info ''housekeeper started to workFn on cleaning request'')),
      Housekeep (Act ''hal'' (EvLog Info ''trash taken out'')),
      Housekeep (Act ''hal'' (EvSendWash oak_towels)),
      Launder (Receive ''liz'' oak_towels 1),
      Launder (Act ''liz'' (EvNow (Inr 0))),
      Launder (Act ''liz'' (EvLog Info ''launderer started to workFn on washing request'')),
      Launder (Act ''liz'' (EvConsumeItem Soap 10 None))]"

lemma example_day_runs:
  "\<exists>s. svc_run example_proto (repo_ports mem_collection mem_collection mem_rpc)
     (Start example_services None example_storage) example_day s \<and>
     storage_qty docs (database s) Soap = Some 2 \<and> buffer (housekeepers s) = [] \<and>
     pos (manager s) = SendingClean full_order full_request"
proof -
  let ?run = "svc_execs example_proto (repo_ports mem_collection mem_collection mem_rpc) example_day
     (Start example_services None example_storage)"
  have "map_option (\<lambda>s. (storage_qty docs (database s) Soap, buffer (housekeepers s), pos (manager s))) ?run =
     Some (Some 2, [], SendingClean full_order full_request)" by code_simp
  then obtain s where "?run = Some s" "storage_qty docs (database s) Soap = Some 2"
    "buffer (housekeepers s) = []" "pos (manager s) = SendingClean full_order full_request" by auto
  with svc_execs_run show ?thesis by blast
qed

lemma example_day_traces:
  "received (hk_trace example_day) = [full_request]" "enqueued (la_trace example_day) = [oak_towels]"
  "received (la_trace example_day) = [oak_towels]" "restock_requests (mgr_trace example_day) = []"
  "stock_moved Soap example_day = -10"
  by (simp_all add: trace_defs example_day_def project_defs project_def map_filter_def stock_moved_def moved_by_def)

text \<open>A day on which no housekeeper works: the channel fills up and the manager waits in its send.\<close>

definition jam_labels :: "svc_label list" where
  "jam_labels =
     concat (replicate 32 [Manage (Accept full_order full_request), Manage (Dispatch full_order full_request)]) @
     [Manage (Accept full_order full_request), CancelAll, Housekeep (StopCtx ''hal'')]"

subsection \<open>Properties\<close>

text \<open>C1: in every execution of the service, whatever the schedule, the database and the messages, the
  requests the manager has accepted are, in order, those the housekeepers have received, those
  that wait in the channel and the one in the manager's hand; laundry reaches the launderers and
  restock requests the stockers in the order they were sent; and no channel holds more than the
  capacity it was made with.\<close>

theorem service_pipeline:
  assumes "NewServices staff d = Ok s0" "svc_run pb P (Start s0 e w) ls s"
  shows "map snd (accepted (mgr_trace ls)) =
      received (hk_trace ls) @ buffer (housekeepers s) @ map snd (sending (pos (manager s))) \<and>
    enqueued (la_trace ls) = received (la_trace ls) @ buffer (launderers s) \<and>
    restock_requests (mgr_trace ls) = map ItemsName (received (st_trace ls) @ buffer (stockroom s)) \<and>
    length (buffer (housekeepers s)) \<le> 32 \<and> length (buffer (launderers s)) \<le> 32 \<and>
    length (buffer (stockroom s)) \<le> 16"
  using pipeline [OF assms] pool_inv_queue [OF started_parts(2) [OF assms]]
    pool_inv_queue [OF started_parts(3) [OF assms]] pool_inv_queue [OF started_parts(4) [OF assms]]
  by (simp add: cleaning_cap_def launderer_cap_def stocker_cap_def)

theorem service_pipeline_witness:
  "\<exists>s. svc_run example_proto (repo_ports mem_collection mem_collection mem_rpc)
     (Start example_services None example_storage) example_day s \<and>
     map snd (accepted (mgr_trace example_day)) = [full_request, full_request] \<and> buffer (launderers s) = []"
proof -
  from example_day_runs obtain s where s: "svc_run example_proto (repo_ports mem_collection mem_collection mem_rpc)
     (Start example_services None example_storage) example_day s" "buffer (housekeepers s) = []"
     "pos (manager s) = SendingClean full_order full_request" by blast
  from service_pipeline [OF example_services_built s(1)] s show ?thesis
    by (auto simp: example_day_traces sending_def)
qed

text \<open>C5: every piece of laundry a launderer receives, or will find in the channel, was ordered: some
  accepted message asked for a cleaning whose plan sends that item, from that room, to the laundry.
  So a launderer of the running service never meets an item outside the wash table.\<close>

theorem laundry_traces_back:
  assumes "NewServices staff d = Ok s0" "svc_run pb P (Start s0 e w) ls s"
    and "x \<in> set (received (la_trace ls)) \<or> x \<in> set (buffer (launderers s))"
  shows "(\<exists>dl r pl. (dl, r) \<in> set (accepted (mgr_trace ls)) \<and> plan_of (RequestType r) = Some pl \<and>
      WashRoomName x = RoomName r \<and> Item x \<in> set (sends pl)) \<and> washTable (Item x) \<noteq> None"
proof -
  from assms(3) pool_inv_queue [OF started_parts(3) [OF assms(1,2)]] have "x \<in> set (enqueued (la_trace ls))" by auto
  from wash_origin [OF assms(1,2) this] obtain dl r pl where
    o: "(dl, r) \<in> set (accepted (mgr_trace ls))" "plan_of (RequestType r) = Some pl"
      "x \<in> set (wash_requests (RoomName r) (sends pl))" "washTable (Item x) \<noteq> None" by blast
  from o(3) have "WashRoomName x = RoomName r" "Item x \<in> set (sends pl)" by (auto simp: wash_requests_def)
  with o(1,2,4) show ?thesis by blast
qed

theorem laundry_traces_back_witness:
  "\<exists>dl r pl. (dl, r) \<in> set (accepted (mgr_trace example_day)) \<and> plan_of (RequestType r) = Some pl \<and>
     ''oak'' = RoomName r \<and> ''towels'' \<in> set (sends pl)"
proof -
  from example_day_runs obtain s where "svc_run example_proto (repo_ports mem_collection mem_collection mem_rpc)
     (Start example_services None example_storage) example_day s" by blast
  from laundry_traces_back [OF example_services_built this, of oak_towels] show ?thesis
    by (simp add: example_day_traces) (simp add: oak_towels_def)
qed

text \<open>C7: while the servers are healthy, the books of the stock balance under every interleaving of the
  employees: the level of each managed item is its level at the start plus the restocks less the
  withdrawals that were reported as done, and it is never negative.\<close>

theorem stock_books_balance:
  assumes "storage_contract Cs scontent s_up Cc ccontent c_up rpc k_up"
    and "storage_inv scontent ccontent w" "storage_up s_up c_up k_up w"
    and "svc_run pb (repo_ports Cs Cc rpc) (Start s0 e w) ls s" "i \<in> set ManagedStockItemNames"
  shows "\<exists>n. storage_qty scontent w i = Some n \<and>
    storage_qty scontent (database s) i = Some (n + stock_moved i ls) \<and> 0 \<le> n + stock_moved i ls"
proof -
  note loc = storage_contract_locale [OF assms(1)]
  note managed = stock_repo.qty_managed [OF stock_ports.axioms [OF app_storage.as_stock [OF loc]] _ assms(5)]
  obtain n where n: "storage_qty scontent w i = Some n" using managed [OF assms(2)] by blast
  from housekeeper_ports.svc_level [OF app_storage.as_ports [OF loc] assms(4) _ _ assms(5)] assms(2,3) n
  have lev: "storage_inv scontent ccontent (database s)" "storage_qty scontent (database s) i = Some (n + stock_moved i ls)"
    by (simp_all add: Start_def)
  with managed [OF lev(1)] n show ?thesis by auto
qed

theorem stock_books_balance_witness:
  "\<exists>s. svc_run example_proto (repo_ports mem_collection mem_collection mem_rpc)
     (Start example_services None example_storage) example_day s \<and>
     (\<exists>n. storage_qty docs example_storage Soap = Some n \<and> storage_qty docs (database s) Soap = Some (n - 10))"
proof -
  from example_day_runs obtain s where s: "svc_run example_proto (repo_ports mem_collection mem_collection mem_rpc)
     (Start example_services None example_storage) example_day s" by blast
  have i: "storage_inv docs docs example_storage" "storage_up mem_up mem_up mem_clock_up example_storage"
    using example_storage_ok [of "[]"] by (simp_all add: example_solo_def)
  from stock_books_balance [OF mem_storage_contract i s managed_takes(5)] s show ?thesis
    by (auto simp: example_day_traces)
qed

text \<open>C12: a shutdown can hang for ever: once the manager is sending to the full cleaning channel and
  every housekeeper has returned (as they do when the context is done), no step of the service
  ever lets the manager return, so \<open>Start\<close> does not return either and \<open>main\<close> never closes
  anything.\<close>

theorem shutdown_can_hang:
  assumes "svc_run pb P s ls s'" "pos (manager s) = SendingClean d r" "length (cleaningCh (manager s)) = cleaning_cap"
    and "\<forall>n w. workers (housekeepers s) n = Some w \<longrightarrow> w = Stopped"
  shows "pos (manager s') \<noteq> Returned \<and> \<not> (\<exists>m. svc_step pb P s' (Manage CtxStop) m)"
proof -
  have "jammed s'" by (rule jammed_run [OF assms(1)]) (use assms(2-) in \<open>simp add: jammed_def\<close>)
  then show ?thesis by (auto simp: jammed_def small_runs elim!: svc_stepE mgr_stepE)
qed

definition has_stopped :: "'r worker option \<Rightarrow> bool" where
  "has_stopped w = (case w of Some Stopped \<Rightarrow> True | _ \<Rightarrow> False)"

lemma has_stopped_iff: "has_stopped w \<longleftrightarrow> w = Some Stopped"
  by (simp add: has_stopped_def split: option.splits worker.splits)

lemma jam_runs:
  "\<exists>s. svc_run example_proto (repo_ports mem_collection mem_collection mem_rpc)
     (Start example_services None example_storage) jam_labels s \<and>
     pos (manager s) = SendingClean full_order full_request \<and> length (cleaningCh (manager s)) = cleaning_cap \<and>
     mgrCtxDone (manager s) \<and> (\<forall>n w. workers (housekeepers s) n = Some w \<longrightarrow> w = Stopped)"
proof -
  let ?run = "svc_execs example_proto (repo_ports mem_collection mem_collection mem_rpc) jam_labels
     (Start example_services None example_storage)"
  have "map_option (\<lambda>s. (pos (manager s), length (cleaningCh (manager s)), mgrCtxDone (manager s),
      has_stopped (workers (housekeepers s) ''hal''))) ?run =
     Some (SendingClean full_order full_request, cleaning_cap, True, True)" by code_simp
  then obtain s where s: "?run = Some s" "pos (manager s) = SendingClean full_order full_request"
    "length (cleaningCh (manager s)) = cleaning_cap" "mgrCtxDone (manager s)"
    "workers (housekeepers s) ''hal'' = Some Stopped"
    by (auto simp: has_stopped_iff)
  note run = svc_execs_run [OF s(1)]
  from started_parts(2) [OF example_services_built run] have "dom (workers (housekeepers s)) = {''hal''}"
    by (simp add: pool_inv_def example_staff_def)
  with s(5) have "\<forall>n w. workers (housekeepers s) n = Some w \<longrightarrow> w = Stopped"
    by (metis domI option.inject singletonD)
  with run s show ?thesis by blast
qed

theorem shutdown_can_hang_witness:
  "\<exists>s. svc_run example_proto (repo_ports mem_collection mem_collection mem_rpc)
     (Start example_services None example_storage) jam_labels s \<and> mgrCtxDone (manager s) \<and>
     \<not> (\<exists>m. svc_step example_proto (repo_ports mem_collection mem_collection mem_rpc) s (Manage CtxStop) m)"
proof -
  from jam_runs obtain s where s: "svc_run example_proto (repo_ports mem_collection mem_collection mem_rpc)
     (Start example_services None example_storage) jam_labels s" "pos (manager s) = SendingClean full_order full_request"
     "length (cleaningCh (manager s)) = cleaning_cap" "mgrCtxDone (manager s)"
     "\<forall>n w. workers (housekeepers s) n = Some w \<longrightarrow> w = Stopped" by blast
  from shutdown_can_hang [OF svc_run.refl s(2,3,5)] s show ?thesis by blast
qed

end
