(* ===== verification/Timed_Service.thy ===== *)
theory Timed_Service
  imports Service
begin

text \<open>
  The service together with its clock: the hour and day changes of the time event service reach
  the launderers and the manager through channels that these make and register themselves. A
  step of the service that registers, unregisters or receives is a step of the time event service
  too; a delivery of a day change fills the manager's channel. Every channel is made with one
  place.
\<close>

subsection \<open>Who owns which channel\<close>

text \<open>
  What a handler does with its time channels, given the channels \<open>S\<close> it has registered and the
  channels \<open>C\<close> it has made: it registers one of its own while it has none registered,
  unregisters what it has registered, waits only where it is registered, and ends with nothing
  registered.
\<close>

primrec owns :: "'a prog \<Rightarrow> chan set \<Rightarrow> chan set \<Rightarrow> bool" where
  "owns (Return x) S C \<longleftrightarrow> S = {}"
| "owns (CallNow k) S C \<longleftrightarrow> (\<forall>r. owns (k r) S C)"
| "owns (CallGetStock k) S C \<longleftrightarrow> (\<forall>r. owns (k r) S C)"
| "owns (CallConsumeItem i q k) S C \<longleftrightarrow> (\<forall>r. owns (k r) S C)"
| "owns (CallRestockItem i q k) S C \<longleftrightarrow> (\<forall>r. owns (k r) S C)"
| "owns (CallUpdateCleaningStatus n s k) S C \<longleftrightarrow> (\<forall>r. owns (k r) S C)"
| "owns (SendWash r p) S C \<longleftrightarrow> owns p S C"
| "owns (MakeTimeChan k) S C \<longleftrightarrow> (\<forall>c. owns (k c) S (insert c C))"
| "owns (CallRegister e c p) S C \<longleftrightarrow> e = timeEventHourChange \<and> S = {} \<and> c \<in> C \<and> owns p {c} C"
| "owns (CallUnregister e c p) S C \<longleftrightarrow> e = timeEventHourChange \<and> c \<in> S \<and> owns p (S - {c}) C"
| "owns (AwaitHours c st h k) S C \<longleftrightarrow> c \<in> S \<and> (\<forall>t. owns (k t) S C)"
| "owns (Log l m p) S C \<longleftrightarrow> owns p S C"

fun after_event :: "event \<Rightarrow> chan set \<times> chan set \<Rightarrow> chan set \<times> chan set" where
  "after_event (EvRegister e c) (S, C) = ({c}, C)"
| "after_event (EvUnregister e c) (S, C) = (S - {c}, C)"
| "after_event (EvMakeTimeChan c) (S, C) = (S, insert c C)"
| "after_event _ (S, C) = (S, C)"

fun event_owned :: "event \<Rightarrow> chan set \<Rightarrow> chan set \<Rightarrow> bool" where
  "event_owned (EvRegister e c) S C = (e = timeEventHourChange \<and> S = {} \<and> c \<in> C)"
| "event_owned (EvUnregister e c) S C = (e = timeEventHourChange \<and> c \<in> S)"
| "event_owned (EvHour c t) S C = (c \<in> S)"
| "event_owned _ S C = True"

lemma owns_step:
  assumes "lstep q e q'" "owns q S C"
  shows "event_owned e S C \<and> owns q' (fst (after_event e (S, C))) (snd (after_event e (S, C)))"
  using assms by (cases rule: lstep.cases) auto

lemma owns_bindp:
  "owns p S C \<Longrightarrow> (\<And>x T. owns (f x) {} T) \<Longrightarrow> owns (bindp p f) S C"
  by (induction p arbitrary: S C) auto

text \<open>A launderer keeps to this discipline from the start of each request to its end.\<close>

lemma owns_commands [simp]:
  "owns (log l m) {} C" "owns skip {} C" "owns now {} C" "owns (consumeItem i q) {} C" "owns (restockItem i q) {} C"
  by (simp_all add: command_defs)

lemma owns_thenp: "owns p {} C \<Longrightarrow> (\<And>T. owns q {} T) \<Longrightarrow> owns (thenp p q) {} C"
  unfolding thenp_def by (rule owns_bindp)

lemma owns_wash: "owns (wash item st) {} C"
  by (auto simp: wash_def washingCycle_def intro!: owns_bindp owns_thenp split: option.splits)

lemma owns_launderer: "owns (launderer_work wired n r) {} C"
  unfolding launderer_work_def
  by (auto simp: wired_def intro!: owns_bindp owns_thenp owns_wash split: option.splits sum.splits)

subsection \<open>The steps\<close>

record 'w timed =
  core :: "'w service"
  times :: te_state
  made :: "chan set"
  dayCh :: chan

text \<open>
  \<open>Start\<close> of the manager makes and registers its channel once its queue can be consumed.
\<close>

definition timed_start ::
    "Services \<Rightarrow> go_error option \<Rightarrow> go_error option \<Rightarrow> go_error option \<Rightarrow> chan \<Rightarrow> 'w \<Rightarrow> 'w timed" where
  "timed_start s consumeErr hourErr dayErr dc w =
     \<lparr>core = Start s consumeErr w,
      times = te_start hourErr dayErr
        (if consumeErr = None then Register timeEventDayChange (Some dc) (TimeEventSvc s) else TimeEventSvc s),
      made = {dc}, dayCh = dc\<rparr>"

datatype timed_label = Core svc_label | HourChange delivery | DayChanged delivery | TimesEnd te_label

text \<open>What a step of the service is for the time event service.\<close>

fun te_of :: "chan \<Rightarrow> svc_label \<Rightarrow> te_label list" where
  "te_of dc (Launder (Act n (EvRegister e c))) = [TeRegister e (Some c)]"
| "te_of dc (Launder (Act n (EvUnregister e c))) = [TeUnregister e (Some c)]"
| "te_of dc (Launder (Act n (EvHour c t))) = [TeTake c t]"
| "te_of dc (Manage (DayChange t its)) = [TeTake dc t]"
| "te_of dc (Manage (NoStocker t)) = [TeTake dc t]"
| "te_of dc (Manage CtxStop) = [TeUnregister timeEventDayChange (Some dc)]"
| "te_of dc (Manage ConsumerClosed) = [TeUnregister timeEventDayChange (Some dc)]"
| "te_of dc l = []"

fun fresh_chan :: "svc_label \<Rightarrow> chan option" where
  "fresh_chan (Launder (Act n (EvMakeTimeChan c))) = Some c"
| "fresh_chan l = None"

fun is_day :: "svc_label \<Rightarrow> bool" where
  "is_day (Manage (EnvDay t)) = True"
| "is_day l = False"

abbreviation "te_moves pb \<equiv> te_run pb (\<lambda>_. 1)"

text \<open>
  The instants that a day change puts into the manager's channel are the ones the channel has
  gained; the loop of the time event service ends with a closed queue, or once the context is
  done.
\<close>

definition gained :: "chan \<Rightarrow> te_state \<Rightarrow> te_state \<Rightarrow> mgr_label list" where
  "gained dc a b = map EnvDay (drop (length (chans a dc)) (chans b dc))"

inductive timed_step :: "proto \<Rightarrow> 'w ports \<Rightarrow> 'w timed \<Rightarrow> timed_label \<Rightarrow> 'w timed \<Rightarrow> bool"
  for pb :: proto and P :: "'w ports" where
  core: "svc_step pb P (core s) l k \<Longrightarrow> \<not> is_day l \<Longrightarrow> te_moves pb (times s) (te_of (dayCh s) l) tm \<Longrightarrow>
     (case fresh_chan l of None \<Rightarrow> md = made s | Some c \<Rightarrow> c \<notin> made s \<and> md = insert c (made s)) \<Longrightarrow>
     timed_step pb P s (Core l) (s\<lparr>core := k, times := tm, made := md\<rparr>)"
| hour: "te_step pb (\<lambda>_. 1) (times s) (TeHour d) tm \<Longrightarrow>
     mgr_moves pb (manager (core s)) (gained (dayCh s) (times s) tm) m \<Longrightarrow>
     timed_step pb P s (HourChange d) (s\<lparr>core := (core s)\<lparr>manager := m\<rparr>, times := tm\<rparr>)"
| day: "te_step pb (\<lambda>_. 1) (times s) (TeDay d) tm \<Longrightarrow>
     mgr_moves pb (manager (core s)) (gained (dayCh s) (times s) tm) m \<Longrightarrow>
     timed_step pb P s (DayChanged d) (s\<lparr>core := (core s)\<lparr>manager := m\<rparr>, times := tm\<rparr>)"
| times_end: "te_step pb (\<lambda>_. 1) (times s) l tm \<Longrightarrow> l = TeClosed \<or> l = TeCancelled \<and> mgrCtxDone (manager (core s)) \<Longrightarrow>
     timed_step pb P s (TimesEnd l) (s\<lparr>times := tm\<rparr>)"

inductive timed_run :: "proto \<Rightarrow> 'w ports \<Rightarrow> 'w timed \<Rightarrow> timed_label list \<Rightarrow> 'w timed \<Rightarrow> bool"
  for pb :: proto and P :: "'w ports" where
  refl: "timed_run pb P s [] s"
| step: "timed_run pb P s ls s' \<Longrightarrow> timed_step pb P s' l s'' \<Longrightarrow> timed_run pb P s (ls @ [l]) s''"

subsection \<open>The service in time is the service\<close>

lemma gained_days:
  assumes "mgr_moves pb m (map EnvDay ts) m'" "svc = (core s)\<lparr>manager := m'\<rparr>" "m = manager (core s)"
  shows "\<exists>ls. svc_run pb P (core s) ls svc"
proof -
  have "mgr_moves pb m ls m' \<Longrightarrow> set ls \<subseteq> range EnvDay \<Longrightarrow> \<forall>k. manager k = m \<longrightarrow>
      svc_run pb P k (map Manage ls) (k\<lparr>manager := m'\<rparr>)" for ls m'
  proof (induction rule: mgr_run.induct)
    case (refl m)
    show ?case by (auto intro: svc_run.refl)
  next
    case (step m ls m' l m'')
    show ?case
    proof (intro allI impI)
      fix k :: "'a service"
      assume k: "manager k = m"
      from step have r: "svc_run pb P k (map Manage ls) (k\<lparr>manager := m'\<rparr>)" by (simp add: k)
      from step.prems obtain t where l: "l = EnvDay t" by auto
      have "svc_step pb P (k\<lparr>manager := m'\<rparr>) (Manage l)
        \<lparr>manager = m'', housekeepers = housekeepers k, launderers = launderers k, stockroom = stockroom k, database = database k\<rparr>"
        by (rule svc_step.move) (use step.hyps(2) in \<open>simp_all add: l small_runs\<close>)
      moreover have "\<lparr>manager = m'', housekeepers = housekeepers k, launderers = launderers k,
        stockroom = stockroom k, database = database k\<rparr> = k\<lparr>manager := m''\<rparr>" by simp
      ultimately show "svc_run pb P k (map Manage (ls @ [l])) (k\<lparr>manager := m''\<rparr>)"
        using svc_run.step [OF r] by simp
    qed
  qed
  from this [OF assms(1)] assms(2,3) show ?thesis by fastforce
qed

lemma timed_core_step:
  assumes "timed_step pb P s l s'"
  shows "\<exists>ls. svc_run pb P (core s) ls (core s')"
  using assms
proof cases
  case (core l k tm md)
  with svc_run.step [OF svc_run.refl core(3)] show ?thesis by auto
next
  case (hour d tm m)
  from gained_days [OF hour(4) [unfolded gained_def] HOL.refl HOL.refl] hour show ?thesis by simp
next
  case (day d tm m)
  from gained_days [OF day(4) [unfolded gained_def] HOL.refl HOL.refl] day show ?thesis by simp
next
  case (times_end l tm)
  then show ?thesis by (auto intro: svc_run.refl)
qed

lemma timed_core: "timed_run pb P s ls s' \<Longrightarrow> \<exists>ks. svc_run pb P (core s) ks (core s')"
proof (induction rule: timed_run.induct)
  case (step s ls s' l s'')
  with timed_core_step [OF step.hyps(2)] show ?case by (blast intro: svc_run_trans)
qed (blast intro: svc_run.refl)

subsection \<open>The channels of the launderers\<close>

definition worker_owns :: "'r worker option \<Rightarrow> chan set \<Rightarrow> chan set \<Rightarrow> bool" where
  "worker_owns w S C \<longleftrightarrow> (case w of Some (Working r q) \<Rightarrow> owns q S C | _ \<Rightarrow> S = {} \<and> C = {})"

text \<open>
  \<open>S n\<close> are the channels the launderer \<open>n\<close> has registered, \<open>C n\<close> those he has made for the
  request in hand; \<open>md\<close> are all channels made so far, \<open>dc\<close> is the manager's.
\<close>

definition owners :: "WashRequest pool \<Rightarrow> chan set \<Rightarrow> chan \<Rightarrow> (string \<Rightarrow> chan set) \<Rightarrow> (string \<Rightarrow> chan set) \<Rightarrow> bool" where
  "owners u md dc S C \<longleftrightarrow>
     (\<forall>n. worker_owns (workers u n) (S n) (C n)) \<and> (\<forall>n. S n \<subseteq> C n) \<and> (\<forall>n. \<exists>c. S n \<subseteq> {c}) \<and>
     (\<forall>n. C n \<subseteq> md - {dc}) \<and> (\<forall>m n. m \<noteq> n \<longrightarrow> C m \<inter> C n = {}) \<and> dc \<in> md"

lemma owners_same_workers: "owners u md dc S C \<Longrightarrow> workers u' = workers u \<Longrightarrow> owners u' md dc S C"
  by (simp add: owners_def)

lemma owners_idle:
  assumes "owners u md dc S C" "workers u' = (workers u)(n := w)" "worker_owns w {} {}"
  shows "owners u' md dc (S(n := {})) (C(n := {}))"
  using assms by (auto simp: owners_def)

lemma owners_act:
  assumes "owners u md dc S C" "workers u n = Some (Working r q)" "lstep q e q'"
    and "workers u' = (workers u)(n \<mapsto> Working r q')"
    and "case e of EvMakeTimeChan c \<Rightarrow> c \<notin> md \<and> md' = insert c md | _ \<Rightarrow> md' = md"
    and S': "S' = S(n := fst (after_event e (S n, C n)))" and C': "C' = C(n := snd (after_event e (S n, C n)))"
  shows "owners u' md' dc S' C' \<and> event_owned e (S n) (C n)"
proof -
  from assms(1,2) have o: "owns q (S n) (C n)" by (auto simp: owners_def worker_owns_def dest: spec [of _ n])
  note st = owns_step [OF assms(3) o]
  from assms(1) have base: "\<And>m. worker_owns (workers u m) (S m) (C m)" "\<And>m. S m \<subseteq> C m" "\<And>m. \<exists>c. S m \<subseteq> {c}"
      "\<And>m. C m \<subseteq> md - {dc}" "\<And>k m. k \<noteq> m \<Longrightarrow> C k \<inter> C m = {}" "dc \<in> md"
    unfolding owners_def by blast+
  have "worker_owns (workers u' m) (S' m) (C' m)" for m
    using base(1) [of m] st by (auto simp: worker_owns_def assms(4) S' C')
  moreover have "S' m \<subseteq> C' m" for m
    using base(2) [of m] st by (cases e) (auto simp: S' C')
  moreover have "\<exists>c. S' m \<subseteq> {c}" for m
    using base(3) [of m] by (cases e) (auto simp: S')
  moreover have "C' m \<subseteq> md' - {dc}" for m
    using base(4) [of m] base(6) assms(5) by (cases e) (auto simp: C')
  moreover have "C' k \<inter> C' m = {}" if "k \<noteq> m" for k m
    using base(5) [OF that] base(4) [of k] base(4) [of m] that assms(5) by (cases e) (auto simp: C')
  moreover have "dc \<in> md'" using base(6) assms(5) by (cases e) auto
  ultimately show ?thesis using st unfolding owners_def by blast
qed

text \<open>What such a step means for the union of all registered channels.\<close>

lemma registered_union:
  assumes "owners u md dc S C" "event_owned e (S n) (C n)"
  shows "(\<Union>m. (S(n := fst (after_event e (S n, C n)))) m) =
    (case e of EvRegister ev c \<Rightarrow> insert c (\<Union>m. S m) | EvUnregister ev c \<Rightarrow> (\<Union>m. S m) - {c} | _ \<Rightarrow> (\<Union>m. S m))"
proof (cases e)
  case (EvUnregister ev c)
  with assms(2) have "c \<in> S n" by simp
  then have "c \<notin> S m" if "m \<noteq> n" for m
    using assms(1) that unfolding owners_def by blast
  then show ?thesis by (auto simp: EvUnregister split: if_splits) metis
qed (use assms(2) in \<open>auto split: if_splits\<close>)

subsection \<open>The invariant of subscriptions\<close>

definition subscriptions_inv :: "'w timed \<Rightarrow> bool" where
  "subscriptions_inv s \<longleftrightarrow>
     (\<exists>S C. owners (launderers (core s)) (made s) (dayCh s) S C \<and>
        subscribers timeEventHourChange (registry (times s)) = (\<Union>n. S n)) \<and>
     subscribers timeEventDayChange (registry (times s)) =
       (if pos (manager (core s)) = Returned then {} else {dayCh s}) \<and>
     dayChangeCh (manager (core s)) = chans (times s) (dayCh s)"

lemma te_one: "te_run pb cap s [l] s' \<longleftrightarrow> te_step pb cap s l s'"
proof
  assume "te_run pb cap s [l] s'"
  then show "te_step pb cap s l s'" by (cases rule: te_run.cases) (auto elim: te_run.cases)
next
  assume "te_step pb cap s l s'"
  from te_run.step [OF te_run.refl this] show "te_run pb cap s [l] s'" by simp
qed

lemma te_none: "te_run pb cap s [] s' \<longleftrightarrow> s' = s"
  by (auto intro: te_run.refl elim: te_run.cases)

inductive_simps te_client_simps:
  "te_step pb cap s (TeRegister e c) s'"
  "te_step pb cap s (TeUnregister e c) s'"
  "te_step pb cap s (TeTake c t) s'"

lemma subscribers_after:
  "subscribers timeEventHourChange (Register timeEventHourChange (Some c) r) = insert c (subscribers timeEventHourChange r)"
  "subscribers timeEventHourChange (Unregister timeEventHourChange (Some c) r) = subscribers timeEventHourChange r - {c}"
  "subscribers timeEventDayChange (Register timeEventHourChange (Some c) r) = subscribers timeEventDayChange r"
  "subscribers timeEventDayChange (Unregister timeEventHourChange (Some c) r) = subscribers timeEventDayChange r"
  "subscribers timeEventHourChange (Unregister timeEventDayChange (Some c) r) = subscribers timeEventHourChange r"
  "subscribers timeEventDayChange (Unregister timeEventDayChange (Some c) r) = subscribers timeEventDayChange r - {c}"
  "subscribers timeEventDayChange (Register timeEventDayChange (Some c) r) = insert c (subscribers timeEventDayChange r)"
  "subscribers timeEventHourChange (Register timeEventDayChange (Some c) r) = subscribers timeEventHourChange r"
  by (simp_all add: tens.subs_reg tens.subs_unreg event_types_def event_types_distinct [THEN not_sym])

lemmas timed_simps = te_one te_none te_client_simps subscribers_after

text \<open>A step of a launderer: one event of his handler, together with the registry.\<close>

lemma launder_act:
  assumes "owners u md dc S C" "subscribers timeEventHourChange (registry tm) = (\<Union>n. S n)"
    and "pool_step (launderer_work wired) empty_wash launderer_cap u (Act n e) u'"
    and "te_moves pb tm (te_of dc (Launder (Act n e))) tm'"
    and "case fresh_chan (Launder (Act n e)) of None \<Rightarrow> md' = md | Some c \<Rightarrow> c \<notin> md \<and> md' = insert c md"
  shows "(\<exists>S C. owners u' md' dc S C \<and> subscribers timeEventHourChange (registry tm') = (\<Union>n. S n)) \<and>
    subscribers timeEventDayChange (registry tm') = subscribers timeEventDayChange (registry tm) \<and>
    chans tm' dc = chans tm dc"
proof -
  from assms(3) obtain r q q' where a: "workers u n = Some (Working r q)" "lstep q e q'"
    "workers u' = (workers u)(n \<mapsto> Working r q')" by cases auto
  have md: "case e of EvMakeTimeChan c \<Rightarrow> c \<notin> md \<and> md' = insert c md | _ \<Rightarrow> md' = md"
    using assms(5) by (cases e) auto
  note own = owners_act [OF assms(1) a md HOL.refl HOL.refl]
  note un = registered_union [OF assms(1) conjunct2 [OF own]]
  have dc: "dc \<notin> S n" using assms(1) unfolding owners_def by blast
  have "subscribers timeEventHourChange (registry tm') = (\<Union>m. (S(n := fst (after_event e (S n, C n)))) m) \<and>
    subscribers timeEventDayChange (registry tm') = subscribers timeEventDayChange (registry tm) \<and>
    chans tm' dc = chans tm dc"
    using assms(2,4) own dc unfolding un by (cases e) (auto simp: timed_simps)
  with own show ?thesis by blast
qed

lemma idle_union: "S n = {} \<Longrightarrow> (\<Union>m. (S(n := {})) m) = (\<Union>m. S m)" for S :: "string \<Rightarrow> chan set"
  by (metis fun_upd_triv)

lemma launder_other:
  assumes "owners u md dc S C" "pool_step (launderer_work wired) empty_wash launderer_cap u e u'"
    and "\<And>n ev. e \<noteq> Act n ev"
  shows "\<exists>S' C'. owners u' md dc S' C' \<and> (\<Union>n. S' n) = (\<Union>n. S n)"
proof -
  have idle: ?thesis if "worker_owns w {} {}" "workers u' = (workers u)(n := w)" "S n = {}" for n w
    by (intro exI conjI) (rule owners_idle [OF assms(1) that(2,1)], rule idle_union [of S n, OF that(3)])
  have quiet: "S n = {}" if "workers u n = Some Waiting \<or> workers u n = Some (Working r (Return ()))" for n r
  proof -
    have "worker_owns (workers u n) (S n) (C n)" using assms(1) unfolding owners_def by blast
    with that show ?thesis by (auto simp: worker_owns_def)
  qed
  from assms(2) show ?thesis
  proof cases
    case (stop_ctx n)
    with idle [of "Some Stopped" n] quiet [of n] show ?thesis by (simp add: worker_owns_def)
  next
    case (stop_closed n)
    with idle [of "Some Stopped" n] quiet [of n] show ?thesis by (simp add: worker_owns_def)
  next
    case (receive n r rs k s')
    with idle [of "Some (Working r (launderer_work wired n r))" n] quiet [of n] owns_launderer [of n r]
    show ?thesis by (simp add: worker_owns_def)
  next
    case (finish n r)
    with idle [of "Some Waiting" n] quiet [of n r] show ?thesis by (simp add: worker_owns_def)
  next
    case (enqueue r)
    with owners_same_workers [OF assms(1), of u'] show ?thesis by auto
  next
    case close
    with owners_same_workers [OF assms(1), of u'] show ?thesis by auto
  next
    case cancel
    with owners_same_workers [OF assms(1), of u'] show ?thesis by auto
  qed (use assms(3) in blast)
qed

lemma te_takes:
  "te_moves pb tm [TeTake dc t] tm' \<Longrightarrow> chans tm dc = t # ts \<Longrightarrow> tm' = tm\<lparr>chans := (chans tm)(dc := ts)\<rparr>"
  by (auto simp: te_one te_client_simps)

text \<open>A step of the manager, together with the registry and his channel.\<close>

lemma manage_step:
  assumes "mgr_step pb cc sc m l m'" "te_moves pb tm (te_of dc (Manage l)) tm'" "own_move (Manage l)" "\<not> is_day (Manage l)"
    and "subscribers timeEventDayChange (registry tm) = (if pos m = Returned then {} else {dc})"
    and "dayChangeCh m = chans tm dc"
  shows "subscribers timeEventDayChange (registry tm') = (if pos m' = Returned then {} else {dc}) \<and>
    dayChangeCh m' = chans tm' dc \<and>
    subscribers timeEventHourChange (registry tm') = subscribers timeEventHourChange (registry tm)"
  using assms(1)
proof cases
  case ctx_done
  with assms(2,5,6) show ?thesis by (simp add: timed_simps)
next
  case consumer_closed
  with assms(2,5,6) show ?thesis by (simp add: timed_simps)
next
  case (reject d err)
  with assms(2,5,6) show ?thesis by (simp add: timed_simps)
next
  case (accept d r)
  with assms(2,5,6) show ?thesis by (simp add: timed_simps)
next
  case (dispatch d r)
  with assms(2,5,6) show ?thesis by (simp add: timed_simps)
next
  case (day_no_stocker t ts)
  then have "tm' = tm\<lparr>chans := (chans tm)(dc := ts)\<rparr>"
    by (intro te_takes) (use assms(2,6) in simp_all)
  with day_no_stocker assms(5) show ?thesis by simp
next
  case (day_change t ts b draw drawn chosen)
  then have "tm' = tm\<lparr>chans := (chans tm)(dc := ts)\<rparr>"
    by (intro te_takes) (use assms(2,6) in simp_all)
  with day_change assms(5) show ?thesis by simp
next
  case (dispatch_restock chosen b)
  with assms(2,5,6) show ?thesis by (simp add: timed_simps)
qed (use assms(3,4) in simp_all)

text \<open>The rest of a step's moves: the manager's channel is untouched by what others do.\<close>

lemma manager_kept:
  assumes "mgr_moves pb m (mgr_of l) m'" "\<And>x. l \<noteq> Manage x"
  shows "dayChangeCh m' = dayChangeCh m \<and> (pos m' = Returned) = (pos m = Returned)"
proof (cases l)
  case (Housekeep e)
  with assms show ?thesis by (cases e) (auto simp: small_runs elim!: mgr_stepE)
next
  case (Refill e)
  with assms show ?thesis by (cases e) (auto simp: small_runs elim!: mgr_stepE)
qed (use assms in \<open>auto simp: small_runs elim!: mgr_stepE\<close>)

lemma launderers_kept:
  assumes "la_pool u (la_of l) u'" "\<And>e. l \<noteq> Launder e"
  shows "workers u' = workers u"
  using assms by (cases l rule: la_of.cases) (auto simp: small_runs elim: pool_step.cases)

lemma te_kept:
  assumes "\<And>x. l \<noteq> Manage x" "\<And>n e. l \<noteq> Launder (Act n e)"
  shows "te_of dc l = [] \<and> fresh_chan l = None"
  using assms by (cases "(dc, l)" rule: te_of.cases) auto

lemma core_step_inv:
  assumes "svc_step pb P (core s) l k" "\<not> is_day l" "te_moves pb (times s) (te_of (dayCh s) l) tm"
    and "case fresh_chan l of None \<Rightarrow> md = made s | Some c \<Rightarrow> c \<notin> made s \<and> md = insert c (made s)"
    and "subscriptions_inv s"
  shows "subscriptions_inv (s\<lparr>core := k, times := tm, made := md\<rparr>)"
proof -
  from assms(1) obtain m h u v w where st: "own_move l" "mgr_moves pb (manager (core s)) (mgr_of l) m"
      "la_pool (launderers (core s)) (la_of l) u"
      "k = \<lparr>manager = m, housekeepers = h, launderers = u, stockroom = v, database = w\<rparr>"
    by (elim svc_stepE) blast
  from assms(5) obtain S C where inv: "owners (launderers (core s)) (made s) (dayCh s) S C"
      "subscribers timeEventHourChange (registry (times s)) = (\<Union>n. S n)"
      "subscribers timeEventDayChange (registry (times s)) = (if pos (manager (core s)) = Returned then {} else {dayCh s})"
      "dayChangeCh (manager (core s)) = chans (times s) (dayCh s)"
    unfolding subscriptions_inv_def by blast
  consider (manage) x where "l = Manage x" | (act) n e where "l = Launder (Act n e)"
    | (launder) e where "l = Launder e" "\<And>n x. e \<noteq> Act n x" | (other) "\<And>x. l \<noteq> Manage x" "\<And>e. l \<noteq> Launder e"
    by metis
  then show ?thesis
  proof cases
    case (manage x)
    with st(2) have "mgr_step pb cleaning_cap stocker_cap (manager (core s)) x m" by (simp add: small_runs)
    note ms = manage_step [OF this assms(3) [unfolded manage] st(1) [unfolded manage] assms(2) [unfolded manage] inv(3,4)]
    have "workers u = workers (launderers (core s))" by (rule launderers_kept [OF st(3)]) (simp add: manage)
    from owners_same_workers [OF inv(1) this] ms inv(2) assms(4) show ?thesis
      by (auto simp: subscriptions_inv_def st(4) manage)
  next
    case (act n e)
    with st(3) have "pool_step (launderer_work wired) empty_wash launderer_cap (launderers (core s)) (Act n e) u"
      by (simp add: small_runs)
    note la = launder_act [OF inv(1,2) this assms(3,4) [unfolded act]]
    note mk = manager_kept [OF st(2)]
    show ?thesis using la mk inv(3,4) by (simp add: subscriptions_inv_def st(4) act)
  next
    case (launder e)
    with st(3) have p: "pool_step (launderer_work wired) empty_wash launderer_cap (launderers (core s)) e u"
      by (simp add: small_runs)
    have kept: "te_of (dayCh s) l = []" "fresh_chan l = None" using te_kept [of l] launder by simp_all
    from launder_other [OF inv(1) p launder(2)] obtain S' C' where
      o: "owners u (made s) (dayCh s) S' C'" "(\<Union>n. S' n) = (\<Union>n. S n)" by blast
    from kept assms(3,4) have "tm = times s" "md = made s" by (simp_all add: te_none)
    moreover have "dayChangeCh m = dayChangeCh (manager (core s)) \<and> (pos m = Returned) = (pos (manager (core s)) = Returned)"
      by (rule manager_kept [OF st(2)]) (simp add: launder)
    moreover have "\<exists>S C. owners u (made s) (dayCh s) S C \<and> subscribers timeEventHourChange (registry (times s)) = (\<Union>n. S n)"
      by (intro exI [of _ S'] exI [of _ C']) (simp add: o inv(2))
    ultimately show ?thesis using inv(3,4) by (simp add: subscriptions_inv_def st(4))
  next
    case other
    have kept: "te_of (dayCh s) l = []" "fresh_chan l = None" using te_kept [of l] other by simp_all
    from owners_same_workers [OF inv(1) launderers_kept [OF st(3) other(2)]] inv(2-4) manager_kept [OF st(2) other(1)]
      assms(3,4) kept show ?thesis
      by (auto simp: subscriptions_inv_def st(4) te_none)
  qed
qed

text \<open>A delivery of a time event only adds to channels that are subscribed to its kind.\<close>

lemma gained_moves:
  assumes "mgr_moves pb m (gained dc a b) m'" "dayChangeCh m = chans a dc"
    and "chans b dc = chans a dc \<or> (\<exists>t. chans b dc = chans a dc @ [t])"
  shows "dayChangeCh m' = chans b dc \<and> (pos m' = Returned) = (pos m = Returned)"
  using assms by (auto simp: gained_def small_runs elim!: mgr_stepE)

lemma delivery_step:
  assumes "te_step pb (\<lambda>_. 1) a l b" "l = TeHour d \<or> l = TeDay d"
  shows "registry b = registry a \<and> (chans b c = chans a c \<or> (\<exists>t. chans b c = chans a c @ [t]))"
  using assms(1)
proof cases
  case (hour cs d es bf)
  with hour_bufs [OF hour(4,5), of c] show ?thesis by auto
next
  case (day cs d es bf)
  with day_bufs [OF day(4,5), of c] show ?thesis by auto
qed (use assms(2) in auto)

lemma timed_step_inv:
  assumes "timed_step pb P s l s'" "subscriptions_inv s"
  shows "subscriptions_inv s'"
  using assms(1)
proof cases
  case (core l k tm md)
  with core_step_inv [OF core(3,4,5,6) assms(2)] show ?thesis by simp
next
  case (hour d tm m)
  from assms(2) have d: "dayChangeCh (manager (core s)) = chans (times s) (dayCh s)" by (simp add: subscriptions_inv_def)
  note del = delivery_step [OF hour(3), of d]
  from gained_moves [OF hour(4) d] del hour assms(2) show ?thesis by (simp add: subscriptions_inv_def)
next
  case (day d tm m)
  from assms(2) have d: "dayChangeCh (manager (core s)) = chans (times s) (dayCh s)" by (simp add: subscriptions_inv_def)
  note del = delivery_step [OF day(3), of d]
  from gained_moves [OF day(4) d] del day assms(2) show ?thesis by (simp add: subscriptions_inv_def)
next
  case (times_end l tm)
  from times_end(3,4) have "registry tm = registry (times s)" "chans tm = chans (times s)"
    by (auto elim: te_step.cases)
  with times_end assms(2) show ?thesis by (simp add: subscriptions_inv_def)
qed

lemma timed_run_inv: "timed_run pb P s ls s' \<Longrightarrow> subscriptions_inv s \<Longrightarrow> subscriptions_inv s'"
  by (induction rule: timed_run.induct) (auto intro: timed_step_inv)

lemma NewServices_registry: "NewServices staff d = Ok s \<Longrightarrow> TimeEventSvc s = new_registry"
  by (auto simp: NewServices_def and_then_Ok constructor_defs dest!: validated_Ok simp del: validated_simps)

lemma timed_start_inv:
  assumes "NewServices staff d = Ok s0"
  shows "subscriptions_inv (timed_start s0 e he de dc w)"
proof -
  have none: "subscribers x new_registry = {}" for x
    by (simp add: subscribers_def new_registry_def)
  have "owners (launderers (Start s0 e w)) {dc} dc (\<lambda>_. {}) (\<lambda>_. {})"
    by (auto simp: owners_def worker_owns_def Start_def start_pool_def split: option.splits)
  then show ?thesis
    unfolding subscriptions_inv_def timed_start_def
    by (auto simp: te_start_def NewServices_registry [OF assms] none subscribers_after Start_def mgr_start_def
        intro!: exI [of _ "\<lambda>_. {}"])
qed

subsection \<open>The steps of the service as a function\<close>

fun te_exec :: "te_label \<Rightarrow> te_state \<Rightarrow> te_state option" where
  "te_exec (TeRegister e c) s = Some (s\<lparr>registry := Register e c (registry s)\<rparr>)"
| "te_exec (TeUnregister e c) s = Some (s\<lparr>registry := Unregister e c (registry s)\<rparr>)"
| "te_exec (TeTake c t) s =
     (case chans s c of x # xs \<Rightarrow> if x = t then Some (s\<lparr>chans := (chans s)(c := xs)\<rparr>) else None | [] \<Rightarrow> None)"
| "te_exec _ s = None"

lemma te_exec_step: "te_exec l s = Some s' \<Longrightarrow> te_step pb cap s l s'"
  by (cases l) (auto split: list.splits if_splits intro: te_step.intros)

definition timed_exec :: "proto \<Rightarrow> 'w ports \<Rightarrow> svc_label \<Rightarrow> 'w timed \<Rightarrow> 'w timed option" where
  "timed_exec pb P l s =
     (if is_day l then None else
        Option.bind (svc_exec pb P l (core s)) (\<lambda>k.
        Option.bind (case te_of (dayCh s) l of [] \<Rightarrow> Some (times s) | x # xs \<Rightarrow> te_exec x (times s)) (\<lambda>tm.
          case fresh_chan l of
            None \<Rightarrow> Some (s\<lparr>core := k, times := tm, made := made s\<rparr>)
          | Some c \<Rightarrow> if c \<in> made s then None else Some (s\<lparr>core := k, times := tm, made := insert c (made s)\<rparr>))))"

lemma te_of_one: "length (te_of dc l) \<le> 1"
  by (cases "(dc, l)" rule: te_of.cases) auto

lemma timed_exec_step:
  assumes "timed_exec pb P l s = Some s'"
  shows "timed_step pb P s (Core l) s'"
proof -
  from assms obtain k tm where k: "\<not> is_day l" "svc_exec pb P l (core s) = Some k"
      "(case te_of (dayCh s) l of [] \<Rightarrow> Some (times s) | x # xs \<Rightarrow> te_exec x (times s)) = Some tm"
    and f: "(case fresh_chan l of
            None \<Rightarrow> Some (s\<lparr>core := k, times := tm, made := made s\<rparr>)
          | Some c \<Rightarrow> if c \<in> made s then None else Some (s\<lparr>core := k, times := tm, made := insert c (made s)\<rparr>)) = Some s'"
    by (auto simp: timed_exec_def bind_eq_Some_conv split: if_splits)
  have "te_moves pb (times s) (te_of (dayCh s) l) tm"
    using k(3) te_of_one [of "dayCh s" l] by (auto simp: te_one te_none intro: te_exec_step split: list.splits)
  from timed_step.core [OF svc_exec_step [OF k(2)] k(1) this] f show ?thesis
    by (auto split: option.splits if_splits)
qed

fun timed_execs :: "proto \<Rightarrow> 'w ports \<Rightarrow> svc_label list \<Rightarrow> 'w timed \<Rightarrow> 'w timed option" where
  "timed_execs pb P [] s = Some s"
| "timed_execs pb P (l # ls) s = Option.bind (timed_exec pb P l s) (timed_execs pb P ls)"

lemma timed_run_trans: "timed_run pb P s ls s' \<Longrightarrow> timed_run pb P s0 ls0 s \<Longrightarrow> timed_run pb P s0 (ls0 @ ls) s'"
proof (induction rule: timed_run.induct)
  case (step s ls s' l s'')
  then show ?case using timed_run.step by (metis append_assoc)
qed simp

lemma timed_execs_run: "timed_execs pb P ls s = Some s' \<Longrightarrow> timed_run pb P s (map Core ls) s'"
proof (induction ls arbitrary: s)
  case Nil
  then show ?case by (simp add: timed_run.refl)
next
  case (Cons l ls)
  then obtain s1 where 1: "timed_exec pb P l s = Some s1" "timed_execs pb P ls s1 = Some s'"
    by (auto simp: bind_eq_Some_conv)
  from timed_run.step [OF timed_run.refl timed_exec_step [OF 1(1)]] have "timed_run pb P s [Core l] s1" by simp
  from timed_run_trans [OF Cons.IH [OF 1(2)] this] show ?case by simp
qed

subsection \<open>An example\<close>

definition example_wait :: "svc_label list" where
  "example_wait = example_day @
     [Launder (Act ''liz'' (EvMakeTimeChan 7)), Launder (Act ''liz'' (EvRegister timeEventHourChange 7))]"

text \<open>A clock whose every message says one hour after the start.\<close>

definition hourly_proto :: proto where
  "hourly_proto = example_proto\<lparr>UnmarshalTimeEvent := \<lambda>b. Inr (Some \<lparr>Seconds = 3600, Nanos = 0\<rparr>)\<rparr>"

definition waits_on :: "'r worker option \<Rightarrow> chan \<Rightarrow> time \<Rightarrow> int \<Rightarrow> bool" where
  "waits_on w c st h = (case w of Some (Working r (AwaitHours c' st' h' k)) \<Rightarrow> c' = c \<and> st' = st \<and> h' = h | _ \<Rightarrow> False)"

lemma example_wait_runs:
  "\<exists>s. timed_run hourly_proto (repo_ports mem_collection mem_collection mem_rpc)
     (timed_start example_services None None None 1 example_storage) (map Core example_wait) s \<and>
     waits_on (workers (launderers (core s)) ''liz'') 7 0 1 \<and> chans (times s) 7 = [] \<and> \<not> ended (times s)"
proof -
  let ?run = "timed_execs hourly_proto (repo_ports mem_collection mem_collection mem_rpc) example_wait
     (timed_start example_services None None None 1 example_storage)"
  have "map_option (\<lambda>s. waits_on (workers (launderers (core s)) ''liz'') 7 0 1 \<and> chans (times s) 7 = [] \<and> \<not> ended (times s)) ?run =
     Some True" by code_simp
  then obtain s where s: "?run = Some s"
    "waits_on (workers (launderers (core s)) ''liz'') 7 0 1 \<and> chans (times s) 7 = [] \<and> \<not> ended (times s)" by auto
  from timed_execs_run [OF s(1)] s(2) show ?thesis by blast
qed

subsection \<open>Owners who wait\<close>

lemma owners_waiting:
  assumes "owners u md dc S C" "workers u n = Some (Working r (AwaitHours c st h k))"
  shows "c \<in> S n \<and> c \<noteq> dc"
proof -
  from assms have "worker_owns (workers u n) (S n) (C n)" "S n \<subseteq> C n" "C n \<subseteq> md - {dc}" unfolding owners_def by blast+
  with assms(2) show ?thesis by (auto simp: worker_owns_def)
qed

lemma owners_count:
  assumes "owners u md dc S C" "finite (dom (workers u))"
  shows "finite (\<Union>n. S n) \<and> card (\<Union>n. S n) \<le> card {n. busy (workers u n)}"
proof -
  let ?B = "{n. busy (workers u n)}"
  from assms(1) have o: "\<And>n. worker_owns (workers u n) (S n) (C n)" "\<And>n. \<exists>c. S n \<subseteq> {c}"
    unfolding owners_def by blast+
  have "?B \<subseteq> dom (workers u)" by (auto simp: busy_def)
  with assms(2) have B: "finite ?B" by (rule finite_subset [rotated])
  have idle: "S n = {}" if "n \<notin> ?B" for n
    using o(1) [of n] that by (auto simp: worker_owns_def busy_def split: option.splits worker.splits)
  then have "(\<Union>n. S n) = (\<Union>n \<in> ?B. S n)" by blast
  moreover have fin: "finite (S n)" "card (S n) \<le> 1" for n
    using o(2) [of n] finite_subset card_mono [of "{_}" "S n"] by fastforce+
  moreover have "card (\<Union>n \<in> ?B. S n) \<le> (\<Sum>n \<in> ?B. card (S n))" by (rule card_UN_le [OF B])
  moreover have "(\<Sum>n \<in> ?B. card (S n)) \<le> (\<Sum>n \<in> ?B. 1)" using fin(2) by (rule sum_mono)
  ultimately show ?thesis using B by simp
qed

text \<open>What every reachable state has.\<close>

lemma timed_reached:
  assumes "NewServices staff d = Ok s0" "timed_run pb P (timed_start s0 e he de dc w) ls s"
  shows "\<exists>S C. subscriptions_inv s \<and> owners (launderers (core s)) (made s) (dayCh s) S C \<and>
    subscribers timeEventHourChange (registry (times s)) = (\<Union>n. S n) \<and>
    finite (\<Union>n. S n) \<and> card (\<Union>n. S n) \<le> card {n. busy (workers (launderers (core s)) n)}"
proof -
  have inv: "subscriptions_inv s" by (rule timed_run_inv [OF assms(2) timed_start_inv [OF assms(1)]])
  then obtain S C where o: "owners (launderers (core s)) (made s) (dayCh s) S C"
    "subscribers timeEventHourChange (registry (times s)) = (\<Union>n. S n)" unfolding subscriptions_inv_def by blast
  from timed_core [OF assms(2)] obtain ks where "svc_run pb P (Start s0 e w) ks (core s)"
    by (auto simp: timed_start_def)
  from started_parts(3) [OF assms(1) this] have "dom (workers (launderers (core s))) = set (Launderers staff)"
    unfolding pool_inv_def by blast
  then have "finite (dom (workers (launderers (core s))))" by simp
  from owners_count [OF o(1) this] inv o show ?thesis by blast
qed

text \<open>A subscriber with an empty channel gets the instant of an hour change.\<close>

lemma hour_reaches:
  assumes "c \<in> subscribers timeEventHourChange (registry a)" "chans a c = []" "\<not> ended a"
    and t: "fst (unmarshalTimeEvent pb (Body d)) = Inr t"
    and fin: "finite (subscribers timeEventHourChange (registry a))"
  shows "\<exists>b. te_step pb (\<lambda>_. 1) a (TeHour d) (a\<lparr>chans := b\<rparr>) \<and> b c = [t] \<and>
    (\<forall>x. x \<notin> subscribers timeEventHourChange (registry a) \<longrightarrow> b x = chans a x)"
proof -
  let ?s = "hourChangeChannels (registry a)"
  have sub: "set_of ?s = subscribers timeEventHourChange (registry a)" by (simp add: subscribers_def)
  with fin obtain cs where v: "Values ?s cs" using Values_exists by metis
  obtain es b where h: "handle_hour pb (\<lambda>_. 1) cs d (chans a) = (es, b)" by fastforce
  have b: "b = notified (\<lambda>_. 1) t (set_of ?s) (chans a)"
    using handle_bufs(1) [OF v, of pb "\<lambda>_. 1" d "chans a"] unfolding h t by simp
  from te_step.hour [OF assms(3) v h] show ?thesis
    using assms(1,2) by (intro exI [of _ b]) (simp add: b notified_def sub)
qed

subsection \<open>Properties\<close>



text \<open>C17: the launderer's wait ends: whenever a launderer waits in a washing cycle with nothing in his channel, the
  next hour change that can be read puts its instant into the channel, and from there he takes
  it and, when the cycle's hours have passed, goes on with the rest of his work; otherwise he
  waits for the next one, still subscribed.\<close>

theorem hour_wakes_launderer:
  assumes "NewServices staff d = Ok s0" "timed_run pb P (timed_start s0 e he de dc w) ls s"
    and at: "workers (launderers (core s)) n = Some (Working r (AwaitHours c st h k))"
    and "chans (times s) c = []" "\<not> ended (times s)" "fst (unmarshalTimeEvent pb (Body x)) = Inr t"
  shows "\<exists>s1 s2. timed_step pb P s (HourChange x) s1 \<and> chans (times s1) c = [t] \<and>
    timed_step pb P s1 (Core (Launder (Act n (EvHour c t)))) s2 \<and>
    workers (launderers (core s2)) n =
      Some (Working r (if Hours_at_least (Sub t st) h then k t else AwaitHours c st h k)) \<and>
    c \<in> subscribers timeEventHourChange (registry (times s2))"
proof -
  from timed_reached [OF assms(1,2)] obtain S C where o: "owners (launderers (core s)) (made s) (dayCh s) S C"
    "subscribers timeEventHourChange (registry (times s)) = (\<Union>n. S n)" "finite (\<Union>n. S n)" by blast
  from owners_waiting [OF o(1) at] have c: "c \<in> (\<Union>n. S n)" by blast
  have dc: "dayCh s \<notin> (\<Union>n. S n)" using o(1) unfolding owners_def by blast
  from hour_reaches [OF c [folded o(2)] assms(4-6) o(3) [folded o(2)]] dc [folded o(2)] obtain b where
    b: "te_step pb (\<lambda>_. 1) (times s) (TeHour x) ((times s)\<lparr>chans := b\<rparr>)" "b c = [t]" "b (dayCh s) = chans (times s) (dayCh s)"
    by blast
  let ?s1 = "s\<lparr>core := (core s)\<lparr>manager := manager (core s)\<rparr>, times := (times s)\<lparr>chans := b\<rparr>\<rparr>"
  have hour: "timed_step pb P s (HourChange x) ?s1"
    by (rule timed_step.hour [OF b(1)]) (simp add: gained_def b(3) small_runs)
  let ?q = "if Hours_at_least (Sub t st) h then k t else AwaitHours c st h k"
  let ?u = "(launderers (core s))\<lparr>workers := (workers (launderers (core s)))(n \<mapsto> Working r ?q)\<rparr>"
  let ?k = "\<lparr>manager = manager (core s), housekeepers = housekeepers (core s), launderers = ?u,
    stockroom = stockroom (core s), database = database (core s)\<rparr>"
  have "lstep (AwaitHours c st h k) (EvHour c t) ?q" by (auto intro: lstep.hour_reached lstep.hour_early)
  from pool_step.act [OF at this] have "la_pool (launderers (core ?s1)) [Act n (EvHour c t)] ?u"
    unfolding small_runs by simp
  then have act: "svc_step pb P (core ?s1) (Launder (Act n (EvHour c t))) ?k"
    by (intro svc_step.move) (simp_all add: small_runs)
  have "timed_step pb P ?s1 (Core (Launder (Act n (EvHour c t))))
      (?s1\<lparr>core := ?k, times := (times s)\<lparr>chans := b(c := [])\<rparr>, made := made ?s1\<rparr>)"
    by (rule timed_step.core [OF act]) (simp_all add: timed_simps b(2))
  with hour show ?thesis using b(2) c [folded o(2)] by (intro exI conjI) (assumption | simp)+
qed

theorem hour_wakes_launderer_witness:
  "\<exists>s s1 s2 r k. timed_run hourly_proto (repo_ports mem_collection mem_collection mem_rpc)
     (timed_start example_services None None None 1 example_storage) (map Core example_wait) s \<and>
     workers (launderers (core s)) ''liz'' = Some (Working r (AwaitHours 7 0 1 k)) \<and>
     timed_step hourly_proto (repo_ports mem_collection mem_collection mem_rpc) s (HourChange example_delivery) s1 \<and>
     timed_step hourly_proto (repo_ports mem_collection mem_collection mem_rpc) s1
       (Core (Launder (Act ''liz'' (EvHour 7 (3600 * 10 ^ 9))))) s2 \<and>
     workers (launderers (core s2)) ''liz'' = Some (Working r (k (3600 * 10 ^ 9)))"
proof -
  from example_wait_runs obtain s where s: "timed_run hourly_proto (repo_ports mem_collection mem_collection mem_rpc)
     (timed_start example_services None None None 1 example_storage) (map Core example_wait) s"
     "waits_on (workers (launderers (core s)) ''liz'') 7 0 1" "chans (times s) 7 = []" "\<not> ended (times s)" by blast
  from s(2) obtain r k where at: "workers (launderers (core s)) ''liz'' = Some (Working r (AwaitHours 7 0 1 k))"
    by (auto simp: waits_on_def split: option.splits worker.splits prog.splits)
  have t: "fst (unmarshalTimeEvent hourly_proto (Body example_delivery)) = Inr (3600 * 10 ^ 9)"
    by (simp add: unmarshalTimeEvent_cases hourly_proto_def)
  have "Hours_at_least (Sub (3600 * 10 ^ 9) 0) 1" by (simp add: Hours_at_least_iff Sub_def Hour_def)
  then have q: "(if Hours_at_least (Sub (3600 * 10 ^ 9) 0) 1 then k (3600 * 10 ^ 9) else AwaitHours 7 0 1 k) =
      k (3600 * 10 ^ 9)" by (rule if_P)
  from hour_wakes_launderer [OF example_services_built s(1) at s(3,4) t, unfolded q] at s(1) show ?thesis by blast
qed

end
