(* ===== verification/Telemetry.thy ===== *)
theory Telemetry
  imports Domain "HOL-Library.Word"
begin

text \<open>
  \<^verbatim>\<open>internal/infra/telemetry\<close> and \<^verbatim>\<open>internal/infra/logging\<close>: the carrier through which the trace
  context of a delivery is read, the name and attributes of a consumer's span, what an error
  leaves on a span, the start and stop of the providers, and the log handler that adds the trace.
  The tracer, the exporters and the base handler belong to libraries and are parameters.
\<close>

subsection \<open>The headers as a carrier\<close>

text \<open>
  A header's value can be of any type; \<open>fmt.Sprint\<close> gives its text. \<open>HOther\<close> stands for a value
  of a type not listed, by the text it prints as.
\<close>

datatype header = HText string | HInt int | HBool bool | HNil | HOther string

fun Sprint :: "header \<Rightarrow> string" where
  "Sprint (HText s) = s"
| "Sprint (HInt i) = show_int i"
| "Sprint (HBool b) = (if b then ''true'' else ''false'')"
| "Sprint HNil = ''<nil>''"
| "Sprint (HOther s) = s"

text \<open>\<open>None\<close> is the nil table of a delivery without headers: it can be read, a write to it panics.\<close>

type_synonym carrier = "(string \<rightharpoonup> header) option"

definition carrier_Get :: "carrier \<Rightarrow> string \<Rightarrow> string" where
  "carrier_Get c key =
     (case c of
        None \<Rightarrow> ''''
      | Some t \<Rightarrow> (case t key of None \<Rightarrow> '''' | Some v \<Rightarrow> Sprint v))"

definition carrier_Set :: "carrier \<Rightarrow> string \<Rightarrow> string \<Rightarrow> carrier go_result" where
  "carrier_Set c key v =
     (case c of
        None \<Rightarrow> Panicked ''assignment to entry in nil map''
      | Some t \<Rightarrow> Ok (Some (t(key \<mapsto> HText v))))"

text \<open>Any enumeration of the keys.\<close>

definition carrier_Keys :: "carrier \<Rightarrow> string list \<Rightarrow> bool" where
  "carrier_Keys c keys \<longleftrightarrow> distinct keys \<and> set keys = (case c of None \<Rightarrow> {} | Some t \<Rightarrow> dom t)"

text \<open>What a propagator relies on: the interface \<open>propagation.TextMapCarrier\<close>.\<close>

locale text_map_carrier =
  fixes get :: "'c \<Rightarrow> string \<Rightarrow> string"
    and put :: "'c \<Rightarrow> string \<Rightarrow> string \<Rightarrow> 'c go_result"
    and keys :: "'c \<Rightarrow> string list \<Rightarrow> bool"
    and writable :: "'c \<Rightarrow> bool"
  assumes put_ok: "writable c \<Longrightarrow> \<exists>c'. put c k v = Ok c'"
    and put_get: "put c k v = Ok c' \<Longrightarrow> writable c' \<and> get c' k = v \<and> (\<forall>j. j \<noteq> k \<longrightarrow> get c' j = get c j)"
    and put_keys: "put c k v = Ok c' \<Longrightarrow> keys c ks \<Longrightarrow> keys c' ks' \<Longrightarrow> set ks' = insert k (set ks)"
    and absent: "keys c ks \<Longrightarrow> k \<notin> set ks \<Longrightarrow> get c k = ''''"
begin

text \<open>Injecting the fields of a trace context, one after the other.\<close>

primrec inject :: "(string \<times> string) list \<Rightarrow> 'c \<Rightarrow> 'c go_result" where
  "inject [] c = Ok c"
| "inject (f # fs) c = (case put c (fst f) (snd f) of Ok c' \<Rightarrow> inject fs c' | Err e \<Rightarrow> Err e | Panicked p \<Rightarrow> Panicked p)"

lemma inject_get:
  "writable c \<Longrightarrow> distinct (map fst fs) \<Longrightarrow>
   \<exists>c'. inject fs c = Ok c' \<and> writable c' \<and> (\<forall>(k, v) \<in> set fs. get c' k = v) \<and>
     (\<forall>j. j \<notin> fst ` set fs \<longrightarrow> get c' j = get c j)"
proof (induction fs arbitrary: c)
  case Nil
  then show ?case by auto
next
  case (Cons f fs)
  from put_ok [OF Cons.prems(1)] obtain c1 where c1: "put c (fst f) (snd f) = Ok c1" by blast
  note p = put_get [OF c1]
  from Cons.IH [of c1] p Cons.prems(2) obtain c' where
    c': "inject fs c1 = Ok c'" "writable c'" "\<forall>(k, v) \<in> set fs. get c' k = v"
      "\<forall>j. j \<notin> fst ` set fs \<longrightarrow> get c' j = get c1 j" by auto
  from Cons.prems(2) have "fst f \<notin> fst ` set fs" by auto
  with c' p have "get c' (fst f) = snd f" by simp
  with c1 c' p show ?case by (auto simp: split_beta)
qed

end

interpretation header_carrier: text_map_carrier carrier_Get carrier_Set carrier_Keys "\<lambda>c. c \<noteq> None"
  by unfold_locales (auto simp: carrier_Get_def carrier_Set_def carrier_Keys_def split: option.splits)

subsection \<open>The span of a delivery\<close>

record span_delivery =
  Headers :: carrier
  RoutingKey :: string
  Exchange :: string
  MessageId :: string
  CorrelationId :: string
  Type :: string
  DeliveryTag :: "64 word"
  BodyLength :: int

datatype attr_value = AText string | AInt int

definition RequestAttributes :: "string \<Rightarrow> string \<times> attr_value" where
  "RequestAttributes employeeName = (''staff.employee.name'', AText employeeName)"

definition consumerSpanName :: "string \<Rightarrow> span_delivery \<Rightarrow> string" where
  "consumerSpanName queueName d =
     (if RoutingKey d \<noteq> '''' then queueName @ '' receive '' @ RoutingKey d else queueName @ '' receive'')"

text \<open>The attributes of \<open>StartConsumerSpan\<close>; the unsigned tag is read as a signed number.\<close>

definition consumer_attrs :: "string \<Rightarrow> span_delivery \<Rightarrow> (string \<times> attr_value) list" where
  "consumer_attrs queueName d =
     [(''messaging.system'', AText ''rabbitmq''),
      (''messaging.operation'', AText ''process''),
      (''messaging.destination.name'', AText queueName),
      (''messaging.rabbitmq.routing_key'', AText (RoutingKey d)),
      (''messaging.message.body.size'', AInt (BodyLength d)),
      (''messaging.rabbitmq.delivery_tag'', AInt (sint (DeliveryTag d)))] @
     (if Exchange d \<noteq> '''' then [(''messaging.rabbitmq.exchange'', AText (Exchange d))] else []) @
     (if MessageId d \<noteq> '''' then [(''messaging.message.id'', AText (MessageId d))] else []) @
     (if CorrelationId d \<noteq> '''' then [(''messaging.message.conversation_id'', AText (CorrelationId d))] else []) @
     (if Type d \<noteq> '''' then [(''messaging.message.type'', AText (Type d))] else [])"

text \<open>
  The propagator reads its remote parent through the carrier, the tracer starts the span.
\<close>

definition StartConsumerSpan ::
    "((string \<Rightarrow> string) \<Rightarrow> 'p) \<Rightarrow> span_delivery \<Rightarrow> string \<Rightarrow> 'p \<times> string \<times> (string \<times> attr_value) list" where
  "StartConsumerSpan extract d queueName =
     (extract (carrier_Get (Headers d)), consumerSpanName queueName d, consumer_attrs queueName d)"

text \<open>What an error leaves on a span; \<open>span\<close> says whether there is one.\<close>

datatype span_op = RecordError go_error | SetErrorStatus string

definition RecordSpanError :: "bool \<Rightarrow> go_error option \<Rightarrow> span_op list" where
  "RecordSpanError span err =
     (case err of
        None \<Rightarrow> []
      | Some e \<Rightarrow> if span then [RecordError e, SetErrorStatus (Error_db e)] else [])"

definition RecordDeliveryError :: "bool \<Rightarrow> go_error option \<Rightarrow> span_op list" where
  "RecordDeliveryError span err = RecordSpanError span err"

subsection \<open>Starting and stopping the providers\<close>

record TelemetryConfig =
  ServiceName :: string
  Version :: string
  OTLPEndpoint :: string
  OTLPGrpcPort :: int
  OTLPInsecure :: bool

datatype otlp_option = WithEndpoint string | WithInsecure

definition otelTraceOptions :: "TelemetryConfig \<Rightarrow> otlp_option list" where
  "otelTraceOptions c =
     (let opts = [WithEndpoint (OTLPEndpoint c @ '':'' @ show_int (OTLPGrpcPort c))]
      in if OTLPInsecure c then opts @ [WithInsecure] else opts)"

definition otelMetricOptions :: "TelemetryConfig \<Rightarrow> otlp_option list" where
  "otelMetricOptions c =
     (let opts = [WithEndpoint (OTLPEndpoint c @ '':'' @ show_int (OTLPGrpcPort c))]
      in if OTLPInsecure c then opts @ [WithInsecure] else opts)"

text \<open>
  The library: \<open>'r\<close> are its resources, \<open>'x\<close> its exporters; each call gives an error or a value.
  An instrument is asked for by its kind, name, unit and description.
\<close>

datatype instrument_kind = Int64Histogram | Int64Counter | Float64Histogram

record instrument =
  IKind :: instrument_kind
  IName :: string
  IUnit :: string
  IDescription :: string

record ('r, 'x) otel =
  NewResource :: "string \<Rightarrow> go_error + 'r"
  NewTraceExporter :: "otlp_option list \<Rightarrow> go_error + 'x"
  NewMetricExporter :: "otlp_option list \<Rightarrow> go_error + 'x"
  NewInstrument :: "instrument \<Rightarrow> go_error option"

datatype ('r, 'x) provider = TracerProvider 'x 'r | MeterProvider 'r 'x

definition newTraceProvider :: "('r, 'x) otel \<Rightarrow> 'r \<Rightarrow> TelemetryConfig \<Rightarrow> go_error + ('r, 'x) provider" where
  "newTraceProvider sdk otelResource c =
     (case NewTraceExporter sdk (otelTraceOptions c) of
        Inl err \<Rightarrow> Inl err
      | Inr exporter \<Rightarrow> Inr (TracerProvider exporter otelResource))"

definition newMeterProvider :: "('r, 'x) otel \<Rightarrow> 'r \<Rightarrow> TelemetryConfig \<Rightarrow> go_error + ('r, 'x) provider" where
  "newMeterProvider sdk otelResource c =
     (case NewMetricExporter sdk (otelMetricOptions c) of
        Inl err \<Rightarrow> Inl err
      | Inr exporter \<Rightarrow> Inr (MeterProvider otelResource exporter))"

text \<open>\<open>metrics.go\<close>: the first instrument that cannot be made ends the function.\<close>

definition StartupHistogram :: instrument where
  "StartupHistogram = \<lparr>IKind = Int64Histogram, IName = ''app.startup.duration'', IUnit = ''ms'',
     IDescription = ''Time from process start to ready state''\<rparr>"

definition MqPublishCounter :: instrument where
  "MqPublishCounter = \<lparr>IKind = Int64Counter, IName = ''mq.publish'', IUnit = ''1'',
     IDescription = ''Number of RabbitMQ publish attempts.''\<rparr>"

definition MqPublishDurationHist :: instrument where
  "MqPublishDurationHist = \<lparr>IKind = Float64Histogram, IName = ''mq.publish.duration_ms'', IUnit = ''ms'',
     IDescription = ''RabbitMQ publish end-to-end duration in milliseconds.''\<rparr>"

definition initMetrics :: "('r, 'x) otel \<Rightarrow> go_error option" where
  "initMetrics sdk =
     (case NewInstrument sdk StartupHistogram of
        Some err \<Rightarrow> Some err
      | None \<Rightarrow>
     (case NewInstrument sdk MqPublishCounter of
        Some err \<Rightarrow> Some err
      | None \<Rightarrow>
     (case NewInstrument sdk MqPublishDurationHist of
        Some err \<Rightarrow> Some err
      | None \<Rightarrow> None)))"

text \<open>
  The function \<open>Init\<close> returns: both providers are shut down, \<open>errors.Join\<close> collects what failed
  (no error is the empty list). \<open>stop p\<close> is the answer of \<open>p\<close>'s \<open>Shutdown\<close>; the result names the
  providers that were shut down.
\<close>

definition otel_shutdown ::
    "'p \<Rightarrow> 'p \<Rightarrow> ('p \<Rightarrow> go_error option) \<Rightarrow> 'p list \<times> go_error list" where
  "otel_shutdown traceProvider meterProvider stop =
     (let errs = [];
          errs1 = (case stop traceProvider of Some err \<Rightarrow> errs @ [err] | None \<Rightarrow> errs);
          errs2 = (case stop meterProvider of Some err \<Rightarrow> errs1 @ [err] | None \<Rightarrow> errs1)
      in ([traceProvider, meterProvider], errs2))"

datatype propagator = B3 | TraceContext | Baggage

datatype 'p otel_global = SetTracerProvider 'p | SetMeterProvider 'p | SetTextMapPropagator "propagator list"

definition Init ::
    "('r, 'x) otel \<Rightarrow> TelemetryConfig \<Rightarrow>
     (go_error + ((('r, 'x) provider \<Rightarrow> go_error option) \<Rightarrow> ('r, 'x) provider list \<times> go_error list)) \<times>
     ('r, 'x) provider otel_global list \<times> (level \<times> string) list" where
  "Init sdk c =
     (case NewResource sdk (ServiceName c @ '':'' @ Version c) of
        Inl err \<Rightarrow> (Inl err, [], [(Error, ''create otel resource'')])
      | Inr otelResource \<Rightarrow>
     (case newTraceProvider sdk otelResource c of
        Inl err \<Rightarrow> (Inl err, [], [(Error, ''create trace provider'')])
      | Inr traceProvider \<Rightarrow>
     (case newMeterProvider sdk otelResource c of
        Inl err \<Rightarrow> (Inl err, [], [(Error, ''create meter provider'')])
      | Inr meterProvider \<Rightarrow>
          (let globals = [SetTracerProvider traceProvider, SetMeterProvider meterProvider,
                          SetTextMapPropagator [B3, TraceContext, Baggage]] in
           case initMetrics sdk of
             Some err \<Rightarrow> (Inl err, globals, [(Error, ''create startup histogram'')])
           | None \<Rightarrow> (Inr (otel_shutdown traceProvider meterProvider), globals, [])))))"

subsection \<open>The log handler\<close>

record log_record =
  RecLevel :: level
  RecMessage :: string
  RecAttrs :: "(string \<times> string) list"

text \<open>A \<open>slog.Handler\<close> with states \<open>'h\<close> and outcome \<open>'o\<close> of handling a record.\<close>

record ('h, 'o) slog_handler =
  Enabled :: "'h \<Rightarrow> level \<Rightarrow> bool"
  Handle :: "'h \<Rightarrow> log_record \<Rightarrow> 'o"
  WithAttrs :: "'h \<Rightarrow> (string \<times> string) list \<Rightarrow> 'h"
  WithGroup :: "'h \<Rightarrow> string \<Rightarrow> 'h"

record 'h TraceHandler =
  base :: 'h

text \<open>\<open>sc\<close>: the ids of the span in the context, where it has a valid one.\<close>

definition trace_Enabled :: "('h, 'o) slog_handler \<Rightarrow> 'h TraceHandler \<Rightarrow> level \<Rightarrow> bool" where
  "trace_Enabled H h lv = Enabled H (base h) lv"

definition trace_Handle ::
    "('h, 'o) slog_handler \<Rightarrow> 'h TraceHandler \<Rightarrow> (string \<times> string) option \<Rightarrow> log_record \<Rightarrow> 'o" where
  "trace_Handle H h sc r =
     (let r' = (case sc of
                  Some (trace_id, span_id) \<Rightarrow>
                    r\<lparr>RecAttrs := RecAttrs r @ [(''trace_id'', trace_id), (''span_id'', span_id)]\<rparr>
                | None \<Rightarrow> r)
      in Handle H (base h) r')"

definition trace_WithAttrs :: "('h, 'o) slog_handler \<Rightarrow> 'h TraceHandler \<Rightarrow> (string \<times> string) list \<Rightarrow> 'h TraceHandler" where
  "trace_WithAttrs H h as = \<lparr>base = WithAttrs H (base h) as\<rparr>"

definition trace_WithGroup :: "('h, 'o) slog_handler \<Rightarrow> 'h TraceHandler \<Rightarrow> string \<Rightarrow> 'h TraceHandler" where
  "trace_WithGroup H h name = \<lparr>base = WithGroup H (base h) name\<rparr>"

text \<open>\<open>NewLogger\<close>: the level of the configuration, the name of the host on every line.\<close>

definition NewLogger :: "('h, 'o) slog_handler \<Rightarrow> (int \<Rightarrow> 'h) \<Rightarrow> int \<Rightarrow> go_error + string \<Rightarrow> 'h TraceHandler" where
  "NewLogger H NewJSONHandler lv hostname =
     (let traceHandler = \<lparr>base = NewJSONHandler lv\<rparr>;
          host = (case hostname of Inl err \<Rightarrow> ''unknown'' | Inr h \<Rightarrow> h)
      in trace_WithAttrs H traceHandler [(''app'', host)])"

subsection \<open>Properties\<close>

lemma sint_wraps: "sint (w :: 64 word) = (if uint w < 2 ^ 63 then uint w else uint w - 2 ^ 64)"
proof -
  have "sint w = signed_take_bit 63 (uint w)" by (simp add: sint_uint)
  also have "\<dots> = (if uint w < 2 ^ 63 then uint w else uint w - 2 ^ 64)"
  proof -
    have u: "0 \<le> uint w" "uint w < 2 ^ 64" using uint_lt2p [of w] by simp_all
    have "(uint w + 2 ^ 63) mod 2 ^ 64 = uint w - 2 ^ 63" if "\<not> uint w < 2 ^ 63"
    proof -
      have "uint w + 2 ^ 63 = uint w - 2 ^ 63 + 2 ^ 64" by simp
      then have "(uint w + 2 ^ 63) mod 2 ^ 64 = (uint w - 2 ^ 63 + 2 ^ 64) mod 2 ^ 64" by (rule arg_cong)
      also have "\<dots> = (uint w - 2 ^ 63) mod 2 ^ 64" by (rule mod_add_self2)
      also have "\<dots> = uint w - 2 ^ 63" using u that by (intro mod_pos_pos_trivial) simp_all
      finally show ?thesis .
    qed
    then show ?thesis using u by (simp add: signed_take_bit_eq_take_bit_shift take_bit_eq_mod add.commute)
  qed
  finally show ?thesis .
qed

text \<open>The span of a delivery has each attribute once: the queue, the routing key and the size always,
  exchange, message id, conversation id and type exactly where they are not empty; its delivery
  tag, an unsigned number of 64 bits in the protocol, is reported as it is below 2 to the 63 and
  as a negative number from there on.\<close>

theorem consumer_span_attributes:
  "let a = consumer_attrs q d in
     distinct (map fst a) \<and>
     map_of a ''messaging.destination.name'' = Some (AText q) \<and>
     map_of a ''messaging.message.body.size'' = Some (AInt (BodyLength d)) \<and>
     map_of a ''messaging.rabbitmq.exchange'' = (if Exchange d = '''' then None else Some (AText (Exchange d))) \<and>
     map_of a ''messaging.message.id'' = (if MessageId d = '''' then None else Some (AText (MessageId d))) \<and>
     map_of a ''messaging.message.conversation_id'' =
       (if CorrelationId d = '''' then None else Some (AText (CorrelationId d))) \<and>
     map_of a ''messaging.message.type'' = (if Type d = '''' then None else Some (AText (Type d))) \<and>
     map_of a ''messaging.rabbitmq.delivery_tag'' =
       Some (AInt (if uint (DeliveryTag d) < 2 ^ 63 then uint (DeliveryTag d) else uint (DeliveryTag d) - 2 ^ 64))"
  unfolding Let_def sint_wraps [symmetric] by (simp add: consumer_attrs_def)

text \<open>Headers that exist behave as a carrier: fields with different keys written into them are read
  back as they were written and leave every other header as it was; headers that are missing
  read as empty, and writing to them panics.\<close>

theorem headers_carry_fields:
  assumes "distinct (map fst fs)"
  shows "(\<exists>c'. header_carrier.inject fs (Some t) = Ok c' \<and> (\<forall>(k, v) \<in> set fs. carrier_Get c' k = v) \<and>
      (\<forall>j. j \<notin> fst ` set fs \<longrightarrow> carrier_Get c' j = carrier_Get (Some t) j)) \<and>
    carrier_Get None k = '''' \<and> (\<exists>p. carrier_Set None k v = Panicked p)"
  using header_carrier.inject_get [OF _ assms, of "Some t"] by (auto simp: carrier_Get_def carrier_Set_def)

theorem headers_carry_fields_witness:
  "\<exists>c'. header_carrier.inject [(''traceparent'', ''00-ab''), (''baggage'', ''k=v'')] (Some [''n'' \<mapsto> HInt 7]) = Ok c' \<and>
     carrier_Get c' ''traceparent'' = ''00-ab'' \<and> carrier_Get c' ''n'' = ''7''"
proof -
  have d: "distinct (map fst [(''traceparent'', ''00-ab''), (''baggage'', ''k=v'')])" by simp
  obtain c' where c': "header_carrier.inject [(''traceparent'', ''00-ab''), (''baggage'', ''k=v'')] (Some [''n'' \<mapsto> HInt 7]) = Ok c'"
    "carrier_Get c' ''traceparent'' = ''00-ab''" "carrier_Get c' ''n'' = carrier_Get (Some [''n'' \<mapsto> HInt 7]) ''n''"
    using headers_carry_fields [OF d, of "[''n'' \<mapsto> HInt 7]"] by fastforce
  moreover have "carrier_Get (Some [''n'' \<mapsto> HInt 7]) ''n'' = ''7''" by code_simp
  ultimately show ?thesis by (intro exI [of _ c']) (simp only: simp_thms)
qed

text \<open>C38: telemetry starts exactly if the resource, both exporters and all three instruments can be made;
  a start that fails for the resource or an exporter has set no global, while one that fails for an
  instrument has (the providers stay set and nobody shuts them down); and the shutdown of a started
  telemetry shuts down exactly the two providers that were made, whichever of them fails, and
  reports exactly their errors, in order.\<close>

theorem telemetry_starts_and_stops:
  "case NewResource sdk (ServiceName c @ '':'' @ Version c) of
     Inl err \<Rightarrow> fst (Init sdk c) = Inl err \<and> fst (snd (Init sdk c)) = []
   | Inr r \<Rightarrow>
     (case (NewTraceExporter sdk (otelTraceOptions c), NewMetricExporter sdk (otelMetricOptions c)) of
        (Inr t, Inr m) \<Rightarrow>
          fst (snd (Init sdk c)) = [SetTracerProvider (TracerProvider t r), SetMeterProvider (MeterProvider r m),
            SetTextMapPropagator [B3, TraceContext, Baggage]] \<and>
          ((\<not> isl (fst (Init sdk c))) = (NewInstrument sdk StartupHistogram = None \<and>
             NewInstrument sdk MqPublishCounter = None \<and> NewInstrument sdk MqPublishDurationHist = None)) \<and>
          (case fst (Init sdk c) of
             Inl err \<Rightarrow> snd (snd (Init sdk c)) = [(Error, ''create startup histogram'')]
           | Inr shut \<Rightarrow> snd (snd (Init sdk c)) = [] \<and>
               shut stop = ([TracerProvider t r, MeterProvider r m],
                 List.map_filter stop [TracerProvider t r, MeterProvider r m]))
      | _ \<Rightarrow> isl (fst (Init sdk c)) \<and> fst (snd (Init sdk c)) = [])"
  by (simp add: Init_def newTraceProvider_def newMeterProvider_def initMetrics_def otel_shutdown_def
      Let_def map_filter_simps split: option.split sum.split)

text \<open>The log handler only adds the ids of the trace: without a valid span a record goes to the base
  handler as it is; with one it gets exactly the two ids, after its own attributes; and the level
  check, attributes and groups are the base handler's own.\<close>

theorem trace_handler_adds_ids:
  "trace_Handle H h None r = Handle H (base h) r \<and>
   trace_Handle H h (Some (t, s)) r =
     Handle H (base h) \<lparr>RecLevel = RecLevel r, RecMessage = RecMessage r,
       RecAttrs = RecAttrs r @ [(''trace_id'', t), (''span_id'', s)]\<rparr> \<and>
   trace_Handle H (trace_WithAttrs H h as) None r = Handle H (WithAttrs H (base h) as) r \<and>
   trace_Handle H (trace_WithGroup H h g) None r = Handle H (WithGroup H (base h) g) r \<and>
   trace_Enabled H (trace_WithAttrs H h as) lv = Enabled H (WithAttrs H (base h) as) lv"
  by (cases r) (simp add: trace_Handle_def trace_WithAttrs_def trace_WithGroup_def trace_Enabled_def)

end
