(* ===== verification/Program.thy ===== *)
theory Program
  imports Transport Timed_Service Telemetry
begin

text \<open>
  The whole process: \<^verbatim>\<open>internal/main.go\<close> over the models of what it calls. \<open>start_up\<close> is \<open>run\<close> up to
  the start of the services, \<open>program_shutdown\<close> is \<open>shutdown\<close>, and between them the process is the
  service in time (\<open>Timed_Service\<close>); \<open>prog_step\<close> puts them together until the process exits.
  \<open>Startup.run\<close> and \<open>Startup.shutdown\<close> are their specification: stages that succeed or fail.
\<close>

subsection \<open>Configuration and libraries\<close>

record ClockSimulator =
  GrpcHost :: string
  GrpcPort :: int

text \<open>The names of the collections are read, and then used nowhere.\<close>

record Collections =
  CottageCollection :: string
  StockCollection :: string

record Configs =
  ServerCfg :: ServerConfig
  LogLevel :: int
  TelemetryCfg :: TelemetryConfig
  OTLPHealthPort :: int
  StaffCfg :: Employees
  MongoCfg :: MongoConn
  CollectionsCfg :: Collections
  RabbitCfg :: RabbitMqConfig
  CleaningCfg :: consumer_cfg
  DayChangeCfg :: consumer_cfg
  HourChangeCfg :: consumer_cfg
  ClockCfg :: ClockSimulator

text \<open>The libraries below, and what they answer when they are told to stop.\<close>

record ('r, 'x, 'd, 'b, 'm, 'c) libs =
  Otel :: "('r, 'x) otel"
  Driver :: "'d mongo_driver"
  Amqp :: "('b, 'm) amqp"
  Grpc :: "string \<Rightarrow> go_error + 'c"
  StopProvider :: "('r, 'x) provider \<Rightarrow> go_error option"
  CloseClock :: "'c \<Rightarrow> go_error option"
  StopServer :: "http_server \<Rightarrow> go_error option"

text \<open>What \<open>run\<close> holds once everything is started.\<close>

record ('r, 'x, 'c) running =
  ShutdownTelemetry :: "(('r, 'x) provider \<Rightarrow> go_error option) \<Rightarrow> ('r, 'x) provider list \<times> go_error list"
  MongoDB :: MongoInfra
  RabbitMQ :: Rabbitmq
  ClockConn :: 'c
  Server :: http_server
  Svcs :: Services

definition mq_logs :: "'b mq \<Rightarrow> log_line list" where
  "mq_logs m = List.map_filter (\<lambda>e. case e of MqLog l t \<Rightarrow> Some (l, t) | _ \<Rightarrow> None) (trace m)"

subsection \<open>The start (run, up to services.Start)\<close>

text \<open>
  The dependencies handed to \<open>NewServices\<close> are the pointers that the stages before returned, none
  nil. The goroutine that listens logs on its own (\<open>listen_log\<close>).
\<close>

definition start_up ::
    "('r, 'x, 'd, 'b, 'm, 'c) libs \<Rightarrow> go_error option \<times> Configs \<Rightarrow> 'd \<Rightarrow> 'b \<Rightarrow>
     ('r, 'x, 'c) running go_result \<times> log_line list" where
  "start_up L parsed d b =
     (case Transport.LoadConfigs parsed of
        (Inl err, ls) \<Rightarrow> (Err err, ls)
      | (Inr c, ls) \<Rightarrow>
     (let ls1 = ls @ [(Info, ''staff simulator starting'')] in
      case Init (Otel L) (TelemetryCfg c) of
        (Inl err, globals, ls2) \<Rightarrow> (Err err, ls1 @ ls2)
      | (Inr shutdownTelemetry, globals, ls2) \<Rightarrow>
     (case infra_NewMongoDb (Driver L) (MongoCfg c) d of
        (Inl err, d1) \<Rightarrow> (Err err, ls1 @ ls2)
      | (Inr mongoDB, d1) \<Rightarrow>
     (case NewRabbitmq (Amqp L) (RabbitCfg c) (CleaningCfg c) (DayChangeCfg c) (HourChangeCfg c) b of
        (Err err, m) \<Rightarrow> (Err err, ls1 @ ls2 @ mq_logs m)
      | (Panicked p, m) \<Rightarrow> (Panicked p, ls1 @ ls2 @ mq_logs m)
      | (Ok rabbitmq, m) \<Rightarrow>
     (let ls3 = ls1 @ ls2 @ mq_logs m in
      case NewClockClient (Grpc L) (GrpcHost (ClockCfg c)) (GrpcPort (ClockCfg c)) of
        Inl err \<Rightarrow> (Err err, ls3)
      | Inr clockClient \<Rightarrow>
     (let httpServer = StartHTTPServer (ServerCfg c) in
      case NewServices (StaffCfg c) wired_deps of
        Err err \<Rightarrow> (Err err, ls3)
      | Panicked p \<Rightarrow> (Panicked p, ls3)
      | Ok services \<Rightarrow>
          (Ok \<lparr>ShutdownTelemetry = shutdownTelemetry, MongoDB = mongoDB, RabbitMQ = rabbitmq,
               ClockConn = clockClient, Server = httpServer, Svcs = services\<rparr>, ls3)))))))"

subsection \<open>The end (shutdown)\<close>

definition joined :: "go_error list \<Rightarrow> go_error option" where
  "joined errs = (case errs of [] \<Rightarrow> None | [e] \<Rightarrow> Some e
     | e # es \<Rightarrow> Some (ErrorString (concat (Error_db e # map (\<lambda>x. [char_of (10 :: nat)] @ Error_db x) es))))"

text \<open>
  What each call of \<open>shutdown\<close> answers, in order, from the state \<open>d\<close> of MongoDB and \<open>m\<close> of the
  broker's connection that the services have left; and those states at the end.
\<close>

definition closings ::
    "('r, 'x, 'd, 'b, 'm, 'c) libs \<Rightarrow> ('r, 'x, 'c) running \<Rightarrow> 'd \<Rightarrow> 'b mq \<Rightarrow>
     (resource \<times> go_error option) list \<times> 'd \<times> 'b mq" where
  "closings L r d m =
     (let e1 = joined (snd (ShutdownTelemetry r (StopProvider L)));
          (e2, d1) = Mdb_Close (Driver L) (Transport.MongoConnection (MongoDB r)) d;
          (e3, m1) = CloseChannel (Amqp L) (c_channel (HourChangeConsumer (RabbitMQ r))) m;
          (e4, m2) = CloseChannel (Amqp L) (c_channel (DayChangeConsumer (RabbitMQ r))) m1;
          (e5, m3) = CloseChannel (Amqp L) (c_channel (CleaningConsumer (RabbitMQ r))) m2;
          (e6, m4) = CloseConnection (Amqp L) m3;
          e7 = CloseClock L (ClockConn r);
          e8 = StopServer L (Server r)
      in ([(Telemetry, e1), (Startup.MongoConnection, e2), (HourChannel, e3), (DayChannel, e4),
           (CleaningChannel, e5), (RabbitConnection, e6), (ClockClient, e7), (HttpServer, e8)], d1, m4))"

definition closing_logs :: "(resource \<times> go_error option) list \<Rightarrow> log_line list" where
  "closing_logs cs = concat (map (\<lambda>(r, e). if e \<noteq> None then [(Error, shutdown_message r)] else []) cs)"

definition program_shutdown ::
    "('r, 'x, 'd, 'b, 'm, 'c) libs \<Rightarrow> ('r, 'x, 'c) running \<Rightarrow> 'd \<Rightarrow> 'b mq \<Rightarrow>
     resource list \<times> log_line list \<times> 'd \<times> 'b mq" where
  "program_shutdown L r d m =
     (case closings L r d m of (cs, d', m') \<Rightarrow> (map fst cs, closing_logs cs, d', m'))"


subsection \<open>The stages of the specification\<close>

definition left_of :: "'e + 'a \<Rightarrow> 'e option" where
  "left_of x = (case x of Inl e \<Rightarrow> Some e | Inr y \<Rightarrow> None)"

definition err_of :: "'a go_result \<Rightarrow> go_error option" where
  "err_of x = (case x of Err e \<Rightarrow> Some e | _ \<Rightarrow> None)"

text \<open>What each stage returns when it is reached.\<close>

definition stage_result ::
    "('r, 'x, 'd, 'b, 'm, 'c) libs \<Rightarrow> go_error option \<times> Configs \<Rightarrow> 'd \<Rightarrow> 'b \<Rightarrow> stage \<Rightarrow> go_error option" where
  "stage_result L parsed d b s =
     (let c = snd parsed in
      case s of
        stage.LoadConfigs \<Rightarrow> fst parsed
      | InitTelemetry \<Rightarrow> left_of (fst (Init (Otel L) (TelemetryCfg c)))
      | StartMongo \<Rightarrow> left_of (fst (NewMongoDb (Driver L) (MongoCfg c) d))
      | StartRabbit \<Rightarrow>
          err_of (fst (NewRabbitmq (Amqp L) (RabbitCfg c) (CleaningCfg c) (DayChangeCfg c) (HourChangeCfg c) b))
      | StartClock \<Rightarrow> left_of (Grpc L (GrpcHost (ClockCfg c) @ '':'' @ show_int (GrpcPort (ClockCfg c))))
      | BuildServices \<Rightarrow> err_of (NewServices (StaffCfg c) wired_deps))"

lemma NewServices_no_panic: "NewServices staff wired_deps \<noteq> Panicked p"
  using services_built [of staff] by (cases "NewServices staff wired_deps") auto

lemma NewRabbitmq_no_panic: "NewRabbitmq A config cl dc hc b \<noteq> (Panicked p, m)"
proof
  assume a: "NewRabbitmq A config cl dc hc b = (Panicked p, m)"
  obtain e m1 where c: "NewRabbitMqConnection A config b = (e, m1)" by fastforce
  have "fst (NewRabbitmq A config cl dc hc b) \<noteq> Panicked p"
  proof (cases e)
    case None
    show ?thesis
      unfolding NewRabbitmq_def c None prod.case option.case
      by (rule bind_result_no_panic NewRabbitmqConsumer_no_panic bound_consumer_no_panic | simp)+
  qed (simp add: NewRabbitmq_def c)
  with a show False by simp
qed

text \<open>The detailed start fails with the error with which the staged one fails, and never panics.\<close>

lemma start_up_run:
  "fst (start_up L parsed d b) =
     (case snd (run (stage_result L parsed d b) ce) of
        Some e \<Rightarrow> Err e | None \<Rightarrow> fst (start_up L parsed d b)) \<and>
   (snd (run (stage_result L parsed d b) ce) = None \<longrightarrow> (\<exists>r. fst (start_up L parsed d b) = Ok r)) \<and>
   (\<forall>r. fst (start_up L parsed d b) = Ok r \<longrightarrow> snd (run (stage_result L parsed d b) ce) = None)"
proof -
  obtain pe c where p: "parsed = (pe, c)" by fastforce
  obtain ti g tl where t: "Init (Otel L) (TelemetryCfg c) = (ti, g, tl)" by (metis surj_pair)
  obtain mi d1 where mo: "NewMongoDb (Driver L) (MongoCfg c) d = (mi, d1)" by fastforce
  obtain ri m where rb: "NewRabbitmq (Amqp L) (RabbitCfg c) (CleaningCfg c) (DayChangeCfg c) (HourChangeCfg c) b = (ri, m)"
    by fastforce
  define si where si: "si = NewServices (StaffCfg c) wired_deps"
  define ci where ci: "ci = Grpc L (GrpcHost (ClockCfg c) @ '':'' @ show_int (GrpcPort (ClockCfg c)))"
  have np: "\<forall>q. ri \<noteq> Panicked q" "\<forall>q. si \<noteq> Panicked q"
    using NewRabbitmq_no_panic rb NewServices_no_panic [of "StaffCfg c"] si by fastforce+
  have nc: "NewClockClient (Grpc L) (GrpcHost (ClockCfg c)) (GrpcPort (ClockCfg c)) = ci"
    by (simp add: NewClockClient_def ci split: sum.split)
  note start = start_up_def Transport.LoadConfigs_def p prod.case option.case sum.case t infra_NewMongoDb_def mo rb
    nc Let_def si [symmetric]
  have res: "stage_result L parsed d b stage.LoadConfigs = pe" "stage_result L parsed d b InitTelemetry = left_of ti"
    "stage_result L parsed d b StartMongo = left_of mi" "stage_result L parsed d b StartRabbit = err_of ri"
    "stage_result L parsed d b StartClock = left_of ci" "stage_result L parsed d b BuildServices = err_of si"
    by (simp_all add: stage_result_def p t mo rb si ci)
  define R where R: "R = snd (run (stage_result L parsed d b) ce)"
  have run: "R =
      (case pe of Some e \<Rightarrow> Some e | None \<Rightarrow> case left_of ti of Some e \<Rightarrow> Some e | None \<Rightarrow>
       case left_of mi of Some e \<Rightarrow> Some e | None \<Rightarrow> case err_of ri of Some e \<Rightarrow> Some e | None \<Rightarrow>
       case left_of ci of Some e \<Rightarrow> Some e | None \<Rightarrow> err_of si)"
    by (simp add: R run_def res split: option.split)
  show ?thesis
  proof (cases pe)
    case (Some e)
    then show ?thesis unfolding R [symmetric] run by (simp add: start)
  next
    case pe: None
    show ?thesis
    proof (cases ti)
      case (Inl e)
      then show ?thesis unfolding R [symmetric] run by (simp add: start pe left_of_def)
    next
      case ti: (Inr tel)
      show ?thesis
      proof (cases mi)
        case (Inl e)
        then show ?thesis unfolding R [symmetric] run by (simp add: start pe ti left_of_def)
      next
        case mi: (Inr client)
        show ?thesis using np unfolding R [symmetric] run
          by (cases ri; cases ci; cases si) (simp_all add: start pe ti mi left_of_def err_of_def)
      qed
    qed
  qed
qed


text \<open>The closings are those of the specification, with the answers of the libraries.\<close>

definition close_result :: "(resource \<times> go_error option) list \<Rightarrow> resource \<Rightarrow> go_error option" where
  "close_result cs r = (case map_of cs r of Some e \<Rightarrow> e | None \<Rightarrow> None)"

lemma program_shutdown_spec:
  assumes "closings L r d m = (cs, d', m')"
  shows "program_shutdown L r d m =
    (fst (shutdown (close_result cs)), snd (shutdown (close_result cs)), d', m')"
proof -
  from assms obtain e1 e2 e3 e4 e5 e6 e7 e8 where cs:
    "cs = [(Telemetry, e1), (Startup.MongoConnection, e2), (HourChannel, e3), (DayChannel, e4),
           (CleaningChannel, e5), (RabbitConnection, e6), (ClockClient, e7), (HttpServer, e8)]"
    by (auto simp: closings_def Let_def split: prod.splits)
  show ?thesis
    by (simp add: program_shutdown_def assms closing_logs_def shutdown_def cs close_result_def)
qed

text \<open>After it the connection to RabbitMQ is closed for good.\<close>

lemma closings_closed: "closings L r d m = (cs, d', m') \<Longrightarrow> closed (connection m')"
  by (auto simp: closings_def CloseConnection_def Let_def split: prod.splits option.splits if_splits
      dest!: lib_frame)


subsection \<open>The process\<close>

text \<open>
  The services consume their queues when they start; each does so while others use the connection,
  so the states \<open>mc\<close>, \<open>mh\<close>, \<open>md\<close> that it is in are any. Likewise the states at the shutdown. \<open>run\<close>
  goes on to the shutdown when the manager has returned and the context is done: it does not wait
  for the goroutines of the employees.
\<close>

datatype ('r, 'x, 'c, 'w) phase = Booting | Serving "('r, 'x, 'c) running" "'w timed" | Exited nat

datatype prog_label =
    Boot "log_line list" | Serve timed_label | Close "resource list" "log_line list"
  | FailStart go_error "log_line list" | Crash

definition crashed :: "'a go_result \<Rightarrow> bool" where
  "crashed x = (case x of Panicked p \<Rightarrow> True | _ \<Rightarrow> False)"

definition consumed :: "('b, 'm) amqp \<Rightarrow> rabbitmqConsumer \<Rightarrow> 'b mq \<Rightarrow> nat go_result" where
  "consumed A c m = fst (Consume A c m)"

inductive prog_step ::
    "('r, 'x, 'd, 'b, 'm, 'c) libs \<Rightarrow> go_error option \<times> Configs \<Rightarrow> 'd \<Rightarrow> 'b \<Rightarrow> proto \<Rightarrow> 'w ports \<Rightarrow> 'w \<Rightarrow>
     ('r, 'x, 'c, 'w) phase \<Rightarrow> prog_label \<Rightarrow> ('r, 'x, 'c, 'w) phase \<Rightarrow> bool"
  for L :: "('r, 'x, 'd, 'b, 'm, 'c) libs" and parsed :: "go_error option \<times> Configs" and d :: 'd and b :: 'b
    and pb :: proto and P :: "'w ports" and w :: 'w where
  boot: "start_up L parsed d b = (Ok r, ls) \<Longrightarrow>
     rc = consumed (Amqp L) (CleaningConsumer (RabbitMQ r)) mc \<Longrightarrow>
     rh = consumed (Amqp L) (HourChangeConsumer (RabbitMQ r)) mh \<Longrightarrow>
     rd = consumed (Amqp L) (DayChangeConsumer (RabbitMQ r)) md \<Longrightarrow>
     \<not> crashed rc \<Longrightarrow> \<not> crashed rh \<Longrightarrow> \<not> crashed rd \<Longrightarrow>
     prog_step L parsed d b pb P w Booting (Boot ls)
       (Serving r (timed_start (Svcs r) (err_of rc) (err_of rh) (err_of rd) dc w))"
| boot_fails: "start_up L parsed d b = (Err e, ls) \<Longrightarrow>
     prog_step L parsed d b pb P w Booting (FailStart e (ls @ [(Error, ''staff simulator failed'')])) (Exited 1)"
| boot_panics: "start_up L parsed d b = (Panicked p, ls) \<Longrightarrow> prog_step L parsed d b pb P w Booting Crash (Exited 2)"
| consume_panics: "start_up L parsed d b = (Ok r, ls) \<Longrightarrow>
     c \<in> {CleaningConsumer (RabbitMQ r), HourChangeConsumer (RabbitMQ r), DayChangeConsumer (RabbitMQ r)} \<Longrightarrow>
     crashed (consumed (Amqp L) c m) \<Longrightarrow> prog_step L parsed d b pb P w Booting Crash (Exited 2)"
| serve: "timed_step pb P s l s' \<Longrightarrow> prog_step L parsed d b pb P w (Serving r s) (Serve l) (Serving r s')"
| close: "pos (manager (core s)) = Returned \<Longrightarrow> mgrCtxDone (manager (core s)) \<Longrightarrow>
     program_shutdown L r d' m' = (rs, ls, d'', m'') \<Longrightarrow>
     prog_step L parsed d b pb P w (Serving r s) (Close rs ((Info, ''shutdown signal received'') # ls)) (Exited 0)"

inductive prog_run ::
    "('r, 'x, 'd, 'b, 'm, 'c) libs \<Rightarrow> go_error option \<times> Configs \<Rightarrow> 'd \<Rightarrow> 'b \<Rightarrow> proto \<Rightarrow> 'w ports \<Rightarrow> 'w \<Rightarrow>
     prog_label list \<Rightarrow> ('r, 'x, 'c, 'w) phase \<Rightarrow> bool"
  for L :: "('r, 'x, 'd, 'b, 'm, 'c) libs" and parsed :: "go_error option \<times> Configs" and d :: 'd and b :: 'b
    and pb :: proto and P :: "'w ports" and w :: 'w where
  refl: "prog_run L parsed d b pb P w [] Booting"
| step: "prog_run L parsed d b pb P w ls p \<Longrightarrow> prog_step L parsed d b pb P w p l p' \<Longrightarrow>
     prog_run L parsed d b pb P w (ls @ [l]) p'"

inductive_cases prog_stepE: "prog_step L parsed d b pb P w p l p'"
inductive_cases exitedE: "prog_step L parsed d b pb P w (Exited n) l p'"

definition resources :: "resource list" where
  "resources = [Telemetry, Startup.MongoConnection, HourChannel, DayChannel, CleaningChannel, RabbitConnection,
     ClockClient, HttpServer]"

lemma shutdown_resources: "program_shutdown L r d m = (rs, ls, d', m') \<Longrightarrow> rs = resources"
  by (auto simp: program_shutdown_def closings_def resources_def Let_def split: prod.splits)

subsection \<open>What holds in every phase\<close>

lemma NewRabbitmq_ready:
  assumes "NewRabbitmq A config cl dc hc b = (Ok r, m)" "c \<in> {CleaningConsumer r, HourChangeConsumer r, DayChangeConsumer r}"
  shows "c_channel c \<noteq> None \<and> queue c \<noteq> None"
  using assms unfolding NewRabbitmq_def
  by (auto split: prod.splits option.splits simp: bind_result_Ok dest!: bound_consumer_ok)

lemma NewRabbitmq_exchanges:
  assumes "NewRabbitmq A config cl dc hc b = (Ok r, m)" "k \<in> {cl, dc, hc}"
  shows "ExchangeName (Binding k) \<noteq> ''''"
  using assms unfolding NewRabbitmq_def
  by (auto split: prod.splits option.splits simp: bind_result_Ok dest!: bound_consumer_ok)

lemma NewRabbitmq_consumes:
  assumes "NewRabbitmq A config cl dc hc b = (Ok r, m)" "c \<in> {CleaningConsumer r, HourChangeConsumer r, DayChangeConsumer r}"
  shows "\<not> crashed (consumed A c m')"
proof -
  from NewRabbitmq_ready [OF assms] have "queue c \<noteq> None" by simp
  then have "fst (Consume A c m') \<noteq> Panicked p" for p by (rule Consume_no_panic)
  then show ?thesis by (auto simp: crashed_def consumed_def split: go_result.splits)
qed

lemma start_up_ok:
  assumes "start_up L parsed d b = (Ok r, ls)"
  shows "fst parsed = None \<and>
    (\<exists>m. NewRabbitmq (Amqp L) (RabbitCfg (snd parsed)) (CleaningCfg (snd parsed)) (DayChangeCfg (snd parsed))
       (HourChangeCfg (snd parsed)) b = (Ok (RabbitMQ r), m)) \<and>
    NewServices (StaffCfg (snd parsed)) wired_deps = Ok (Svcs r)"
  using assms
  by (auto simp: start_up_def Transport.LoadConfigs_def Let_def
      split: prod.splits sum.splits option.splits go_result.splits)

text \<open>What the process has done when it serves, and how it can have ended.\<close>

definition served ::
    "('r, 'x, 'd, 'b, 'm, 'c) libs \<Rightarrow> go_error option \<times> Configs \<Rightarrow> 'd \<Rightarrow> 'b \<Rightarrow> proto \<Rightarrow> 'w ports \<Rightarrow> 'w \<Rightarrow>
     ('r, 'x, 'c) running \<Rightarrow> log_line list \<Rightarrow> timed_label list \<Rightarrow> 'w timed \<Rightarrow> bool" where
  "served L parsed d b pb P w r lg ts s \<longleftrightarrow>
     start_up L parsed d b = (Ok r, lg) \<and>
     (\<exists>e he de dc. timed_run pb P (timed_start (Svcs r) e he de dc w) ts s)"

definition exit_ok ::
    "('r, 'x, 'd, 'b, 'm, 'c) libs \<Rightarrow> go_error option \<times> Configs \<Rightarrow> 'd \<Rightarrow> 'b \<Rightarrow> proto \<Rightarrow> 'w ports \<Rightarrow> 'w \<Rightarrow>
     prog_label list \<Rightarrow> nat \<Rightarrow> bool" where
  "exit_ok L parsed d b pb P w ls n \<longleftrightarrow>
     (case n of
        0 \<Rightarrow> \<exists>r lg ts s d' m' d'' m'' lg'. served L parsed d b pb P w r lg ts s \<and>
               pos (manager (core s)) = Returned \<and> mgrCtxDone (manager (core s)) \<and>
               program_shutdown L r d' m' = (resources, lg', d'', m'') \<and>
               ls = Boot lg # map Serve ts @ [Close resources ((Info, ''shutdown signal received'') # lg')]
      | Suc 0 \<Rightarrow> \<exists>e lg. start_up L parsed d b = (Err e, lg) \<and>
               ls = [FailStart e (lg @ [(Error, ''staff simulator failed'')])]
      | _ \<Rightarrow> False)"

lemma prog_run_shape:
  "prog_run L parsed d b pb P w ls p \<Longrightarrow>
     (case p of
        Booting \<Rightarrow> ls = []
      | Serving r s \<Rightarrow> \<exists>lg ts. ls = Boot lg # map Serve ts \<and> served L parsed d b pb P w r lg ts s
      | Exited n \<Rightarrow> exit_ok L parsed d b pb P w ls n)"
proof (induction rule: prog_run.induct)
  case (step ls p l p')
  from step.hyps(2) show ?case
  proof (cases rule: prog_step.cases)
    case (boot r lg rc mc rh mh rd md dc)
    with step.IH have "ls = []" by simp
    moreover have "served L parsed d b pb P w r lg [] (timed_start (Svcs r) (err_of rc) (err_of rh) (err_of rd) dc w)"
      using boot unfolding served_def by (blast intro: timed_run.refl)
    ultimately show ?thesis unfolding boot by fastforce
  next
    case boot_fails
    with step.IH show ?thesis by (simp add: exit_ok_def)
  next
    case (boot_panics q lg)
    then have "fst (start_up L parsed d b) = Panicked q" by simp
    with start_up_run [of L parsed d b "\<lambda>_. None"] show ?thesis by (auto split: option.splits)
  next
    case (consume_panics r lg c m)
    from start_up_ok [OF consume_panics(4)] obtain config cl dc hc m1
      where "NewRabbitmq (Amqp L) config cl dc hc b = (Ok (RabbitMQ r), m1)" by blast
    from NewRabbitmq_consumes [OF this consume_panics(5)] consume_panics(6) show ?thesis by simp
  next
    case (serve s tl s' r)
    with step.IH obtain lg ts where st: "ls = Boot lg # map Serve ts" "served L parsed d b pb P w r lg ts s" by auto
    from st(2) serve(4) have "served L parsed d b pb P w r lg (ts @ [tl]) s'"
      unfolding served_def by (blast intro: timed_run.step)
    with st(1) serve show ?thesis by (fastforce intro: exI [of _ "ts @ [tl]"])
  next
    case (close s r d' m' rs lg' d'' m'')
    with step.IH obtain lg ts where st: "ls = Boot lg # map Serve ts" "served L parsed d b pb P w r lg ts s" by auto
    from shutdown_resources [OF close(6)] have rs: "rs = resources" .
    with st close show ?thesis unfolding exit_ok_def by fastforce
  qed
qed simp


lemma shutdown_logs:
  assumes "program_shutdown L r d m = (rs, lg, d', m')"
  shows "\<exists>closeErr. closings L r d m = (map (\<lambda>x. (x, closeErr x)) resources, d', m') \<and>
    lg = map (\<lambda>x. (Error, shutdown_message x)) (List.filter (\<lambda>x. closeErr x \<noteq> None) resources)"
proof -
  obtain cs d1 m1 where c: "closings L r d m = (cs, d1, m1)" by (metis surj_pair)
  note spec = program_shutdown_spec [OF c]
  from assms spec have lg: "lg = snd (shutdown (close_result cs))" and s: "d1 = d'" "m1 = m'" by auto
  have "cs = map (\<lambda>x. (x, close_result cs x)) resources"
    using c by (auto simp: closings_def resources_def close_result_def Let_def split: prod.splits)
  moreover have "lg = map (\<lambda>x. (Error, shutdown_message x)) (List.filter (\<lambda>x. close_result cs x \<noteq> None) resources)"
    unfolding lg using run_closes_everything [of "close_result cs"] by (simp add: resources_def)
  ultimately show ?thesis using c s by metis
qed

lemma served_requests:
  assumes "served L parsed d b pb P w r lg ts s" "pos (manager (core s)) = Returned"
  shows "\<exists>e ks. svc_run pb P (Start (Svcs r) e w) ks (core s) \<and>
    map snd (accepted (mgr_trace ks)) = received (hk_trace ks) @ buffer (housekeepers (core s)) \<and>
    map (verdict pb) (messages (mgr_trace ks)) = settled (mgr_outputs pb (mgr_trace ks))"
proof -
  from assms(1) obtain e he de dc where st: "start_up L parsed d b = (Ok r, lg)"
    and run: "timed_run pb P (timed_start (Svcs r) e he de dc w) ts s" unfolding served_def by blast
  from timed_core [OF run] obtain ks where ks: "svc_run pb P (Start (Svcs r) e w) ks (core s)"
    by (auto simp: timed_start_def)
  from start_up_ok [OF st] have b: "NewServices (StaffCfg (snd parsed)) wired_deps = Ok (Svcs r)" by blast
  have none: "sending (pos (manager (core s))) = []" by (simp add: assms(2) sending_def)
  from svc_parts(1) [OF ks] have "mgr_moves pb (mgr_start e (ManagerStockerCh (Svcs r))) (mgr_trace ks) (manager (core s))"
    by (simp add: Start_def)
  from settle_run [OF this] pipeline(1) [OF b ks] ks none show ?thesis by (metis append_Nil2 list.map_disc_iff)
qed


subsection \<open>Properties\<close>

text \<open>C14: the process exits with 0 or 1 and never by a panic. It exits with 1 exactly if a stage of the
  start fails, with the error of the first stage that fails, and then nothing has been served. It
  exits with 0 only after the context is done and the manager has returned: then it has tried to
  close every resource, once and in order, whatever failed, has logged exactly the failures, and
  the connection to RabbitMQ is closed for good.\<close>

theorem program_exits:
  assumes "prog_run L parsed d b pb P w ls (Exited n)"
  shows "(case snd (run (stage_result L parsed d b) ce) of
      Some e \<Rightarrow> n = 1 \<and> (\<exists>lg. ls = [FailStart e (lg @ [(Error, ''staff simulator failed'')])])
    | None \<Rightarrow> n = 0 \<and> (\<exists>r lg ts s closeErr d' m' d'' m''.
        served L parsed d b pb P w r lg ts s \<and> pos (manager (core s)) = Returned \<and> mgrCtxDone (manager (core s)) \<and>
        closings L r d' m' = (map (\<lambda>x. (x, closeErr x)) resources, d'', m'') \<and> closed (connection m'') \<and>
        ls = Boot lg # map Serve ts @ [Close resources ((Info, ''shutdown signal received'') #
          map (\<lambda>x. (Error, shutdown_message x)) (List.filter (\<lambda>x. closeErr x \<noteq> None) resources))]))"
proof -
  from prog_run_shape [OF assms] have ex: "exit_ok L parsed d b pb P w ls n" by simp
  note sr = start_up_run [of L parsed d b ce]
  consider (ok) "n = 0" | (failed) "n = 1" using ex by (auto simp: exit_ok_def split: nat.splits)
  then show ?thesis
  proof cases
    case ok
    from ex obtain r lg ts s d' m' d'' m'' lg' where st: "served L parsed d b pb P w r lg ts s"
        "pos (manager (core s)) = Returned" "mgrCtxDone (manager (core s))"
      and sh: "program_shutdown L r d' m' = (resources, lg', d'', m'')"
      and ls: "ls = Boot lg # map Serve ts @ [Close resources ((Info, ''shutdown signal received'') # lg')]"
      unfolding exit_ok_def ok by auto
    from st(1) sr have none: "snd (run (stage_result L parsed d b) ce) = None" unfolding served_def by auto
    from shutdown_logs [OF sh] obtain closeErr where c: "closings L r d' m' = (map (\<lambda>x. (x, closeErr x)) resources, d'', m'')"
      "lg' = map (\<lambda>x. (Error, shutdown_message x)) (List.filter (\<lambda>x. closeErr x \<noteq> None) resources)" by blast
    show ?thesis unfolding none option.case
      using ok st c closings_closed [OF c(1)] ls by blast
  next
    case failed
    from ex obtain e lg where st: "start_up L parsed d b = (Err e, lg)"
      "ls = [FailStart e (lg @ [(Error, ''staff simulator failed'')])]"
      unfolding exit_ok_def failed by auto
    with sr have "snd (run (stage_result L parsed d b) ce) = Some e" by (auto split: option.splits)
    with failed st show ?thesis by simp
  qed
qed


text \<open>A process whose libraries all work, on the storage in memory.\<close>

definition example_libs :: "(string, otlp_option list, unit, bool list, string, string) libs" where
  "example_libs =
     \<lparr>Otel = \<lparr>NewResource = Inr, NewTraceExporter = Inr, NewMetricExporter = Inr, NewInstrument = (\<lambda>i. None)\<rparr>,
      Driver = healthy_mongo, Amqp = plan_amqp, Grpc = Inr,
      StopProvider = (\<lambda>p. None), CloseClock = (\<lambda>c. None), StopServer = (\<lambda>s. None)\<rparr>"

definition example_consumer :: "string \<Rightarrow> consumer_cfg" where
  "example_consumer name =
     \<lparr>Queue = \<lparr>QName = name, QDurable = True, QAutoDelete = False, QExclusive = False, QNoWait = False\<rparr>,
      Binding = \<lparr>ExchangeName = ''hotel'', RoutingKey = name, BNoWait = False\<rparr>,
      ConsumeCfg = \<lparr>Consumer = name, AutoAck = False, CExclusive = False, NoLocal = False, CNoWait = False\<rparr>\<rparr>"

definition example_configs :: Configs where
  "example_configs =
     \<lparr>ServerCfg = example_server, LogLevel = 0,
      TelemetryCfg = \<lparr>ServiceName = ''staff'', Version = ''1'', OTLPEndpoint = ''otel'', OTLPGrpcPort = 4317, OTLPInsecure = True\<rparr>,
      OTLPHealthPort = 0, StaffCfg = example_staff, MongoCfg = example_mongo,
      CollectionsCfg = \<lparr>CottageCollection = ''Cottage'', StockCollection = ''Stock''\<rparr>, RabbitCfg = example_config,
      CleaningCfg = example_consumer ''cleaning'', DayChangeCfg = example_consumer ''day'',
      HourChangeCfg = example_consumer ''hour'', ClockCfg = \<lparr>GrpcHost = ''clock'', GrpcPort = 9090\<rparr>\<rparr>"

abbreviation "example_run \<equiv> prog_run example_libs (None, example_configs) () [] example_proto
  (repo_ports mem_collection mem_collection mem_rpc) example_storage"
abbreviation "example_step \<equiv> prog_step example_libs (None, example_configs) () [] example_proto
  (repo_ports mem_collection mem_collection mem_rpc) example_storage"

lemma plan_rabbit:
  assumes "ExchangeName (Binding cl) \<noteq> ''''" "ExchangeName (Binding dc) \<noteq> ''''" "ExchangeName (Binding hc) \<noteq> ''''"
  shows "err_of (fst (NewRabbitmq plan_amqp config cl dc hc [])) = None"
proof -
  have "openChannel plan_amqp None m = (None, Some 1, m)" if "conn (connection m) = Some 0" "\<not> closed (connection m)" for m
    using that by (cases m) (simp add: openChannel_def openConnection_def lib_def plan_amqp_def)
  moreover have "ensureChannel plan_amqp (Some 1) m = (None, Some 1, m)" for m
    by (cases m) (simp add: ensureChannel_def lib_def plan_amqp_def)
  moreover obtain m where "NewRabbitMqConnection plan_amqp config [] = (None, m)"
      "conn (connection m) = Some 0" "\<not> closed (connection m)"
    by (simp add: NewRabbitMqConnection_def reconnectLocked_def rabbitDialAttempts_def numeral_eq_Suc lib_def
       plan_amqp_def Let_def)
  moreover have "lib (QueueDeclare plan_amqp x q) m = (Inr (QName q), m)" "lib (QueueBind plan_amqp x n k e w) m = (None, m)" for x q n k e w m
    by (cases m, simp add: lib_def plan_amqp_def)+
  ultimately show ?thesis using assms
    by (simp add: NewRabbitmq_def NewRabbitmqConsumer_def bound_consumer_def declareAndBindConsumer_def
        DeclareQueue_def BindQueue_def err_of_def Let_def)
qed

lemma working_stages:
  assumes "[] \<notin> {Stockers (StaffCfg c), Housekeepers (StaffCfg c), Launderers (StaffCfg c)}"
    and "ExchangeName (Binding (CleaningCfg c)) \<noteq> ''''" "ExchangeName (Binding (DayChangeCfg c)) \<noteq> ''''"
      "ExchangeName (Binding (HourChangeCfg c)) \<noteq> ''''"
  shows "snd (run (stage_result example_libs (None, c) () []) ce) = None"
proof -
  let ?res = "stage_result example_libs (None, c) () []"
  have "?res StartRabbit = None"
    using plan_rabbit [OF assms(2-4)] by (simp add: stage_result_def example_libs_def)
  moreover have "?res stage.LoadConfigs = None" "?res StartClock = None"
    by (simp_all add: stage_result_def example_libs_def left_of_def)
  moreover have "?res InitTelemetry = None"
    by (simp add: stage_result_def example_libs_def left_of_def Init_def newTraceProvider_def newMeterProvider_def
        initMetrics_def Let_def)
  moreover have "?res StartMongo = None"
    by (simp add: stage_result_def example_libs_def left_of_def NewMongoDb_def healthy_mongo_def Let_def)
  moreover have "?res BuildServices = None"
    using services_built [of "StaffCfg c"] assms(1)
    by (auto simp: stage_result_def err_of_def split: go_result.splits)
  ultimately show ?thesis by (simp add: run_def)
qed

lemma working_start:
  assumes "[] \<notin> {Stockers (StaffCfg c), Housekeepers (StaffCfg c), Launderers (StaffCfg c)}"
    and "ExchangeName (Binding (CleaningCfg c)) \<noteq> ''''" "ExchangeName (Binding (DayChangeCfg c)) \<noteq> ''''"
      "ExchangeName (Binding (HourChangeCfg c)) \<noteq> ''''"
  shows "\<exists>r lg. start_up example_libs (None, c) () [] = (Ok r, lg)"
  using start_up_run [of example_libs "(None, c)" "()" "[]" "\<lambda>_. None"] working_stages [OF assms]
  by (metis prod.collapse)

lemma example_staffed:
  "[] \<notin> {Stockers (StaffCfg example_configs), Housekeepers (StaffCfg example_configs), Launderers (StaffCfg example_configs)}"
  "ExchangeName (Binding (CleaningCfg example_configs)) \<noteq> ''''" "ExchangeName (Binding (DayChangeCfg example_configs)) \<noteq> ''''"
  "ExchangeName (Binding (HourChangeCfg example_configs)) \<noteq> ''''"
  by (simp_all add: example_configs_def example_staff_def example_consumer_def)

lemmas example_stages = working_stages [OF example_staffed]

lemma example_starts:
  "\<exists>r lg. start_up example_libs (None, example_configs) () [] = (Ok r, lg) \<and> Svcs r = example_services"
proof -
  obtain r lg where st: "start_up example_libs (None, example_configs) () [] = (Ok r, lg)"
    using working_start [OF example_staffed] by blast
  from start_up_ok [OF st] example_services_built have "Svcs r = example_services"
    by (simp add: example_configs_def)
  with st show ?thesis by blast
qed

lemma plan_consumes: "c_channel c \<noteq> None \<Longrightarrow> queue c \<noteq> None \<Longrightarrow> consumed plan_amqp c m = Ok 2"
  by (auto simp: consumed_def Consume_def plan_amqp_def lib_def)

lemma example_boots:
  "\<exists>r lg. start_up example_libs (None, example_configs) () [] = (Ok r, lg) \<and>
     example_run [Boot lg] (Serving r (timed_start example_services None None None 1 example_storage))"
proof -
  obtain r lg where st: "start_up example_libs (None, example_configs) () [] = (Ok r, lg)"
    and sv: "Svcs r = example_services" using example_starts by blast
  from start_up_ok [OF st] obtain config cl dc hc m where
    rb: "NewRabbitmq (Amqp example_libs) config cl dc hc [] = (Ok (RabbitMQ r), m)" by auto
  have ok: "Ok 2 = consumed (Amqp example_libs) c not_connected"
    if "c \<in> {CleaningConsumer (RabbitMQ r), HourChangeConsumer (RabbitMQ r), DayChangeConsumer (RabbitMQ r)}" for c
    using NewRabbitmq_ready [OF rb that] plan_consumes by (simp add: example_libs_def)
  note rules = prog_step.boot [OF st ok ok ok, where pb = example_proto and w = example_storage
      and P = "repo_ports mem_collection mem_collection mem_rpc" and dc = 1]
  have "example_step Booting (Boot lg) (Serving r (timed_start example_services None None None 1 example_storage))"
    using rules by (simp add: sv crashed_def err_of_def)
  from prog_run.step [OF prog_run.refl this] st show ?thesis by auto
qed


text \<open>
  Two requests are dispatched, the housekeeper takes one and has hardly begun when the context
  ends and the manager returns.
\<close>

definition abandoned_day :: "svc_label list" where
  "abandoned_day =
     [Manage (Accept full_order full_request), Manage (Dispatch full_order full_request),
      Manage (Accept full_order full_request), Manage (Dispatch full_order full_request),
      Housekeep (Receive ''hal'' full_request 1), CancelAll, Manage CtxStop]"

definition is_working :: "'r worker option \<Rightarrow> bool" where
  "is_working x = (case x of Some (Working r q) \<Rightarrow> True | _ \<Rightarrow> False)"

lemma abandoned_day_runs:
  "\<exists>s. timed_run example_proto (repo_ports mem_collection mem_collection mem_rpc)
     (timed_start example_services None None None 1 example_storage) (map Core abandoned_day) s \<and>
     pos (manager (core s)) = Returned \<and> mgrCtxDone (manager (core s)) \<and>
     is_working (workers (housekeepers (core s)) ''hal'') \<and> buffer (housekeepers (core s)) = [full_request]"
proof -
  let ?run = "timed_execs example_proto (repo_ports mem_collection mem_collection mem_rpc) abandoned_day
     (timed_start example_services None None None 1 example_storage)"
  have "map_option (\<lambda>s. (pos (manager (core s)), mgrCtxDone (manager (core s)),
      is_working (workers (housekeepers (core s)) ''hal''), buffer (housekeepers (core s)))) ?run =
    Some (Returned, True, True, [full_request])" by code_simp
  then obtain s where "?run = Some s" "pos (manager (core s)) = Returned" "mgrCtxDone (manager (core s))"
    "is_working (workers (housekeepers (core s)) ''hal'')" "buffer (housekeepers (core s)) = [full_request]" by auto
  with timed_execs_run show ?thesis by blast
qed

lemma prog_run_serves:
  "timed_run pb P s0 ts s \<Longrightarrow> prog_run L parsed d b pb P w ls (Serving r s0) \<Longrightarrow>
   prog_run L parsed d b pb P w (ls @ map Serve ts) (Serving r s)"
proof (induction rule: timed_run.induct)
  case (step s0 ts s l s')
  from prog_run.step [OF step.IH [OF step.prems] prog_step.serve [OF step.hyps(2)]] show ?case by simp
qed simp

lemma example_abandons:
  "\<exists>lg r s. example_run (Boot lg # map Serve (map Core abandoned_day)) (Serving r s) \<and>
     served example_libs (None, example_configs) () [] example_proto
       (repo_ports mem_collection mem_collection mem_rpc) example_storage r lg (map Core abandoned_day) s \<and>
     pos (manager (core s)) = Returned \<and> mgrCtxDone (manager (core s)) \<and>
     is_working (workers (housekeepers (core s)) ''hal'') \<and> buffer (housekeepers (core s)) = [full_request]"
proof -
  from example_boots obtain r lg where b: "example_run [Boot lg] (Serving r (timed_start example_services None None None 1 example_storage))"
    by blast
  from abandoned_day_runs obtain s where s: "timed_run example_proto (repo_ports mem_collection mem_collection mem_rpc)
     (timed_start example_services None None None 1 example_storage) (map Core abandoned_day) s"
    "pos (manager (core s)) = Returned" "mgrCtxDone (manager (core s))"
    "is_working (workers (housekeepers (core s)) ''hal'')" "buffer (housekeepers (core s)) = [full_request]" by blast
  from prog_run_serves [OF s(1) b] have run: "example_run (Boot lg # map Serve (map Core abandoned_day)) (Serving r s)" by simp
  from prog_run_shape [OF run] obtain ts where ts: "map Serve (map Core abandoned_day) = map Serve ts"
    "served example_libs (None, example_configs) () [] example_proto
       (repo_ports mem_collection mem_collection mem_rpc) example_storage r lg ts s" by auto
  have "inj Serve" by (simp add: inj_def)
  with map_injective [OF ts(1)] ts(2) run s show ?thesis by blast
qed

theorem program_exits_witness:
  "\<exists>ls lg. example_run (ls @ [lg]) (Exited 0) \<and> snd (run (stage_result example_libs (None, example_configs) () []) (\<lambda>_. None)) = None"
proof -
  from example_abandons obtain lg r s where s: "example_run (Boot lg # map Serve (map Core abandoned_day)) (Serving r s)"
    "pos (manager (core s)) = Returned" "mgrCtxDone (manager (core s))" by blast
  obtain rs lg' d'' m'' where "program_shutdown example_libs r () not_connected = (rs, lg', d'', m'')" by (metis surj_pair)
  from prog_run.step [OF s(1) prog_step.close [OF s(2,3) this]] have run: "example_run ((Boot lg # map Serve (map Core abandoned_day)) @
      [Close rs ((Info, ''shutdown signal received'') # lg')]) (Exited 0)" .
  from program_exits [OF run, of "\<lambda>_. None"]
  have "snd (run (stage_result example_libs (None, example_configs) () []) (\<lambda>_. None)) = None"
    by (cases "snd (run (stage_result example_libs (None, example_configs) () []) (\<lambda>_. None))") simp_all
  with run show ?thesis by blast
qed

text \<open>C13: the end of the process does not wait for the employees: once the manager has returned and the
  context is done nothing holds back the closing of MongoDB and the exit, whoever is still at
  work. Every message has been settled by then, so the accepted requests, all acknowledged, are
  those that some housekeeper has received, finished or not, followed by those that are still in
  the channel; these are lost with the process.\<close>

theorem exit_abandons_requests:
  assumes "served L parsed d b pb P w r lg ts s" "pos (manager (core s)) = Returned" "mgrCtxDone (manager (core s))"
  shows "(\<exists>lg'. prog_step L parsed d b pb P w (Serving r s) (Close resources lg') (Exited 0)) \<and>
    (\<exists>e ks. svc_run pb P (Start (Svcs r) e w) ks (core s) \<and>
      map snd (accepted (mgr_trace ks)) = received (hk_trace ks) @ buffer (housekeepers (core s)) \<and>
      map (verdict pb) (messages (mgr_trace ks)) = settled (mgr_outputs pb (mgr_trace ks)))"
proof -
  obtain d' :: 'c and m' :: "'d mq" where True by blast
  obtain rs lg' d'' m'' where sh: "program_shutdown L r d' m' = (rs, lg', d'', m'')" by (metis surj_pair)
  from prog_step.close [OF assms(2,3) sh] shutdown_resources [OF sh]
  have "\<exists>lg'. prog_step L parsed d b pb P w (Serving r s) (Close resources lg') (Exited 0)" by blast
  with served_requests [OF assms(1,2)] show ?thesis by blast
qed

theorem exit_abandons_requests_witness:
  "\<exists>r s lg'. example_step (Serving r s) (Close resources lg') (Exited 0) \<and>
     is_working (workers (housekeepers (core s)) ''hal'') \<and> buffer (housekeepers (core s)) = [full_request]"
proof -
  from example_abandons obtain lg r s where s: "served example_libs (None, example_configs) () [] example_proto
       (repo_ports mem_collection mem_collection mem_rpc) example_storage r lg (map Core abandoned_day) s"
    "pos (manager (core s)) = Returned" "mgrCtxDone (manager (core s))"
    "is_working (workers (housekeepers (core s)) ''hal'')" "buffer (housekeepers (core s)) = [full_request]" by blast
  from exit_abandons_requests [OF s(1-3)] s(4,5) show ?thesis by blast
qed


end
