(* ===== verification/Integration_Helpers.thy ===== *)
theory Integration_Helpers
  imports Transport
begin

text \<open>
  \<^verbatim>\<open>integration_test/helpers\<close>: how the integration tests start the service. The environment of its
  process, the writer that marks the lines of its output, the containers and the fixtures. The
  operating system, the containers and the MongoDB client are parameters.
\<close>

subsection \<open>The environment (application\_starter.go)\<close>

record ApplicationConfig =
  AppPort :: int
  ClockHost :: string
  ClockPort :: string
  MongoURI :: string
  MongoDatabase :: string
  RabbitHost :: string
  RabbitPort :: int
  CleaningExchange :: string
  DayExchange :: string
  HourExchange :: string

definition applicationEnv :: "ApplicationConfig \<Rightarrow> (string \<times> string) list" where
  "applicationEnv c =
     [(''SERVICE_NAME'', ''staff-simulator''),
      (''VERSION'', ''integration-test''),
      (''SERVICE_HOST'', ''127.0.0.1''),
      (''SERVICE_PORT'', show_int (AppPort c)),
      (''LOG_LEVEL'', ''0''),
      (''CLEANING_EMPLOYEES_NAMES'', ''alice''),
      (''LAUNDERING_EMPLOYEES_NAMES'', ''bob''),
      (''STOCKERS_EMPLOYEES_NAMES'', ''carol''),
      (''MONGO_INITDB_ROOT_USERNAME'', ''test_user''),
      (''MONGO_INITDB_ROOT_PASSWORD'', ''test_pass''),
      (''MONGO_HOST'', MongoURI c),
      (''MONGO_DATABASE'', MongoDatabase c),
      (''COTTAGE_COLLECTION'', ''cottage''),
      (''STOCK_COLLECTION'', ''Stock''),
      (''RABBITMQ_USERNAME'', ''test_user''),
      (''RABBITMQ_PASSWORD'', ''test_pass''),
      (''RABBITMQ_HOST'', RabbitHost c),
      (''RABBITMQ_PORT'', show_int (RabbitPort c)),
      (''CLEANING_QUEUE_NAME'', ''integration.cleaning.queue.'' @ show_int (AppPort c)),
      (''CLEANING_QUEUE_AUTO_DELETE'', ''true''),
      (''CLEANING_BINDING_EXCHANGE_NAME'', CleaningExchange c),
      (''CLEANING_BINDING_ROUTING_KEY'', ''cleaning.request''),
      (''DAY_CHANGE_QUEUE_NAME'', ''integration.day.queue.'' @ show_int (AppPort c)),
      (''DAY_CHANGE_QUEUE_AUTO_DELETE'', ''true''),
      (''DAY_CHANGE_BINDING_EXCHANGE_NAME'', DayExchange c),
      (''DAY_CHANGE_BINDING_ROUTING_KEY'', ''day.change''),
      (''HOUR_CHANGE_QUEUE_NAME'', ''integration.hour.queue.'' @ show_int (AppPort c)),
      (''HOUR_CHANGE_QUEUE_AUTO_DELETE'', ''true''),
      (''HOUR_CHANGE_BINDING_EXCHANGE_NAME'', HourExchange c),
      (''HOUR_CHANGE_BINDING_ROUTING_KEY'', ''hour.change''),
      (''CLOCK_EMU_GRPC_HOST'', ClockHost c),
      (''CLOCK_EMU_GRPC_PORT'', ClockPort c)]"

text \<open>The loop over the bytes of an entry up to its first equals sign.\<close>

function cut_from :: "string \<Rightarrow> nat \<Rightarrow> string \<times> string \<times> bool" where
  "cut_from entry i =
     (if i < length entry
      then if entry ! i = CHR ''='' then (take i entry, drop (i + 1) entry, True)
           else cut_from entry (i + 1)
      else ('''', '''', False))"
  by pat_completeness auto
termination by (relation "measure (\<lambda>(entry, i). length entry - i)") auto

declare cut_from.simps [simp del]

definition stringsCut :: "string \<Rightarrow> string \<times> string \<times> bool" where
  "stringsCut entry = cut_from entry 0"

definition env_entry :: "string \<Rightarrow> string \<Rightarrow> string" where
  "env_entry key v = key @ ''='' @ v"

definition base_step :: "(string \<rightharpoonup> string) \<Rightarrow> string \<Rightarrow> string list \<times> string set \<Rightarrow> string list \<times> string set" where
  "base_step overrides entry rs =
     (case rs of (result, seen) \<Rightarrow>
        (case stringsCut entry of
           (key, _, False) \<Rightarrow> (result @ [entry], seen)
         | (key, _, True) \<Rightarrow>
             (result @ [case overrides key of Some override \<Rightarrow> env_entry key override | None \<Rightarrow> entry],
              insert key seen)))"

definition rest_step :: "(string \<rightharpoonup> string) \<Rightarrow> string set \<Rightarrow> string \<Rightarrow> string list \<Rightarrow> string list" where
  "rest_step overrides seen key result =
     (if key \<in> seen then result
      else case overrides key of Some value \<Rightarrow> result @ [env_entry key value] | None \<Rightarrow> result)"

text \<open>The second loop ranges over the keys of the map, in any order \<open>keys\<close>.\<close>

definition envWithOverrides :: "string list \<Rightarrow> string list \<Rightarrow> (string \<rightharpoonup> string) \<Rightarrow> string list" where
  "envWithOverrides keys baseEnv overrides =
     (case fold (base_step overrides) baseEnv ([], {}) of
        (result, seen) \<Rightarrow> fold (rest_step overrides seen) keys result)"

text \<open>The variable an entry sets, if it is one.\<close>

definition var_of :: "string \<Rightarrow> string option" where
  "var_of entry = (case stringsCut entry of (key, _, ok) \<Rightarrow> if ok then Some key else None)"

lemma cut_from_spec:
  assumes "\<forall>j < i. entry ! j \<noteq> CHR ''=''" "i \<le> length entry"
  shows "cut_from entry i =
    (if CHR ''='' \<in> set entry
     then (takeWhile (\<lambda>c. c \<noteq> CHR ''='') entry, tl (dropWhile (\<lambda>c. c \<noteq> CHR ''='') entry), True)
     else ('''', '''', False))"
  using assms
proof (induction entry i rule: cut_from.induct)
  case (1 entry i)
  show ?case
  proof (cases "i < length entry")
    case False
    with 1 have "CHR ''='' \<notin> set entry" by (auto simp: in_set_conv_nth)
    with False show ?thesis by (simp add: cut_from.simps [of entry i])
  next
    case True
    show ?thesis
    proof (cases "entry ! i = CHR ''=''")
      case eq: True
      have "takeWhile (\<lambda>c. c \<noteq> CHR ''='') entry = take i entry"
        by (rule takeWhile_eq_take_P_nth) (use 1 eq in auto)
      moreover from this have "dropWhile (\<lambda>c. c \<noteq> CHR ''='') entry = drop i entry"
        by (metis append_same_eq append_take_drop_id same_append_eq takeWhile_dropWhile_id)
      moreover have "CHR ''='' \<in> set entry" using True eq by (metis nth_mem)
      ultimately show ?thesis using True eq
        by (simp add: cut_from.simps [of entry i] drop_Suc tl_drop)
    next
      case False
      have "\<forall>j < i + 1. entry ! j \<noteq> CHR ''=''" using 1(2) False by (auto simp: less_Suc_eq)
      with 1(1) True False have "cut_from entry (i + 1) = (if CHR ''='' \<in> set entry
        then (takeWhile (\<lambda>c. c \<noteq> CHR ''='') entry, tl (dropWhile (\<lambda>c. c \<noteq> CHR ''='') entry), True)
        else ('''', '''', False))" by simp
      with True False show ?thesis by (simp add: cut_from.simps [of entry i])
    qed
  qed
qed

lemma stringsCut_spec:
  "stringsCut entry =
    (if CHR ''='' \<in> set entry
     then (takeWhile (\<lambda>c. c \<noteq> CHR ''='') entry, tl (dropWhile (\<lambda>c. c \<noteq> CHR ''='') entry), True)
     else ('''', '''', False))"
  unfolding stringsCut_def by (rule cut_from_spec) simp_all

lemma var_of_env_entry: "CHR ''='' \<notin> set key \<Longrightarrow> var_of (env_entry key v) = Some key"
  by (auto simp: var_of_def stringsCut_spec env_entry_def takeWhile_append)

text \<open>Both loops at once.\<close>

definition overridden :: "(string \<rightharpoonup> string) \<Rightarrow> string \<Rightarrow> string" where
  "overridden ov e =
     (case var_of e of
        None \<Rightarrow> e
      | Some k \<Rightarrow> (case ov k of Some v \<Rightarrow> env_entry k v | None \<Rightarrow> e))"

lemma base_steps:
  "fold (base_step ov) es (r, sn) = (r @ map (overridden ov) es, sn \<union> {k. \<exists>e \<in> set es. var_of e = Some k})"
proof (induction es arbitrary: r sn)
  case (Cons e es)
  obtain k v b where "stringsCut e = (k, v, b)" by (cases "stringsCut e")
  with Cons show ?case
    by (cases b) (auto simp: base_step_def overridden_def var_of_def split: option.splits)
qed simp

lemma rest_steps:
  "fold (rest_step ov sn) ks r = r @ map (\<lambda>k. env_entry k (the (ov k))) (List.filter (\<lambda>k. k \<notin> sn \<and> ov k \<noteq> None) ks)"
  by (induction ks arbitrary: r) (auto simp: rest_step_def)

lemma envWithOverrides_spec:
  assumes "set ks = dom ov"
  shows "envWithOverrides ks base ov = map (overridden ov) base @
    map (\<lambda>k. env_entry k (the (ov k))) (List.filter (\<lambda>k. \<forall>e \<in> set base. var_of e \<noteq> Some k) ks)"
proof -
  have "List.filter (\<lambda>k. k \<notin> {k. \<exists>e \<in> set base. var_of e = Some k} \<and> ov k \<noteq> None) ks =
    List.filter (\<lambda>k. \<forall>e \<in> set base. var_of e \<noteq> Some k) ks"
    by (rule filter_cong) (use assms in auto)
  then show ?thesis by (simp add: envWithOverrides_def base_steps rest_steps)
qed

definition untouched :: "(string \<rightharpoonup> string) \<Rightarrow> string \<Rightarrow> bool" where
  "untouched ov e = (case var_of e of None \<Rightarrow> True | Some k \<Rightarrow> ov k = None)"

lemma overridden_cases:
  assumes "\<forall>k \<in> dom ov. CHR ''='' \<notin> set k"
  shows "(untouched ov (overridden ov e) = untouched ov e) \<and> var_of (overridden ov e) = var_of e \<and>
    (untouched ov e \<longrightarrow> overridden ov e = e) \<and>
    (\<forall>k v. var_of e = Some k \<and> ov k = Some v \<longrightarrow> overridden ov e = env_entry k v)"
proof -
  have "var_of (env_entry k v) = Some k" if "ov k = Some v" for k v
    using var_of_env_entry [of k v] assms that by blast
  then show ?thesis by (auto simp: overridden_def untouched_def split: option.splits)
qed

lemma untouched_base:
  assumes "\<forall>k \<in> dom ov. CHR ''='' \<notin> set k"
  shows "List.filter (untouched ov) (map (overridden ov) es) = List.filter (untouched ov) es"
  using overridden_cases [OF assms] by (induction es) auto

subsection \<open>The writer that marks the lines (application\_starter.go)\<close>

text \<open>
  An \<open>io.Writer\<close> over a state \<open>'o\<close>: how many bytes it took, an error, the new state. It takes at
  most what it is given, and less only with an error.
\<close>

type_synonym 'o io_write = "string \<Rightarrow> 'o \<Rightarrow> (nat \<times> go_error option) \<times> 'o"

record prefixedWriter =
  mark :: string
  atLineUp :: bool

definition newPrefixedWriter :: "string \<Rightarrow> prefixedWriter" where
  "newPrefixedWriter p = \<lparr>mark = p, atLineUp = True\<rparr>"

definition IndexByte :: "string \<Rightarrow> char \<Rightarrow> nat option" where
  "IndexByte p c = (if c \<in> set p then Some (length (takeWhile (\<lambda>x. x \<noteq> c) p)) else None)"

text \<open>The prefix before the first byte of a line.\<close>

definition write_mark :: "'o io_write \<Rightarrow> prefixedWriter \<Rightarrow> 'o \<Rightarrow> go_error option \<times> prefixedWriter \<times> 'o" where
  "write_mark W pw w =
     (if atLineUp pw
      then (case W (mark pw) w of
              ((_, Some err), w') \<Rightarrow> (Some err, pw, w')
            | ((_, None), w') \<Rightarrow> (None, pw\<lparr>atLineUp := False\<rparr>, w'))
      else (None, pw, w))"

function write_loop ::
    "'o io_write \<Rightarrow> string \<Rightarrow> nat \<Rightarrow> prefixedWriter \<Rightarrow> 'o \<Rightarrow> (nat \<times> go_error option) \<times> prefixedWriter \<times> 'o" where
  "write_loop W p written pw w =
     (if p = [] then ((written, None), pw, w)
      else case write_mark W pw w of
        (Some err, pw1, w1) \<Rightarrow> ((written, Some err), pw1, w1)
      | (None, pw1, w1) \<Rightarrow>
          (case IndexByte p (CHR 0x0A) of
             None \<Rightarrow> (case W p w1 of ((n, err), w2) \<Rightarrow> ((written + n, err), pw1, w2))
           | Some newlineIdx \<Rightarrow>
               (case W (take (newlineIdx + 1) p) w1 of
                  ((n, Some err), w2) \<Rightarrow> ((written + n, Some err), pw1, w2)
                | ((n, None), w2) \<Rightarrow>
                    write_loop W (drop (newlineIdx + 1) p) (written + n) (pw1\<lparr>atLineUp := True\<rparr>) w2)))"
  by pat_completeness auto
termination by (relation "measure (\<lambda>(W, p, _). length p)") auto

declare write_loop.simps [simp del]

definition prefixed_Write :: "'o io_write \<Rightarrow> (prefixedWriter \<times> 'o) io_write" where
  "prefixed_Write W p s = (case s of (pw, w) \<Rightarrow> write_loop W p 0 pw w)"

text \<open>What a reader of the output sees: the mark before the first byte of each line.\<close>

fun marked :: "string \<Rightarrow> bool \<Rightarrow> string \<Rightarrow> string" where
  "marked m up [] = []"
| "marked m up (c # cs) = (if up then m else []) @ c # marked m (c = CHR 0x0A) cs"

fun line_up :: "bool \<Rightarrow> string \<Rightarrow> bool" where
  "line_up up [] = up"
| "line_up up (c # cs) = line_up (c = CHR 0x0A) cs"

lemma marked_append: "marked m up (p @ q) = marked m up p @ marked m (line_up up p) q"
  by (induction p arbitrary: up) auto

lemma line_up_append: "line_up up (p @ q) = line_up (line_up up p) q"
  by (induction p arbitrary: up) auto

lemma marked_no_newline:
  "CHR 0x0A \<notin> set p \<Longrightarrow> p \<noteq> [] \<Longrightarrow> marked m up p = (if up then m else []) @ p \<and> line_up up p = False"
proof -
  have rest: "CHR 0x0A \<notin> set p \<Longrightarrow> marked m False p = p \<and> line_up False p = False" for p
    by (induction p) auto
  assume "CHR 0x0A \<notin> set p" "p \<noteq> []"
  then show ?thesis by (cases p) (use rest in auto)
qed

text \<open>The line that ends with the first newline.\<close>

lemma first_line:
  assumes "IndexByte p (CHR 0x0A) = Some i"
  shows "i < length p \<and> take (i + 1) p = take i p @ [CHR 0x0A] \<and> CHR 0x0A \<notin> set (take i p) \<and>
    marked m up (take (i + 1) p) = (if up then m else []) @ take (i + 1) p \<and> line_up up (take (i + 1) p) = True"
proof -
  from assms have i: "i = length (takeWhile (\<lambda>x. x \<noteq> CHR 0x0A) p)" and n: "CHR 0x0A \<in> set p"
    by (auto simp: IndexByte_def split: if_splits)
  have tk: "take i p = takeWhile (\<lambda>x. x \<noteq> CHR 0x0A) p" unfolding i by (metis takeWhile_eq_take)
  from split_list_first [OF n] obtain xs ys where "p = xs @ CHR 0x0A # ys" "CHR 0x0A \<notin> set xs" by blast
  then have lt: "i < length p" unfolding i by (auto simp: takeWhile_append)
  have nl: "p ! i = CHR 0x0A" using nth_length_takeWhile [of "\<lambda>x. x \<noteq> CHR 0x0A" p] lt unfolding i by simp
  have line: "take (i + 1) p = take i p @ [CHR 0x0A]" using take_Suc_conv_app_nth [OF lt] nl by simp
  have out: "CHR 0x0A \<notin> set (take i p)" unfolding tk by (auto dest: set_takeWhileD)
  have "marked m up (take i p @ [CHR 0x0A]) = (if up then m else []) @ take i p @ [CHR 0x0A]"
    using marked_no_newline [OF out, of m up] by (cases "take i p = []") (auto simp: marked_append)
  moreover have "line_up up (take i p @ [CHR 0x0A]) = True" by (simp add: line_up_append)
  ultimately show ?thesis using lt line out by simp
qed

lemma first_line_rest:
  assumes "IndexByte p (CHR 0x0A) = Some i"
  shows "marked m up p = (if up then m else []) @ take (i + 1) p @ marked m True (drop (i + 1) p) \<and>
    line_up up p = line_up True (drop (i + 1) p)"
proof -
  from first_line [OF assms, of m up] have l: "marked m up (take (i + 1) p) = (if up then m else []) @ take (i + 1) p"
    "line_up up (take (i + 1) p) = True" by blast+
  have "marked m up (take (i + 1) p @ drop (i + 1) p) =
      ((if up then m else []) @ take (i + 1) p) @ marked m True (drop (i + 1) p) \<and>
    line_up up (take (i + 1) p @ drop (i + 1) p) = line_up True (drop (i + 1) p)"
    by (simp only: marked_append line_up_append l simp_thms)
  then show ?thesis by (simp only: append_take_drop_id append_assoc simp_thms)
qed

text \<open>The contract of an \<open>io.Writer\<close>, which the marking writer passes on.\<close>

locale io_writer =
  fixes W :: "'o io_write"
  assumes takes: "W p w = ((n, err), w') \<Longrightarrow> n \<le> length p \<and> (n < length p \<longrightarrow> err \<noteq> None)"
begin

lemma takes_all: "W p w = ((n, None), w') \<Longrightarrow> n = length p"
  using takes [of p w n None w'] by (cases "n < length p") auto

lemma loop_takes:
  "write_loop W p k pw w = ((n, err), pw', w') \<Longrightarrow> k \<le> n \<and> n \<le> k + length p \<and> (n < k + length p \<longrightarrow> err \<noteq> None)"
proof (induction "length p" arbitrary: p k pw w rule: less_induct)
  case less
  show ?case
  proof (cases "p = []")
    case True
    with less.prems show ?thesis by (simp add: write_loop.simps)
  next
    case ne: False
    obtain e pw1 w1 where m: "write_mark W pw w = (e, pw1, w1)" by (cases "write_mark W pw w")
    note step = less.prems [unfolded write_loop.simps [of W p k pw w] if_not_P [OF ne] m]
    show ?thesis
    proof (cases e)
      case (Some err1)
      with step show ?thesis by auto
    next
      case e: None
      show ?thesis
      proof (cases "IndexByte p (CHR 0x0A)")
        case None
        obtain n1 err1 w2 where "W p w1 = ((n1, err1), w2)" by (cases "W p w1") auto
        with takes [OF this] step show ?thesis by (auto simp: e None)
      next
        case (Some i)
        obtain n1 err1 w2 where c: "W (take (Suc i) p) w1 = ((n1, err1), w2)" by (cases "W (take (Suc i) p) w1") auto
        from first_line [OF Some] have i: "i < length p" by blast
        show ?thesis
        proof (cases err1)
          case (Some err2)
          with takes [OF c] step i show ?thesis by (auto simp: e \<open>IndexByte p (CHR 0x0A) = Some i\<close> c)
        next
          case None
          with takes_all [of "take (Suc i) p"] c i have n1: "n1 = Suc i" by simp
          have "write_loop W (drop (Suc i) p) (k + n1) (pw1\<lparr>atLineUp := True\<rparr>) w2 = ((n, err), pw', w')"
            using step None by (simp add: e \<open>IndexByte p (CHR 0x0A) = Some i\<close> c)
          moreover have "length (drop (Suc i) p) < length p" using i by simp
          ultimately show ?thesis using less.hyps [of "drop (Suc i) p" "k + n1"] i n1 by fastforce
        qed
      qed
    qed
  qed
qed

lemma marking_contract: "io_writer (prefixed_Write W)"
proof (unfold_locales, goal_cases)
  case (1 p s n err s')
  then show ?case using loop_takes [of p 0 "fst s" "snd s" n err "fst s'" "snd s'"]
    by (auto simp: prefixed_Write_def split_beta)
qed

end

text \<open>A buffer takes everything, as \<open>bytes.Buffer\<close> does.\<close>

definition buffer_Write :: "string io_write" where
  "buffer_Write p b = ((length p, None), b @ p)"

interpretation buffer: io_writer buffer_Write
  by unfold_locales (auto simp: buffer_Write_def)

interpretation marked_buffer: io_writer "prefixed_Write buffer_Write"
  by (rule buffer.marking_contract)

text \<open>On a buffer every line of the output has its mark.\<close>

lemma loop_marks:
  "write_loop buffer_Write p k pw b =
     ((k + length p, None), pw\<lparr>atLineUp := line_up (atLineUp pw) p\<rparr>, b @ marked (mark pw) (atLineUp pw) p)"
proof (induction "length p" arbitrary: p k pw b rule: less_induct)
  case less
  show ?case
  proof (cases "p = []")
    case True
    then show ?thesis by (simp add: write_loop.simps)
  next
    case ne: False
    have m: "write_mark buffer_Write pw b =
        (None, pw\<lparr>atLineUp := False\<rparr>, b @ (if atLineUp pw then mark pw else []))"
      by (cases pw) (simp add: write_mark_def buffer_Write_def)
    show ?thesis
    proof (cases "IndexByte p (CHR 0x0A)")
      case None
      then have "CHR 0x0A \<notin> set p" by (simp add: IndexByte_def split: if_splits)
      from marked_no_newline [OF this ne] None ne show ?thesis
        by (simp add: write_loop.simps [of buffer_Write p] m buffer_Write_def)
    next
      case (Some i)
      note line = first_line [OF Some]
      have rest: "write_loop buffer_Write (drop (i + 1) p) (k + (i + 1)) (pw\<lparr>atLineUp := True\<rparr>)
          (b @ (if atLineUp pw then mark pw else []) @ take (i + 1) p) =
        ((k + (i + 1) + length (drop (i + 1) p), None), pw\<lparr>atLineUp := line_up True (drop (i + 1) p)\<rparr>,
          (b @ (if atLineUp pw then mark pw else []) @ take (i + 1) p) @ marked (mark pw) True (drop (i + 1) p))"
        using less.hyps [of "drop (i + 1) p" "k + (i + 1)" "pw\<lparr>atLineUp := True\<rparr>"] line ne by simp
      have "i < length p" using line by blast
      then have len: "k + (i + 1) + length (drop (i + 1) p) = k + length p" by simp
      note rest = rest [unfolded len]
      have mn: "min (length p) (Suc i) = Suc i" using \<open>i < length p\<close> by simp
      from rest Some ne first_line_rest [OF Some, of "mark pw" "atLineUp pw"] show ?thesis
        by (cases "atLineUp pw") (simp_all add: write_loop.simps [of buffer_Write p] m buffer_Write_def mn)
    qed
  qed
qed

subsection \<open>Starting the service (application\_starter.go)\<close>

text \<open>
  What the operating system gives, and what is asked of it: \<open>BuildRun\<close> is the outcome of the
  build with its output, \<open>JoinPath\<close> is \<open>filepath.Join\<close>.
\<close>

record starter =
  MkdirTemp :: "go_error + string"
  JoinPath :: "string list \<Rightarrow> string"
  Goroot :: string
  LookPathGo :: "go_error + string"
  BuildRun :: "go_error option \<times> string"
  Environ :: "string list"

datatype start_event =
    BuildApp string "string list" string
  | RunApp string string "string list"
  | CancelRun
  | RemoveAll string

definition projectDir :: string where
  "projectDir = ''/home/kenjiuema/Documents/projects/staffSimulator''"

definition goBinaryPath :: "starter \<Rightarrow> string" where
  "goBinaryPath st =
     (if Goroot st \<noteq> '''' then JoinPath st [Goroot st, ''bin'', ''go'']
      else case LookPathGo st of Inr goBin \<Rightarrow> goBin | Inl err \<Rightarrow> ''go'')"

definition with_output :: "string \<Rightarrow> string \<Rightarrow> string" where
  "with_output err output = err @ [CHR 0x0A] @ ''application output:'' @ [CHR 0x0A] @ TrimSpace output"

text \<open>
  \<open>ApplicationStart\<close>: the message it fails with, or the directory of the binary that \<open>stop\<close>
  removes; \<open>keys\<close> is the order in which the map of the overrides is ranged over.
\<close>

definition ApplicationStart :: "starter \<Rightarrow> string list \<Rightarrow> ApplicationConfig \<Rightarrow> (string + string) \<times> start_event list" where
  "ApplicationStart st keys c =
     (case MkdirTemp st of
        Inl err \<Rightarrow> (Inl (''create temp dir for integration app: '' @ Error_db err), [])
      | Inr binDir \<Rightarrow>
          (let binPath = JoinPath st [binDir, ''staff-simulator''];
               build = BuildApp (goBinaryPath st) [''build'', ''-o'', binPath, ''./internal''] projectDir
           in case BuildRun st of
                (Some err, output) \<Rightarrow>
                  (Inl (with_output (''build integration app: '' @ Error_db err) output), [build, RemoveAll binDir])
              | (None, output) \<Rightarrow>
                  (Inr binDir,
                   [build, RunApp binPath projectDir (envWithOverrides keys (Environ st) (map_of (applicationEnv c)))])))"

definition stop_app :: "string \<Rightarrow> start_event list" where
  "stop_app binDir = [CancelRun, RemoveAll binDir]"

text \<open>What the test reads from \<open>runErr\<close> once the process has ended.\<close>

definition run_result :: "bool \<Rightarrow> go_error option \<Rightarrow> string \<Rightarrow> string option" where
  "run_result cancelled err output =
     (if cancelled then None
      else case err of Some e \<Rightarrow> Some (with_output (Error_db e) output) | None \<Rightarrow> None)"

subsection \<open>The containers (start\_containers.go)\<close>

text \<open>The deferred \<open>recover\<close>: a panic of the library becomes an error.\<close>

definition recovered :: "string \<Rightarrow> 'a go_result \<Rightarrow> go_error + 'a" where
  "recovered what r =
     (case r of Ok x \<Rightarrow> Inr x | Err e \<Rightarrow> Inl e | Panicked p \<Rightarrow> Inl (ErrorString (what @ p)))"

definition startMongoContainer ::
    "'m go_result \<Rightarrow> ('m \<Rightarrow> string go_result) \<Rightarrow> (string \<Rightarrow> go_error + string \<times> string) \<Rightarrow> go_error + 'm \<times> string" where
  "startMongoContainer mongodb_Run ConnectionString url_Parse =
     recovered ''failed to start mongo container: ''
       (and_then mongodb_Run (\<lambda>container.
        and_then (ConnectionString container) (\<lambda>uri.
          case url_Parse uri of
            Inl e \<Rightarrow> Err e
          | Inr (host, rawQuery) \<Rightarrow>
              Ok (container, if rawQuery \<noteq> '''' then host @ ''/?'' @ rawQuery else host))))"

definition startRabbitContainer ::
    "'r go_result \<Rightarrow> ('r \<Rightarrow> string go_result) \<Rightarrow> ('r \<Rightarrow> int go_result) \<Rightarrow> go_error + 'r \<times> string \<times> int" where
  "startRabbitContainer rabbitmq_Run containerHost MappedPort =
     recovered ''failed to start rabbitmq container: ''
       (and_then rabbitmq_Run (\<lambda>container.
        and_then (containerHost container) (\<lambda>host.
        and_then (MappedPort container) (\<lambda>mappedPort. Ok (container, host, mappedPort)))))"

text \<open>\<open>StartContainers\<close>: the message of the skip, or the addresses; and what is left to terminate.\<close>

definition StartContainers ::
    "go_error + 'm \<times> string \<Rightarrow> go_error + 'r \<times> string \<times> int \<Rightarrow> (string + string \<times> string \<times> int) \<times> ('m + 'r) list" where
  "StartContainers mongo rabbit =
     (case mongo of
        Inl err \<Rightarrow> (Inl (''skipping integration test: failed to start mongo container: '' @ Error_db err), [])
      | Inr (mongoC, mongoHost) \<Rightarrow>
     (case rabbit of
        Inl err \<Rightarrow> (Inl (''skipping integration test: failed to start rabbitmq container: '' @ Error_db err), [Inl mongoC])
      | Inr (rabbitC, rabbitHost, rabbitPort) \<Rightarrow> (Inr (mongoHost, rabbitHost, rabbitPort), [Inl mongoC, Inr rabbitC])))"

subsection \<open>The fixtures (seed\_helper.go)\<close>

text \<open>
  One turn of the loop of \<open>waitForMongoReady\<close>: the outcome of the ping and, after a failure, the
  error of a context that has ended, or the next tick. \<open>None\<close> is a wait that has not ended.
\<close>

fun waitForMongoReady :: "(go_error option \<times> go_error option) list \<Rightarrow> go_error option option" where
  "waitForMongoReady [] = None"
| "waitForMongoReady ((None, _) # turns) = Some None"
| "waitForMongoReady ((Some err, Some ctxErr) # turns) = Some (Some ctxErr)"
| "waitForMongoReady ((Some err, None) # turns) = waitForMongoReady turns"

datatype seed_failure =
    ConnectFailed go_error | NotReady go_error
  | ReadFailed string go_error | UnmarshalFailed string go_error | InsertFailed string go_error

text \<open>What reading, decoding and inserting give: files, the documents in a text, the answer of \<open>InsertMany\<close>.\<close>

record 'd seeder =
  ReadFile :: "string \<Rightarrow> go_error + string"
  Unmarshal :: "string \<Rightarrow> go_error + 'd list"
  InsertMany :: "string \<Rightarrow> 'd list \<Rightarrow> go_error option"

definition insertFixture :: "'d seeder \<Rightarrow> string \<Rightarrow> string \<Rightarrow> seed_failure option \<times> (string \<times> 'd list) list" where
  "insertFixture S collection fixturePath =
     (case ReadFile S fixturePath of
        Inl err \<Rightarrow> (Some (ReadFailed fixturePath err), [])
      | Inr data \<Rightarrow>
     (case Unmarshal S data of
        Inl err \<Rightarrow> (Some (UnmarshalFailed fixturePath err), [])
      | Inr ds \<Rightarrow>
          (map_option (InsertFailed collection) (InsertMany S collection ds), [(collection, ds)])))"

definition SeedMongoFromFixtures ::
    "go_error option \<Rightarrow> go_error option \<Rightarrow> 'c seeder \<Rightarrow> 's seeder \<Rightarrow> string \<Rightarrow> string \<Rightarrow>
     seed_failure option \<times> (string \<times> 'c list) list \<times> (string \<times> 's list) list" where
  "SeedMongoFromFixtures connectErr ready C S cottagesFixturePath stocksFixturePath =
     (case connectErr of
        Some err \<Rightarrow> (Some (ConnectFailed err), [], [])
      | None \<Rightarrow>
     (case ready of
        Some err \<Rightarrow> (Some (NotReady err), [], [])
      | None \<Rightarrow>
     (case insertFixture C ''cottage'' cottagesFixturePath of
        (Some f, ins) \<Rightarrow> (Some f, ins, [])
      | (None, ins) \<Rightarrow>
          (case insertFixture S ''Stock'' stocksFixturePath of (f, ins') \<Rightarrow> (f, ins, ins')))))"

lemma env_member:
  assumes "set ks = dom ov"
  shows "e \<in> set (envWithOverrides ks base ov) \<longleftrightarrow>
    (\<exists>e0 \<in> set base. e = overridden ov e0) \<or>
    (\<exists>k v. ov k = Some v \<and> e = env_entry k v \<and> (\<forall>e0 \<in> set base. var_of e0 \<noteq> Some k))"
proof -
  have img: "e \<in> (\<lambda>k. env_entry k (the (ov k))) ` {k \<in> dom ov. P k} \<longleftrightarrow>
      (\<exists>k v. ov k = Some v \<and> e = env_entry k v \<and> P k)" (is "?l \<longleftrightarrow> ?r") for P
  proof
    assume ?l
    then obtain k where k: "k \<in> dom ov" "P k" "e = env_entry k (the (ov k))" by blast
    then obtain v where "ov k = Some v" by blast
    with k show ?r by (intro exI [of _ k] exI [of _ v]) simp
  next
    assume ?r
    then obtain k v where "ov k = Some v" "e = env_entry k v" "P k" by blast
    then show ?l by (intro image_eqI [of _ _ k]) auto
  qed
  have s: "set (envWithOverrides ks base ov) = overridden ov ` set base \<union>
      (\<lambda>k. env_entry k (the (ov k))) ` {k \<in> dom ov. \<forall>e0 \<in> set base. var_of e0 \<noteq> Some k}"
    unfolding envWithOverrides_spec [OF assms] assms [symmetric] by simp
  show ?thesis unfolding s Un_iff img unfolding image_iff by simp
qed

lemma env_entries:
  assumes "set ks = dom ov" "\<forall>k \<in> dom ov. CHR ''='' \<notin> set k" "ov k = Some v"
  shows "{e \<in> set (envWithOverrides ks base ov). var_of e = Some k} = {env_entry k v}"
proof -
  have var: "var_of (env_entry j u) = Some j" if "ov j = Some u" for j u
    using var_of_env_entry assms(2) that by blast
  note ov = overridden_cases [OF assms(2)]
  have "e = env_entry k v" if "e \<in> set (envWithOverrides ks base ov)" "var_of e = Some k" for e
    using that(1) unfolding env_member [OF assms(1)]
  proof
    assume "\<exists>e0 \<in> set base. e = overridden ov e0"
    with that(2) ov assms(3) show ?thesis by metis
  next
    assume "\<exists>k v. ov k = Some v \<and> e = env_entry k v \<and> (\<forall>e0 \<in> set base. var_of e0 \<noteq> Some k)"
    then obtain j u where "ov j = Some u" "e = env_entry j u" by blast
    with var [of j u] that(2) assms(3) show ?thesis by simp
  qed
  moreover have "env_entry k v \<in> set (envWithOverrides ks base ov)"
    unfolding env_member [OF assms(1)] using assms(3) ov by metis
  ultimately show ?thesis using var [OF assms(3)] by blast
qed

lemma env_untouched:
  assumes "set ks = dom ov" "\<forall>k \<in> dom ov. CHR ''='' \<notin> set k"
  shows "List.filter (untouched ov) (envWithOverrides ks base ov) = List.filter (untouched ov) base"
proof -
  have "\<not> untouched ov (env_entry k (the (ov k)))" if "k \<in> dom ov" for k
    using var_of_env_entry [OF bspec [OF assms(2) that]] that by (auto simp: untouched_def)
  then have "List.filter (untouched ov)
      (map (\<lambda>k. env_entry k (the (ov k))) (List.filter (\<lambda>k. \<forall>e \<in> set base. var_of e \<noteq> Some k) ks)) = []"
    using assms(1) by (intro filter_False) auto
  then show ?thesis unfolding envWithOverrides_spec [OF assms(1)] filter_append untouched_base [OF assms(2)] by simp
qed

subsection \<open>Properties\<close>

text \<open>The overrides win: whatever the inherited environment and the order in which the map is ranged
  over, every variable to override is set, and every entry that sets it has the override's value,
  also where the inherited environment sets it several times; every other entry (the ones
  without an equals sign included) is passed on as it is, in order.\<close>

theorem overrides_win:
  assumes "set ks = dom ov" "\<forall>k \<in> dom ov. CHR ''='' \<notin> set k"
  shows "(\<forall>k v. ov k = Some v \<longrightarrow> {e \<in> set (envWithOverrides ks base ov). var_of e = Some k} = {env_entry k v}) \<and>
    List.filter (untouched ov) (envWithOverrides ks base ov) = List.filter (untouched ov) base"
  using env_entries [OF assms] env_untouched [OF assms] by blast

definition example_app :: ApplicationConfig where
  "example_app = \<lparr>AppPort = 8080, ClockHost = ''127.0.0.1'', ClockPort = ''5000'', MongoURI = ''localhost:27017'',
     MongoDatabase = ''staff'', RabbitHost = ''localhost'', RabbitPort = 5672, CleaningExchange = ''cleaning'',
     DayExchange = ''day'', HourExchange = ''hour''\<rparr>"

theorem overrides_win_witness:
  "{e \<in> set (envWithOverrides (map fst (applicationEnv example_app)) [''HOME=/root'', ''LOG_LEVEL=4'', ''odd'', ''LOG_LEVEL=8'']
      (map_of (applicationEnv example_app))). var_of e = Some ''LOG_LEVEL''} = {''LOG_LEVEL=0''} \<and>
   List.filter (untouched (map_of (applicationEnv example_app)))
     (envWithOverrides (map fst (applicationEnv example_app)) [''HOME=/root'', ''LOG_LEVEL=4'', ''odd'', ''LOG_LEVEL=8'']
        (map_of (applicationEnv example_app))) = [''HOME=/root'', ''odd'']"
proof -
  let ?ov = "map_of (applicationEnv example_app)"
  have k: "set (map fst (applicationEnv example_app)) = dom ?ov" by (simp add: dom_map_of_conv_image_fst)
  have "list_all (\<lambda>k. CHR ''='' \<notin> set k) (map fst (applicationEnv example_app))" by (simp add: applicationEnv_def)
  then have "\<forall>k \<in> dom ?ov. CHR ''='' \<notin> set k"
    unfolding k [symmetric] list_all_iff .
  note w = overrides_win [OF k this]
  let ?base = "[''HOME=/root'', ''LOG_LEVEL=4'', ''odd'', ''LOG_LEVEL=8'']"
  have "map var_of ?base = [Some ''HOME'', Some ''LOG_LEVEL'', None, Some ''LOG_LEVEL'']" by code_simp
  then have vars: "var_of ''HOME=/root'' = Some ''HOME''" "var_of ''LOG_LEVEL=4'' = Some ''LOG_LEVEL''"
    "var_of ''odd'' = None" "var_of ''LOG_LEVEL=8'' = Some ''LOG_LEVEL''" by (simp_all only: list.map list.inject)
  have ov: "?ov ''LOG_LEVEL'' = Some ''0''" "?ov ''HOME'' = None" by (simp_all add: applicationEnv_def)
  have e: "env_entry ''LOG_LEVEL'' ''0'' = ''LOG_LEVEL=0''" by (simp add: env_entry_def)
  have f: "List.filter (untouched ?ov) ?base = [''HOME=/root'', ''odd'']"
    by (simp only: filter.simps untouched_def vars ov option.case option.distinct if_True if_False simp_thms)
  note c = w [of ?base]
  from conjunct1 [OF c, THEN spec, THEN spec, THEN mp, OF ov(1)] conjunct2 [OF c] show ?thesis
    unfolding e f by (rule conjI)
qed

text \<open>C40: the output is marked line by line, however it is cut into writes: two writes in a row take all their
  bytes and leave the buffer and the writer as the single write of both would, with the mark
  before the first byte of every line and nowhere else.\<close>

theorem output_is_marked:
  "case prefixed_Write buffer_Write p (newPrefixedWriter m, b) of (r1, s1) \<Rightarrow>
     (case prefixed_Write buffer_Write q s1 of (r2, s2) \<Rightarrow>
        r1 = (length p, None) \<and> r2 = (length q, None) \<and> snd s2 = b @ marked m True (p @ q) \<and>
        s2 = snd (prefixed_Write buffer_Write (p @ q) (newPrefixedWriter m, b)))"
  by (simp add: prefixed_Write_def loop_marks newPrefixedWriter_def marked_append line_up_append)

end
