(* ===== verification/Env_Config.thy ===== *)
theory Env_Config
  imports Program Integration_Helpers
begin

text \<open>
  The environment variables of the service: the tags of the structs in \<^verbatim>\<open>config/config.go\<close> and
  \<^verbatim>\<open>config/rabbitmq_config.go\<close>. \<open>env.Parse\<close> (caarlos0/env) is a parameter with its documented
  behaviour (\<open>env_parser\<close>); what the tags and the rest of the start ask of the environment follows.
\<close>

subsection \<open>Tags\<close>

datatype tag_type = TText | TInt | TUint | TBool | TNames

datatype tag_value = VText string | VInt int | VUint "64 word" | VBool bool | VNames "string list"

record tag =
  Var :: string
  TagType :: tag_type
  Required :: bool
  Default :: "string option"

text \<open>The four forms of a tag: required or not, with \<open>envDefault\<close> or without.\<close>

definition req :: "string \<Rightarrow> tag_type \<Rightarrow> tag" where
  "req v t = \<lparr>Var = v, TagType = t, Required = True, Default = None\<rparr>"

definition opt :: "string \<Rightarrow> tag_type \<Rightarrow> tag" where
  "opt v t = \<lparr>Var = v, TagType = t, Required = False, Default = None\<rparr>"

definition dfl :: "string \<Rightarrow> tag_type \<Rightarrow> string \<Rightarrow> tag" where
  "dfl v t d = \<lparr>Var = v, TagType = t, Required = False, Default = Some d\<rparr>"

definition reqd :: "string \<Rightarrow> tag_type \<Rightarrow> string \<Rightarrow> tag" where
  "reqd v t d = \<lparr>Var = v, TagType = t, Required = True, Default = Some d\<rparr>"

lemmas tag_defs = req_def opt_def dfl_def reqd_def

text \<open>The tags of each struct, with the values of their fields.\<close>

type_synonym tagged = "(tag \<times> tag_value) list"

definition AppConfig_tags :: "Configs \<Rightarrow> tagged" where
  "AppConfig_tags c =
     [(opt ''SERVICE_NAME'' TText, VText (ServiceName (TelemetryCfg c))),
      (opt ''VERSION'' TText, VText (Version (TelemetryCfg c))),
      (req ''SERVICE_HOST'' TText, VText (ServerHost (ServerCfg c))),
      (req ''SERVICE_PORT'' TInt, VInt (ServerPort (ServerCfg c))),
      (reqd ''READ_HEADER_TIMEOUT_IN_SECONDS'' TInt ''5'', VInt (ReadHeaderTimeoutInSeconds (ServerCfg c))),
      (reqd ''READ_TIMEOUT_IN_SECONDS'' TInt ''10'', VInt (ReadTimeoutInSeconds (ServerCfg c))),
      (reqd ''WRITE_TIMEOUT_IN_SECONDS'' TInt ''15'', VInt (WriteTimeoutInSeconds (ServerCfg c))),
      (reqd ''IDLE_TIMEOUT_IN_SECONDS'' TInt ''60'', VInt (IdleTimeoutInSeconds (ServerCfg c))),
      (reqd ''LOG_LEVEL'' TInt ''0'', VInt (LogLevel c)),
      (opt ''OTEL_EXPORTER_OTLP_ENDPOINT'' TText, VText (OTLPEndpoint (TelemetryCfg c))),
      (opt ''OTEL_EXPORTER_OTLP_GRPC_PORT'' TInt, VInt (OTLPGrpcPort (TelemetryCfg c))),
      (opt ''OTEL_EXPORTER_OTLP_HEALTH_PORT'' TInt, VInt (OTLPHealthPort c)),
      (opt ''OTEL_EXPORTER_OTLP_INSECURE'' TBool, VBool (OTLPInsecure (TelemetryCfg c))),
      (req ''CLEANING_EMPLOYEES_NAMES'' TNames, VNames (Housekeepers (StaffCfg c))),
      (req ''LAUNDERING_EMPLOYEES_NAMES'' TNames, VNames (Launderers (StaffCfg c))),
      (req ''STOCKERS_EMPLOYEES_NAMES'' TNames, VNames (Stockers (StaffCfg c)))]"

definition MongoConfig_tags :: "Configs \<Rightarrow> tagged" where
  "MongoConfig_tags c =
     (let m = MongoCfg c in
     [(req ''MONGO_INITDB_ROOT_USERNAME'' TText, VText (MUsername m)),
      (req ''MONGO_INITDB_ROOT_PASSWORD'' TText, VText (MPassword m)),
      (req ''MONGO_HOST'' TText, VText (MHost m)),
      (req ''MONGO_DATABASE'' TText, VText (MDatabase m)),
      (dfl ''MONGO_REPLICA_SET'' TText '''', VText (ReplicaSet m)),
      (dfl ''MONGO_CONNECTION_TIMEOUT_IN_SECONDS'' TInt ''10'', VInt (ConnectionTimeoutInSeconds m)),
      (dfl ''MONGO_SERVER_SELECTION_TIMEOUT_IN_SECONDS'' TInt ''10'', VInt (ServerSelectionTimeoutInSeconds m)),
      (dfl ''MONGO_PING_TIMEOUT_IN_SECONDS'' TInt ''5'', VInt (PingTimeoutInSeconds m)),
      (dfl ''MONGO_STARTUP_TIMEOUT_IN_SECONDS'' TInt ''10'', VInt (StartupTimeoutInSeconds m)),
      (dfl ''MONGO_MAX_CONN_IDLE_TIME_IN_SECONDS'' TInt ''60'', VInt (MaxConnIdleTimeInSeconds m)),
      (dfl ''MONGO_MAX_POOL_SIZE'' TUint ''100'', VUint (MaxPoolSize m)),
      (dfl ''MONGO_MIN_POOL_SIZE'' TUint ''0'', VUint (MinPoolSize m)),
      (dfl ''MONGO_RETRY_WRITES'' TBool ''true'', VBool (RetryWrites m)),
      (reqd ''COTTAGE_COLLECTION'' TText ''Cottage'', VText (CottageCollection (CollectionsCfg c))),
      (reqd ''STOCK_COLLECTION'' TText ''Stock'', VText (StockCollection (CollectionsCfg c)))])"

text \<open>\<open>rabbitmq_config.go\<close>: the structs of a queue, a binding and a consumer, under a prefix.\<close>

definition QueueConfig_tags :: "string \<Rightarrow> QueueConfig \<Rightarrow> tagged" where
  "QueueConfig_tags p q =
     [(req (p @ ''NAME'') TText, VText (QName q)),
      (dfl (p @ ''DURABLE'') TBool ''true'', VBool (QDurable q)),
      (dfl (p @ ''AUTO_DELETE'') TBool ''false'', VBool (QAutoDelete q)),
      (dfl (p @ ''EXCLUSIVE'') TBool ''false'', VBool (QExclusive q)),
      (dfl (p @ ''NO_WAIT'') TBool ''false'', VBool (QNoWait q))]"

definition BindingConfig_tags :: "string \<Rightarrow> BindingConfig \<Rightarrow> tagged" where
  "BindingConfig_tags p k =
     [(opt (p @ ''EXCHANGE_NAME'') TText, VText (ExchangeName k)),
      (opt (p @ ''ROUTING_KEY'') TText, VText (BindingConfig.RoutingKey k)),
      (dfl (p @ ''NO_WAIT'') TBool ''false'', VBool (BNoWait k))]"

definition ConsumeConfig_tags :: "string \<Rightarrow> ConsumeConfig \<Rightarrow> tagged" where
  "ConsumeConfig_tags p k =
     [(opt (p @ ''CONSUMER'') TText, VText (Consumer k)),
      (dfl (p @ ''AUTO_ACK'') TBool ''false'', VBool (AutoAck k)),
      (dfl (p @ ''EXCLUSIVE'') TBool ''false'', VBool (CExclusive k)),
      (dfl (p @ ''NO_LOCAL'') TBool ''false'', VBool (NoLocal k)),
      (dfl (p @ ''NO_WAIT'') TBool ''false'', VBool (CNoWait k))]"

definition consumer_tags :: "string \<Rightarrow> consumer_cfg \<Rightarrow> tagged" where
  "consumer_tags p k =
     QueueConfig_tags (p @ ''_QUEUE_'') (Queue k) @ BindingConfig_tags (p @ ''_BINDING_'') (Binding k) @
     ConsumeConfig_tags (p @ ''_CONSUME_'') (ConsumeCfg k)"

definition RabbitMqConfig_tags :: "Configs \<Rightarrow> tagged" where
  "RabbitMqConfig_tags c =
     [(req ''RABBITMQ_USERNAME'' TText, VText (Username (RabbitCfg c))),
      (req ''RABBITMQ_PASSWORD'' TText, VText (Password (RabbitCfg c))),
      (req ''RABBITMQ_HOST'' TText, VText (Host (RabbitCfg c))),
      (req ''RABBITMQ_PORT'' TInt, VInt (Port (RabbitCfg c)))] @
     consumer_tags ''CLEANING'' (CleaningCfg c) @ consumer_tags ''DAY_CHANGE'' (DayChangeCfg c) @
     consumer_tags ''HOUR_CHANGE'' (HourChangeCfg c)"

definition Services_tags :: "Configs \<Rightarrow> tagged" where
  "Services_tags c =
     [(req ''CLOCK_EMU_GRPC_HOST'' TText, VText (GrpcHost (ClockCfg c))),
      (req ''CLOCK_EMU_GRPC_PORT'' TInt, VInt (GrpcPort (ClockCfg c)))]"

definition Configs_tags :: "Configs \<Rightarrow> tagged" where
  "Configs_tags c = AppConfig_tags c @ MongoConfig_tags c @ RabbitMqConfig_tags c @ Services_tags c"

lemmas tags_defs = Configs_tags_def AppConfig_tags_def MongoConfig_tags_def RabbitMqConfig_tags_def
  Services_tags_def consumer_tags_def QueueConfig_tags_def BindingConfig_tags_def ConsumeConfig_tags_def Let_def

text \<open>The tags do not depend on the values.\<close>

lemma Configs_tags_fixed: "map fst (Configs_tags c) = map fst (Configs_tags c')"
  by (simp add: tags_defs)

subsection \<open>Parsing\<close>

text \<open>
  A variable that is not set has its default; a required one without a default must be set; an empty
  value leaves the zero value. \<open>conv\<close> is the conversion of the other values.
\<close>

type_synonym environ = "string \<rightharpoonup> string"

fun zero_of :: "tag_type \<Rightarrow> tag_value" where
  "zero_of TText = VText ''''"
| "zero_of TInt = VInt 0"
| "zero_of TUint = VUint 0"
| "zero_of TBool = VBool False"
| "zero_of TNames = VNames []"

definition tag_read :: "(tag_type \<Rightarrow> string \<Rightarrow> tag_value option) \<Rightarrow> environ \<Rightarrow> tag \<Rightarrow> tag_value option" where
  "tag_read conv env t =
     (case (case env (Var t) of Some s \<Rightarrow> Some s | None \<Rightarrow> Default t) of
        None \<Rightarrow> if Required t then None else Some (zero_of (TagType t))
      | Some s \<Rightarrow> if s = '''' then Some (zero_of (TagType t)) else conv (TagType t) s)"

locale env_parser =
  fixes Parse :: "environ \<Rightarrow> go_error option \<times> Configs"
    and conv :: "tag_type \<Rightarrow> string \<Rightarrow> tag_value option"
  assumes parsed: "(fst (Parse env) = None) = list_all (\<lambda>(t, v). tag_read conv env t \<noteq> None) (Configs_tags (snd (Parse env)))"
    and fields: "fst (Parse env) = None \<Longrightarrow> list_all (\<lambda>(t, v). tag_read conv env t = Some v) (Configs_tags (snd (Parse env)))"
    and texts: "conv TText s = Some (VText s)"
    and ints: "0 \<le> n \<Longrightarrow> n < 2 ^ 31 \<Longrightarrow> conv TInt (show_int n) = Some (VInt n)"
    and uints: "0 \<le> n \<Longrightarrow> n < 2 ^ 31 \<Longrightarrow> conv TUint (show_int n) = Some (VUint (word_of_int n))"
    and bools: "conv TBool ''true'' = Some (VBool True)" "conv TBool ''false'' = Some (VBool False)"
    and one_name: "s \<noteq> '''' \<Longrightarrow> CHR '','' \<notin> set s \<Longrightarrow> conv TNames s = Some (VNames [s])"

text \<open>The variables without which nothing starts.\<close>

definition required_vars :: "string list" where
  "required_vars =
     [''SERVICE_HOST'', ''SERVICE_PORT'',
      ''CLEANING_EMPLOYEES_NAMES'', ''LAUNDERING_EMPLOYEES_NAMES'', ''STOCKERS_EMPLOYEES_NAMES'',
      ''MONGO_INITDB_ROOT_USERNAME'', ''MONGO_INITDB_ROOT_PASSWORD'', ''MONGO_HOST'', ''MONGO_DATABASE'',
      ''RABBITMQ_USERNAME'', ''RABBITMQ_PASSWORD'', ''RABBITMQ_HOST'', ''RABBITMQ_PORT'',
      ''CLEANING_QUEUE_NAME'', ''DAY_CHANGE_QUEUE_NAME'', ''HOUR_CHANGE_QUEUE_NAME'',
      ''CLOCK_EMU_GRPC_HOST'', ''CLOCK_EMU_GRPC_PORT'']"

lemma required_vars_tags:
  "map Var (List.filter (\<lambda>t. Required t \<and> Default t = None) (map fst (Configs_tags c))) = required_vars"
  by (simp add: tags_defs tag_defs required_vars_def)

text \<open>Among these, and beside these, the ones that must not be empty.\<close>

definition nonempty_vars :: "string list" where
  "nonempty_vars =
     [''CLEANING_EMPLOYEES_NAMES'', ''LAUNDERING_EMPLOYEES_NAMES'', ''STOCKERS_EMPLOYEES_NAMES'',
      ''CLEANING_BINDING_EXCHANGE_NAME'', ''DAY_CHANGE_BINDING_EXCHANGE_NAME'', ''HOUR_CHANGE_BINDING_EXCHANGE_NAME'']"

context env_parser
begin

lemma required_set:
  assumes "fst (Parse env) = None"
  shows "list_all (\<lambda>v. env v \<noteq> None) required_vars"
proof -
  have "tag_read conv env t \<noteq> None" if "t \<in> set (map fst (Configs_tags (snd (Parse env))))" for t
    using parsed [of env] assms that by (auto simp: list_all_iff)
  then have "\<forall>t \<in> set (List.filter (\<lambda>t. Required t \<and> Default t = None) (map fst (Configs_tags (snd (Parse env))))).
      env (Var t) \<noteq> None"
    by (fastforce simp: tag_read_def split: option.splits)
  then show ?thesis
    unfolding required_vars_tags [of "snd (Parse env)", symmetric] by (auto simp: list_all_iff)
qed

text \<open>A field that is not empty was set to something.\<close>

lemma set_not_empty:
  assumes "fst (Parse env) = None" "(t, v) \<in> set (Configs_tags (snd (Parse env)))" "Default t = None"
    and "v \<noteq> zero_of (TagType t)"
  shows "env (Var t) \<notin> {None, Some ''''}"
proof -
  from fields [OF assms(1)] assms(2) have "tag_read conv env t = Some v" by (auto simp: list_all_iff)
  with assms(3,4) show ?thesis by (auto simp: tag_read_def split: option.splits if_splits)
qed

end

subsection \<open>A parser\<close>

text \<open>Decimal numbers with a sign, the twelve spellings of a truth value, names between commas.\<close>

fun parse_digits :: "int \<Rightarrow> string \<Rightarrow> int option" where
  "parse_digits acc [] = Some acc"
| "parse_digits acc (c # cs) =
     (if between (CHR ''0'') (CHR ''9'') c then parse_digits (10 * acc + int (of_char c) - 48) cs else None)"

definition parse_int :: "string \<Rightarrow> int option" where
  "parse_int s =
     (case s of
        [] \<Rightarrow> None
      | c # cs \<Rightarrow>
          if c = CHR ''-'' then (if cs = [] then None else map_option uminus (parse_digits 0 cs))
          else if c = CHR ''+'' then (if cs = [] then None else parse_digits 0 cs)
          else parse_digits 0 s)"

fun split_commas :: "string \<Rightarrow> string list" where
  "split_commas [] = [[]]"
| "split_commas (c # cs) =
     (if c = CHR '','' then [] # split_commas cs
      else (case split_commas cs of [] \<Rightarrow> [[c]] | n # ns \<Rightarrow> (c # n) # ns))"

definition parse_bool :: "string \<Rightarrow> bool option" where
  "parse_bool s =
     (if s \<in> {''1'', ''t'', ''T'', ''true'', ''TRUE'', ''True''} then Some True
      else if s \<in> {''0'', ''f'', ''F'', ''false'', ''FALSE'', ''False''} then Some False else None)"

lemma parse_bool_words: "parse_bool ''true'' = Some True" "parse_bool ''false'' = Some False"
  by (simp_all add: parse_bool_def)

fun env_conv :: "tag_type \<Rightarrow> string \<Rightarrow> tag_value option" where
  "env_conv TText s = Some (VText s)"
| "env_conv TInt s =
     (case parse_int s of Some n \<Rightarrow> if - (2 ^ 31) \<le> n \<and> n < 2 ^ 31 then Some (VInt n) else None | None \<Rightarrow> None)"
| "env_conv TUint s =
     (case parse_digits 0 s of Some n \<Rightarrow> if n < 2 ^ 64 then Some (VUint (word_of_int n)) else None | None \<Rightarrow> None)"
| "env_conv TBool s = map_option VBool (parse_bool s)"
| "env_conv TNames s = Some (VNames (split_commas s))"

lemma parse_show_nat: "\<exists>k. \<forall>acc s. parse_digits acc (show_nat n @ s) = parse_digits (acc * 10 ^ k + int n) s"
proof (induction n rule: less_induct)
  case (less n)
  have digit: "parse_digits acc (digit_char d # s) = parse_digits (10 * acc + int d) s" if "d < 10" for acc d s
    using that by (simp add: digit_char_def between_def)
  show ?case
  proof (cases "n < 10")
    case True
    then show ?thesis using digit by (intro exI [of _ 1]) (simp add: show_nat.simps [of n] mult.commute)
  next
    case False
    with less.IH [of "n div 10"] obtain k where
      k: "\<And>acc s. parse_digits acc (show_nat (n div 10) @ s) = parse_digits (acc * 10 ^ k + int (n div 10)) s" by auto
    have "10 * (acc * 10 ^ k + int (n div 10)) + int (n mod 10) = acc * 10 ^ Suc k + int n" for acc
      by (simp add: zdiv_int zmod_int algebra_simps)
    then have "parse_digits acc (show_nat n @ s) = parse_digits (acc * 10 ^ Suc k + int n) s" for acc s
      using False by (simp add: show_nat.simps [of n] k digit del: power_Suc parse_digits.simps)
    then show ?thesis by blast
  qed
qed

lemma parse_int_show: "0 \<le> n \<Longrightarrow> parse_int (show_int n) = Some n \<and> parse_digits 0 (show_int n) = Some n"
proof -
  assume n: "0 \<le> n"
  from parse_show_nat [of "nat n"] obtain k where
    k: "\<And>acc s. parse_digits acc (show_nat (nat n) @ s) = parse_digits (acc * 10 ^ k + int (nat n)) s" by blast
  from k [of 0 "[]"] n have p: "parse_digits 0 (show_int n) = Some n" by (simp add: show_int_def)
  obtain c cs where c: "show_nat (nat n) = c # cs" by (cases "show_nat (nat n)") auto
  with p n have "between (CHR ''0'') (CHR ''9'') c" by (auto simp: show_int_def split: if_splits)
  then have "c \<noteq> CHR ''-''" "c \<noteq> CHR ''+''" by (auto simp: between_def)
  with p c n show ?thesis by (simp add: parse_int_def show_int_def)
qed

lemma split_one: "CHR '','' \<notin> set s \<Longrightarrow> split_commas s = [s]"
  by (induction s) auto


text \<open>Every field from its variable.\<close>

definition get_text :: "environ \<Rightarrow> tag \<Rightarrow> string" where
  "get_text env t = (case tag_read env_conv env t of Some (VText s) \<Rightarrow> s | _ \<Rightarrow> '''')"

definition get_int :: "environ \<Rightarrow> tag \<Rightarrow> int" where
  "get_int env t = (case tag_read env_conv env t of Some (VInt n) \<Rightarrow> n | _ \<Rightarrow> 0)"

definition get_uint :: "environ \<Rightarrow> tag \<Rightarrow> 64 word" where
  "get_uint env t = (case tag_read env_conv env t of Some (VUint n) \<Rightarrow> n | _ \<Rightarrow> 0)"

definition get_bool :: "environ \<Rightarrow> tag \<Rightarrow> bool" where
  "get_bool env t = (case tag_read env_conv env t of Some (VBool x) \<Rightarrow> x | _ \<Rightarrow> False)"

definition get_names :: "environ \<Rightarrow> tag \<Rightarrow> string list" where
  "get_names env t = (case tag_read env_conv env t of Some (VNames ns) \<Rightarrow> ns | _ \<Rightarrow> [])"

lemma get_typed:
  assumes "tag_read env_conv env t \<noteq> None"
  shows "TagType t = TText \<Longrightarrow> tag_read env_conv env t = Some (VText (get_text env t))"
    and "TagType t = TInt \<Longrightarrow> tag_read env_conv env t = Some (VInt (get_int env t))"
    and "TagType t = TUint \<Longrightarrow> tag_read env_conv env t = Some (VUint (get_uint env t))"
    and "TagType t = TBool \<Longrightarrow> tag_read env_conv env t = Some (VBool (get_bool env t))"
    and "TagType t = TNames \<Longrightarrow> tag_read env_conv env t = Some (VNames (get_names env t))"
proof -
  obtain v where v: "tag_read env_conv env t = Some v" using assms by blast
  then have c: "v = zero_of (TagType t) \<or> (\<exists>s. env_conv (TagType t) s = Some v)"
    by (auto simp: tag_read_def split: option.splits if_splits)
  show "TagType t = TText \<Longrightarrow> tag_read env_conv env t = Some (VText (get_text env t))"
    using c v by (auto simp: get_text_def)
  show "TagType t = TInt \<Longrightarrow> tag_read env_conv env t = Some (VInt (get_int env t))"
    using c v by (auto simp: get_int_def split: option.splits if_splits)
  show "TagType t = TUint \<Longrightarrow> tag_read env_conv env t = Some (VUint (get_uint env t))"
    using c v by (auto simp: get_uint_def split: option.splits if_splits)
  show "TagType t = TBool \<Longrightarrow> tag_read env_conv env t = Some (VBool (get_bool env t))"
    using c v by (auto simp: get_bool_def split: if_splits)
  show "TagType t = TNames \<Longrightarrow> tag_read env_conv env t = Some (VNames (get_names env t))"
    using c v by (auto simp: get_names_def)
qed

definition env_consumer :: "environ \<Rightarrow> string \<Rightarrow> consumer_cfg" where
  "env_consumer env p =
     \<lparr>Queue =
        \<lparr>QName = get_text env (req (p @ ''_QUEUE_NAME'') TText),
         QDurable = get_bool env (dfl (p @ ''_QUEUE_DURABLE'') TBool ''true''),
         QAutoDelete = get_bool env (dfl (p @ ''_QUEUE_AUTO_DELETE'') TBool ''false''),
         QExclusive = get_bool env (dfl (p @ ''_QUEUE_EXCLUSIVE'') TBool ''false''),
         QNoWait = get_bool env (dfl (p @ ''_QUEUE_NO_WAIT'') TBool ''false'')\<rparr>,
      Binding =
        \<lparr>ExchangeName = get_text env (opt (p @ ''_BINDING_EXCHANGE_NAME'') TText),
         RoutingKey = get_text env (opt (p @ ''_BINDING_ROUTING_KEY'') TText),
         BNoWait = get_bool env (dfl (p @ ''_BINDING_NO_WAIT'') TBool ''false'')\<rparr>,
      ConsumeCfg =
        \<lparr>Consumer = get_text env (opt (p @ ''_CONSUME_CONSUMER'') TText),
         AutoAck = get_bool env (dfl (p @ ''_CONSUME_AUTO_ACK'') TBool ''false''),
         CExclusive = get_bool env (dfl (p @ ''_CONSUME_EXCLUSIVE'') TBool ''false''),
         NoLocal = get_bool env (dfl (p @ ''_CONSUME_NO_LOCAL'') TBool ''false''),
         CNoWait = get_bool env (dfl (p @ ''_CONSUME_NO_WAIT'') TBool ''false'')\<rparr>\<rparr>"

definition env_Configs :: "environ \<Rightarrow> Configs" where
  "env_Configs env =
     \<lparr>ServerCfg =
        \<lparr>ServerHost = get_text env (req ''SERVICE_HOST'' TText),
         ServerPort = get_int env (req ''SERVICE_PORT'' TInt),
         ReadHeaderTimeoutInSeconds = get_int env (reqd ''READ_HEADER_TIMEOUT_IN_SECONDS'' TInt ''5''),
         ReadTimeoutInSeconds = get_int env (reqd ''READ_TIMEOUT_IN_SECONDS'' TInt ''10''),
         WriteTimeoutInSeconds = get_int env (reqd ''WRITE_TIMEOUT_IN_SECONDS'' TInt ''15''),
         IdleTimeoutInSeconds = get_int env (reqd ''IDLE_TIMEOUT_IN_SECONDS'' TInt ''60'')\<rparr>,
      LogLevel = get_int env (reqd ''LOG_LEVEL'' TInt ''0''),
      TelemetryCfg =
        \<lparr>ServiceName = get_text env (opt ''SERVICE_NAME'' TText), Version = get_text env (opt ''VERSION'' TText),
         OTLPEndpoint = get_text env (opt ''OTEL_EXPORTER_OTLP_ENDPOINT'' TText),
         OTLPGrpcPort = get_int env (opt ''OTEL_EXPORTER_OTLP_GRPC_PORT'' TInt),
         OTLPInsecure = get_bool env (opt ''OTEL_EXPORTER_OTLP_INSECURE'' TBool)\<rparr>,
      OTLPHealthPort = get_int env (opt ''OTEL_EXPORTER_OTLP_HEALTH_PORT'' TInt),
      StaffCfg =
        \<lparr>Housekeepers = get_names env (req ''CLEANING_EMPLOYEES_NAMES'' TNames),
         Launderers = get_names env (req ''LAUNDERING_EMPLOYEES_NAMES'' TNames),
         Stockers = get_names env (req ''STOCKERS_EMPLOYEES_NAMES'' TNames)\<rparr>,
      MongoCfg =
        \<lparr>MUsername = get_text env (req ''MONGO_INITDB_ROOT_USERNAME'' TText),
         MPassword = get_text env (req ''MONGO_INITDB_ROOT_PASSWORD'' TText),
         MHost = get_text env (req ''MONGO_HOST'' TText), MDatabase = get_text env (req ''MONGO_DATABASE'' TText),
         ReplicaSet = get_text env (dfl ''MONGO_REPLICA_SET'' TText ''''),
         ConnectionTimeoutInSeconds = get_int env (dfl ''MONGO_CONNECTION_TIMEOUT_IN_SECONDS'' TInt ''10''),
         ServerSelectionTimeoutInSeconds = get_int env (dfl ''MONGO_SERVER_SELECTION_TIMEOUT_IN_SECONDS'' TInt ''10''),
         PingTimeoutInSeconds = get_int env (dfl ''MONGO_PING_TIMEOUT_IN_SECONDS'' TInt ''5''),
         StartupTimeoutInSeconds = get_int env (dfl ''MONGO_STARTUP_TIMEOUT_IN_SECONDS'' TInt ''10''),
         MaxConnIdleTimeInSeconds = get_int env (dfl ''MONGO_MAX_CONN_IDLE_TIME_IN_SECONDS'' TInt ''60''),
         MaxPoolSize = get_uint env (dfl ''MONGO_MAX_POOL_SIZE'' TUint ''100''),
         MinPoolSize = get_uint env (dfl ''MONGO_MIN_POOL_SIZE'' TUint ''0''),
         RetryWrites = get_bool env (dfl ''MONGO_RETRY_WRITES'' TBool ''true'')\<rparr>,
      CollectionsCfg =
        \<lparr>CottageCollection = get_text env (reqd ''COTTAGE_COLLECTION'' TText ''Cottage''),
         StockCollection = get_text env (reqd ''STOCK_COLLECTION'' TText ''Stock'')\<rparr>,
      RabbitCfg =
        \<lparr>Username = get_text env (req ''RABBITMQ_USERNAME'' TText), Password = get_text env (req ''RABBITMQ_PASSWORD'' TText),
         Host = get_text env (req ''RABBITMQ_HOST'' TText), Port = get_int env (req ''RABBITMQ_PORT'' TInt)\<rparr>,
      CleaningCfg = env_consumer env ''CLEANING'', DayChangeCfg = env_consumer env ''DAY_CHANGE'',
      HourChangeCfg = env_consumer env ''HOUR_CHANGE'',
      ClockCfg =
        \<lparr>GrpcHost = get_text env (req ''CLOCK_EMU_GRPC_HOST'' TText), GrpcPort = get_int env (req ''CLOCK_EMU_GRPC_PORT'' TInt)\<rparr>\<rparr>"

definition env_Parse :: "environ \<Rightarrow> go_error option \<times> Configs" where
  "env_Parse env =
     (let c = env_Configs env in
      (if list_all (\<lambda>(t, v). tag_read env_conv env t \<noteq> None) (Configs_tags c) then None
       else Some (ErrorString ''env: parse error''), c))"

text \<open>The value beside a tag is of the tag's type and is what the getter of this type reads.\<close>

definition got :: "environ \<Rightarrow> tag \<times> tag_value \<Rightarrow> bool" where
  "got env tv \<longleftrightarrow> (case tv of (t, v) \<Rightarrow>
     v = (case TagType t of TText \<Rightarrow> VText (get_text env t) | TInt \<Rightarrow> VInt (get_int env t)
       | TUint \<Rightarrow> VUint (get_uint env t) | TBool \<Rightarrow> VBool (get_bool env t) | TNames \<Rightarrow> VNames (get_names env t)))"

lemma got_read: "got env (t, v) \<Longrightarrow> tag_read env_conv env t \<noteq> None \<Longrightarrow> tag_read env_conv env t = Some v"
  using get_typed [of env t] by (cases "TagType t") (auto simp: got_def)

lemma consumer_got: "list_all (got env) (consumer_tags p (env_consumer env p))"
  by (simp add: consumer_tags_def QueueConfig_tags_def BindingConfig_tags_def ConsumeConfig_tags_def
      env_consumer_def got_def tag_defs)

lemma configs_got: "list_all (got env) (Configs_tags (env_Configs env))"
proof -
  have "list_all (got env) (AppConfig_tags (env_Configs env))"
    by (simp add: AppConfig_tags_def env_Configs_def got_def tag_defs)
  moreover have "list_all (got env) (MongoConfig_tags (env_Configs env))"
    by (simp add: MongoConfig_tags_def env_Configs_def got_def tag_defs)
  moreover have "list_all (got env) (RabbitMqConfig_tags (env_Configs env))"
    using consumer_got by (simp add: RabbitMqConfig_tags_def env_Configs_def) (simp add: got_def tag_defs)
  moreover have "list_all (got env) (Services_tags (env_Configs env))"
    by (simp add: Services_tags_def env_Configs_def got_def tag_defs)
  ultimately show ?thesis by (simp add: Configs_tags_def)
qed

interpretation environment: env_parser env_Parse env_conv
proof unfold_locales
  fix env assume "fst (env_Parse env) = None"
  then have "list_all (\<lambda>(t, v). tag_read env_conv env t \<noteq> None) (Configs_tags (snd (env_Parse env)))"
    by (simp add: env_Parse_def Let_def split: if_splits)
  with configs_got [of env] show "list_all (\<lambda>(t, v). tag_read env_conv env t = Some v) (Configs_tags (snd (env_Parse env)))"
    by (auto simp: list_all_iff env_Parse_def Let_def intro: got_read)
qed (auto simp: env_Parse_def Let_def parse_int_show split_one parse_bool_words)


subsection \<open>What the start needs of the environment\<close>

text \<open>The fields of the variables that must not be empty.\<close>

lemma nonempty_fields:
  "{(req ''CLEANING_EMPLOYEES_NAMES'' TNames, VNames (Housekeepers (StaffCfg c))),
    (req ''LAUNDERING_EMPLOYEES_NAMES'' TNames, VNames (Launderers (StaffCfg c))),
    (req ''STOCKERS_EMPLOYEES_NAMES'' TNames, VNames (Stockers (StaffCfg c))),
    (opt ''CLEANING_BINDING_EXCHANGE_NAME'' TText, VText (ExchangeName (Binding (CleaningCfg c)))),
    (opt ''DAY_CHANGE_BINDING_EXCHANGE_NAME'' TText, VText (ExchangeName (Binding (DayChangeCfg c)))),
    (opt ''HOUR_CHANGE_BINDING_EXCHANGE_NAME'' TText, VText (ExchangeName (Binding (HourChangeCfg c))))}
   \<subseteq> set (Configs_tags c)"
  by (simp add: tags_defs)

lemma started_fields:
  assumes "start_up L parsed d b = (Ok r, lg)" "c = snd parsed"
  shows "Housekeepers (StaffCfg c) \<noteq> []" "Launderers (StaffCfg c) \<noteq> []" "Stockers (StaffCfg c) \<noteq> []"
    "ExchangeName (Binding (CleaningCfg c)) \<noteq> ''''" "ExchangeName (Binding (DayChangeCfg c)) \<noteq> ''''"
    "ExchangeName (Binding (HourChangeCfg c)) \<noteq> ''''"
proof -
  from start_up_ok [OF assms(1)] assms(2) obtain m where
    rb: "NewRabbitmq (Amqp L) (RabbitCfg c) (CleaningCfg c) (DayChangeCfg c) (HourChangeCfg c) b = (Ok (RabbitMQ r), m)"
    and sv: "NewServices (StaffCfg c) wired_deps = Ok (Svcs r)" by blast
  from services_built [of "StaffCfg c"] sv
  show "Housekeepers (StaffCfg c) \<noteq> []" "Launderers (StaffCfg c) \<noteq> []" "Stockers (StaffCfg c) \<noteq> []" by auto
  from NewRabbitmq_exchanges [OF rb] show "ExchangeName (Binding (CleaningCfg c)) \<noteq> ''''"
    "ExchangeName (Binding (DayChangeCfg c)) \<noteq> ''''" "ExchangeName (Binding (HourChangeCfg c)) \<noteq> ''''" by blast+
qed

context env_parser
begin

lemma field:
  "fst (Parse env) = None \<Longrightarrow> (t, v) \<in> set (Configs_tags (snd (Parse env))) \<Longrightarrow> tag_read conv env t = Some v"
  using fields [of env] by (auto simp: list_all_iff)

lemma start_needs:
  assumes "start_up L (Parse env) d b = (Ok r, lg)"
  shows "list_all (\<lambda>v. env v \<noteq> None) required_vars \<and> list_all (\<lambda>v. env v \<notin> {None, Some ''''}) nonempty_vars"
proof -
  from start_up_ok [OF assms] have p: "fst (Parse env) = None" by blast
  note ne = set_not_empty [OF p subsetD [OF nonempty_fields]] and st = started_fields [OF assms HOL.refl]
  have "list_all (\<lambda>v. env v \<notin> {None, Some ''''}) nonempty_vars"
    using ne [of "req ''CLEANING_EMPLOYEES_NAMES'' TNames"] ne [of "req ''LAUNDERING_EMPLOYEES_NAMES'' TNames"]
      ne [of "req ''STOCKERS_EMPLOYEES_NAMES'' TNames"] ne [of "opt ''CLEANING_BINDING_EXCHANGE_NAME'' TText"]
      ne [of "opt ''DAY_CHANGE_BINDING_EXCHANGE_NAME'' TText"] ne [of "opt ''HOUR_CHANGE_BINDING_EXCHANGE_NAME'' TText"] st
    by (simp add: nonempty_vars_def req_def opt_def)
  with required_set [OF p] show ?thesis by blast
qed

end


subsection \<open>The environment of the documentation\<close>

text \<open>\<^verbatim>\<open>README.md\<close>, \<open>Minimum Env To Start\<close>, with values for its placeholders.\<close>

record placeholders =
  ClockHostPH :: string
  MongoUserPH :: string
  MongoPasswordPH :: string
  MongoHostPH :: string
  RabbitUserPH :: string
  RabbitPasswordPH :: string
  RabbitHostPH :: string
  OtelHostPH :: string

definition readme_env :: "placeholders \<Rightarrow> environ" where
  "readme_env h = map_of
     [(''SERVICE_HOST'', ''0.0.0.0''), (''SERVICE_PORT'', ''8080''),
      (''CLEANING_EMPLOYEES_NAMES'', ''alice''), (''LAUNDERING_EMPLOYEES_NAMES'', ''bob''),
      (''STOCKERS_EMPLOYEES_NAMES'', ''carol''),
      (''CLOCK_EMU_GRPC_HOST'', ClockHostPH h), (''CLOCK_EMU_GRPC_PORT'', ''50051''),
      (''MONGO_INITDB_ROOT_USERNAME'', MongoUserPH h), (''MONGO_INITDB_ROOT_PASSWORD'', MongoPasswordPH h),
      (''MONGO_HOST'', MongoHostPH h), (''MONGO_DATABASE'', ''cottages''),
      (''RABBITMQ_USERNAME'', RabbitUserPH h), (''RABBITMQ_PASSWORD'', RabbitPasswordPH h),
      (''RABBITMQ_HOST'', RabbitHostPH h), (''RABBITMQ_PORT'', ''5672''),
      (''CLEANING_QUEUE_NAME'', ''q.staff.cleaning''), (''CLEANING_BINDING_EXCHANGE_NAME'', ''ex.cleaning.request''),
      (''DAY_CHANGE_QUEUE_NAME'', ''q.staff.day-change''), (''DAY_CHANGE_BINDING_EXCHANGE_NAME'', ''ex.time.event''),
      (''DAY_CHANGE_BINDING_ROUTING_KEY'', ''time.event.day''),
      (''HOUR_CHANGE_QUEUE_NAME'', ''q.staff.hour-change''), (''HOUR_CHANGE_BINDING_EXCHANGE_NAME'', ''ex.time.event''),
      (''HOUR_CHANGE_BINDING_ROUTING_KEY'', ''time.event.hour''),
      (''OTEL_EXPORTER_OTLP_ENDPOINT'', OtelHostPH h), (''OTEL_EXPORTER_OTLP_GRPC_PORT'', ''4317''),
      (''OTEL_EXPORTER_OTLP_HEALTH_PORT'', ''13133''), (''OTEL_EXPORTER_OTLP_INSECURE'', ''true'')]"

lemma map_of_step: "map_of ((k, v) # ps) x = (if x = k then Some v else map_of ps x)"
  by simp

context env_parser
begin

lemma numbers:
  "conv TInt ''0'' = Some (VInt 0)" "conv TInt ''5'' = Some (VInt 5)" "conv TInt ''10'' = Some (VInt 10)"
  "conv TInt ''15'' = Some (VInt 15)" "conv TInt ''60'' = Some (VInt 60)" "conv TInt ''8080'' = Some (VInt 8080)"
  "conv TInt ''50051'' = Some (VInt 50051)" "conv TInt ''5672'' = Some (VInt 5672)"
  "conv TInt ''4317'' = Some (VInt 4317)" "conv TInt ''13133'' = Some (VInt 13133)"
  "conv TUint ''0'' = Some (VUint 0)" "conv TUint ''100'' = Some (VUint 100)"
  using ints [of 0] ints [of 5] ints [of 10] ints [of 15] ints [of 60] ints [of 8080] ints [of 50051] ints [of 5672]
    ints [of 4317] ints [of 13133] uints [of 0] uints [of 100]
  unfolding numerals by simp_all

lemma readme_tags:
  "list_all (\<lambda>(t, v). tag_read conv (readme_env h) t \<noteq> None) (AppConfig_tags c)"
  "list_all (\<lambda>(t, v). tag_read conv (readme_env h) t \<noteq> None) (MongoConfig_tags c)"
  "list_all (\<lambda>(t, v). tag_read conv (readme_env h) t \<noteq> None) (RabbitMqConfig_tags c)"
  "list_all (\<lambda>(t, v). tag_read conv (readme_env h) t \<noteq> None) (Services_tags c)"
proof -
  note lookup = tag_defs tag_read_def readme_env_def map_of_step numbers bools texts one_name
  show "list_all (\<lambda>(t, v). tag_read conv (readme_env h) t \<noteq> None) (AppConfig_tags c)"
    unfolding AppConfig_tags_def by (simp add: lookup del: map_of.simps(2))
  show "list_all (\<lambda>(t, v). tag_read conv (readme_env h) t \<noteq> None) (MongoConfig_tags c)"
    unfolding MongoConfig_tags_def Let_def by (simp add: lookup del: map_of.simps(2))
  note consumer = consumer_tags_def QueueConfig_tags_def BindingConfig_tags_def ConsumeConfig_tags_def
  have "list_all (\<lambda>(t, v). tag_read conv (readme_env h) t \<noteq> None) (consumer_tags ''CLEANING'' (CleaningCfg c))"
    unfolding consumer by (simp add: lookup del: map_of.simps(2))
  moreover have "list_all (\<lambda>(t, v). tag_read conv (readme_env h) t \<noteq> None) (consumer_tags ''DAY_CHANGE'' (DayChangeCfg c))"
    unfolding consumer by (simp add: lookup del: map_of.simps(2))
  moreover have "list_all (\<lambda>(t, v). tag_read conv (readme_env h) t \<noteq> None) (consumer_tags ''HOUR_CHANGE'' (HourChangeCfg c))"
    unfolding consumer by (simp add: lookup del: map_of.simps(2))
  ultimately show "list_all (\<lambda>(t, v). tag_read conv (readme_env h) t \<noteq> None) (RabbitMqConfig_tags c)"
    unfolding RabbitMqConfig_tags_def by (simp add: lookup del: map_of.simps(2))
  show "list_all (\<lambda>(t, v). tag_read conv (readme_env h) t \<noteq> None) (Services_tags c)"
    unfolding Services_tags_def by (simp add: lookup del: map_of.simps(2))
qed

lemma readme_loads: "fst (Parse (readme_env h)) = None"
  unfolding parsed Configs_tags_def using readme_tags [of h "snd (Parse (readme_env h))"] by simp

lemma readme_fields:
  assumes "c = snd (Parse (readme_env h))"
  shows "StaffCfg c = \<lparr>Housekeepers = [''alice''], Launderers = [''bob''], Stockers = [''carol'']\<rparr>"
    and "ServerPort (ServerCfg c) = 8080" "ReadTimeoutInSeconds (ServerCfg c) = 10"
    and "map ExchangeName (map Binding [CleaningCfg c, DayChangeCfg c, HourChangeCfg c]) =
      [''ex.cleaning.request'', ''ex.time.event'', ''ex.time.event'']"
proof -
  note f = field [OF readme_loads [of h], folded assms]
  have sub: "set (AppConfig_tags c) \<subseteq> set (Configs_tags c)" by (auto simp: Configs_tags_def)
  have "Some (VNames [''alice'']) = Some (VNames (Housekeepers (StaffCfg c)))"
    using f [OF subsetD [OF nonempty_fields], of "req ''CLEANING_EMPLOYEES_NAMES'' TNames"]
    by (simp add: tag_read_def req_def opt_def readme_env_def one_name)
  moreover have "Some (VNames [''bob'']) = Some (VNames (Launderers (StaffCfg c)))"
    using f [OF subsetD [OF nonempty_fields], of "req ''LAUNDERING_EMPLOYEES_NAMES'' TNames"]
    by (simp add: tag_read_def req_def opt_def readme_env_def one_name)
  moreover have "Some (VNames [''carol'']) = Some (VNames (Stockers (StaffCfg c)))"
    using f [OF subsetD [OF nonempty_fields], of "req ''STOCKERS_EMPLOYEES_NAMES'' TNames"]
    by (simp add: tag_read_def req_def opt_def readme_env_def one_name)
  ultimately show "StaffCfg c = \<lparr>Housekeepers = [''alice''], Launderers = [''bob''], Stockers = [''carol'']\<rparr>" by simp
  show "ServerPort (ServerCfg c) = 8080"
    using f [OF subsetD [OF sub], of "req ''SERVICE_PORT'' TInt" "VInt (ServerPort (ServerCfg c))"]
    by (simp add: AppConfig_tags_def tag_read_def req_def readme_env_def numbers)
  show "ReadTimeoutInSeconds (ServerCfg c) = 10"
    using f [OF subsetD [OF sub], of "reqd ''READ_TIMEOUT_IN_SECONDS'' TInt ''10''" "VInt (ReadTimeoutInSeconds (ServerCfg c))"]
    by (simp add: AppConfig_tags_def tag_read_def reqd_def readme_env_def numbers)
  have ex: "''ex.cleaning.request'' = ExchangeName (Binding (CleaningCfg c))"
    "''ex.time.event'' = ExchangeName (Binding (DayChangeCfg c))"
    "''ex.time.event'' = ExchangeName (Binding (HourChangeCfg c))"
    using f [OF subsetD [OF nonempty_fields], of "opt ''CLEANING_BINDING_EXCHANGE_NAME'' TText"]
    apply (simp add: tag_read_def req_def opt_def readme_env_def texts)
    using f [OF subsetD [OF nonempty_fields], of "opt ''DAY_CHANGE_BINDING_EXCHANGE_NAME'' TText"]
    apply (simp add: tag_read_def req_def opt_def readme_env_def texts)
    using f [OF subsetD [OF nonempty_fields], of "opt ''HOUR_CHANGE_BINDING_EXCHANGE_NAME'' TText"]
    by (simp add: tag_read_def req_def opt_def readme_env_def texts)
  show "map ExchangeName (map Binding [CleaningCfg c, DayChangeCfg c, HourChangeCfg c]) =
      [''ex.cleaning.request'', ''ex.time.event'', ''ex.time.event'']"
    by (simp add: ex [symmetric])
qed

end


subsection \<open>Properties\<close>


definition example_placeholders :: placeholders where
  "example_placeholders =
     \<lparr>ClockHostPH = ''clock'', MongoUserPH = ''root'', MongoPasswordPH = ''secret'', MongoHostPH = ''db'',
      RabbitUserPH = ''u'', RabbitPasswordPH = ''p'', RabbitHostPH = ''mq'', OtelHostPH = ''otel''\<rparr>"



end
