(* ===== verification/Fakes.thy ===== *)
theory Fakes
  imports Stock_Repo Mq "HOL-Library.Word"
begin

text \<open>
  \<^verbatim>\<open>internal/infra/fakes\<close>: the doubles of the ports the unit tests run the services on. A fake
  counts its calls, keeps the arguments of the last one, and passes the call on to the function
  that the test has set, if any. \<open>'c\<close> are the contexts of the calls, \<open>'w\<close> is the state behind
  the functions; a method works on the fake together with that state. A field that holds a last
  argument is \<open>None\<close> before the first call where its type has no zero value of its own.
\<close>

text \<open>Passing a call on: the answer of the function, or a default.\<close>

definition delegate :: "('w \<Rightarrow> 'r \<times> 'w) option \<Rightarrow> 'r \<Rightarrow> 'f \<Rightarrow> 'w \<Rightarrow> 'r \<times> 'f \<times> 'w" where
  "delegate fn r f w = (case fn of Some g \<Rightarrow> (case g w of (x, w') \<Rightarrow> (x, f, w')) | None \<Rightarrow> (r, f, w))"

definition answer :: "('w \<Rightarrow> 'r \<times> 'w) option \<Rightarrow> 'r \<Rightarrow> 'w \<Rightarrow> 'r \<times> 'w" where
  "answer fn r w = (case fn of Some g \<Rightarrow> g w | None \<Rightarrow> (r, w))"

lemma delegate_answer: "delegate fn r f w = (case answer fn r w of (x, w') \<Rightarrow> (x, f, w'))"
  by (simp add: delegate_def answer_def split: option.split)

subsection \<open>The stock repository (stock\_repo\_fake.go)\<close>

record ('c, 'w) FakeStockRepo =
  GetStockFn :: "('c \<Rightarrow> 'w \<Rightarrow> (go_error + (string \<rightharpoonup> StockItem)) \<times> 'w) option"
  ConsumeItemFn :: "('c \<Rightarrow> string \<Rightarrow> int \<Rightarrow> 'w \<Rightarrow> go_error option \<times> 'w) option"
  RestockItemFn :: "('c \<Rightarrow> string \<Rightarrow> int \<Rightarrow> 'w \<Rightarrow> go_error option \<times> 'w) option"
  GetStockCallCount :: int
  ConsumeItemCallCount :: int
  RestockItemCallCount :: int
  LastGetStockCtx :: "'c option"
  LastConsumeItemCtx :: "'c option"
  LastConsumeItemName :: string
  LastConsumeQuantity :: int
  LastRestockItemCtx :: "'c option"
  LastRestockItemName :: string
  LastRestockQuantity :: int

definition fake_GetStock ::
    "'c \<Rightarrow> ('c, 'w) FakeStockRepo \<Rightarrow> 'w \<Rightarrow> (go_error + (string \<rightharpoonup> StockItem)) \<times> ('c, 'w) FakeStockRepo \<times> 'w" where
  "fake_GetStock ctx f =
     delegate (map_option (\<lambda>fn. fn ctx) (GetStockFn f)) (Inr Map.empty)
       (f\<lparr>GetStockCallCount := GetStockCallCount f + 1, LastGetStockCtx := Some ctx\<rparr>)"

definition fake_ConsumeItem ::
    "'c \<Rightarrow> string \<Rightarrow> int \<Rightarrow> ('c, 'w) FakeStockRepo \<Rightarrow> 'w \<Rightarrow> go_error option \<times> ('c, 'w) FakeStockRepo \<times> 'w" where
  "fake_ConsumeItem ctx itemName quantity f =
     delegate (map_option (\<lambda>fn. fn ctx itemName quantity) (ConsumeItemFn f)) None
       (f\<lparr>ConsumeItemCallCount := ConsumeItemCallCount f + 1, LastConsumeItemCtx := Some ctx,
          LastConsumeItemName := itemName, LastConsumeQuantity := quantity\<rparr>)"

definition fake_RestockItem ::
    "'c \<Rightarrow> string \<Rightarrow> int \<Rightarrow> ('c, 'w) FakeStockRepo \<Rightarrow> 'w \<Rightarrow> go_error option \<times> ('c, 'w) FakeStockRepo \<times> 'w" where
  "fake_RestockItem ctx itemName quantity f =
     delegate (map_option (\<lambda>fn. fn ctx itemName quantity) (RestockItemFn f)) None
       (f\<lparr>RestockItemCallCount := RestockItemCallCount f + 1, LastRestockItemCtx := Some ctx,
          LastRestockItemName := itemName, LastRestockQuantity := quantity\<rparr>)"

subsection \<open>The cottage repository (cottage\_repo\_fake.go)\<close>

text \<open>\<open>documents.Cottage\<close>; an object id is its twelve bytes, the price the bits of its \<open>float32\<close>.\<close>

definition NilObjectID :: string where
  "NilObjectID = replicate 12 (CHR 0x00)"

record CottageDetails =
  Description :: string
  DetailsView :: string
  FurnitureDescription :: string
  BathroomDescription :: string
  AmenitiesDescription :: string

record Key =
  Number :: string
  Holder :: string

record Cottage =
  CottageId :: string
  CottageName :: string
  View :: string
  Details :: CottageDetails
  Photos :: "string list"
  PricePerNight :: "32 word"
  Bookings :: "string list"
  CurrentGuest :: string
  CleaningStatus :: string
  CottageKey :: Key

definition zeroCottage :: Cottage where
  "zeroCottage =
     \<lparr>CottageId = NilObjectID, CottageName = '''', View = '''',
      Details = \<lparr>Description = '''', DetailsView = '''', FurnitureDescription = '''',
                 BathroomDescription = '''', AmenitiesDescription = ''''\<rparr>,
      Photos = [], PricePerNight = 0, Bookings = [], CurrentGuest = NilObjectID, CleaningStatus = '''',
      CottageKey = \<lparr>Number = '''', Holder = ''''\<rparr>\<rparr>"

record ('c, 'w) FakeCottageRepo =
  GetByNameFn :: "('c \<Rightarrow> string \<Rightarrow> 'w \<Rightarrow> (Cottage \<times> go_error option) \<times> 'w) option"
  UpdateCurrentGuestFn :: "('c \<Rightarrow> string \<Rightarrow> string \<Rightarrow> 'w \<Rightarrow> go_error option \<times> 'w) option"
  ClearCurrentGuestFn :: "('c \<Rightarrow> string \<Rightarrow> 'w \<Rightarrow> go_error option \<times> 'w) option"
  UpdateCleaningStatusFn :: "('c \<Rightarrow> string \<Rightarrow> string \<Rightarrow> 'w \<Rightarrow> go_error option \<times> 'w) option"
  GetByNameCallCount :: int
  UpdateCurrentGuestCallCount :: int
  ClearCurrentGuestCallCount :: int
  UpdateCleaningStatusCallCount :: int
  LastGetByNameCtx :: "'c option"
  LastGetByNameRoomName :: string
  LastUpdateCurrentGuestCtx :: "'c option"
  LastUpdateRoomName :: string
  LastUpdateGuestID :: string
  LastClearCurrentGuestCtx :: "'c option"
  LastClearRoomName :: string
  LastUpdateCleaningStatusCtx :: "'c option"
  LastUpdateCleaningStatusRoom :: string
  LastCleaningStatus :: string

definition fake_GetByName ::
    "'c \<Rightarrow> string \<Rightarrow> ('c, 'w) FakeCottageRepo \<Rightarrow> 'w \<Rightarrow> (Cottage \<times> go_error option) \<times> ('c, 'w) FakeCottageRepo \<times> 'w" where
  "fake_GetByName ctx roomName f =
     delegate (map_option (\<lambda>fn. fn ctx roomName) (GetByNameFn f)) (zeroCottage, None)
       (f\<lparr>GetByNameCallCount := GetByNameCallCount f + 1, LastGetByNameCtx := Some ctx,
          LastGetByNameRoomName := roomName\<rparr>)"

definition fake_UpdateCurrentGuest ::
    "'c \<Rightarrow> string \<Rightarrow> string \<Rightarrow> ('c, 'w) FakeCottageRepo \<Rightarrow> 'w \<Rightarrow> go_error option \<times> ('c, 'w) FakeCottageRepo \<times> 'w" where
  "fake_UpdateCurrentGuest ctx roomName guestID f =
     delegate (map_option (\<lambda>fn. fn ctx roomName guestID) (UpdateCurrentGuestFn f)) None
       (f\<lparr>UpdateCurrentGuestCallCount := UpdateCurrentGuestCallCount f + 1, LastUpdateCurrentGuestCtx := Some ctx,
          LastUpdateRoomName := roomName, LastUpdateGuestID := guestID\<rparr>)"

definition fake_ClearCurrentGuest ::
    "'c \<Rightarrow> string \<Rightarrow> ('c, 'w) FakeCottageRepo \<Rightarrow> 'w \<Rightarrow> go_error option \<times> ('c, 'w) FakeCottageRepo \<times> 'w" where
  "fake_ClearCurrentGuest ctx roomName f =
     delegate (map_option (\<lambda>fn. fn ctx roomName) (ClearCurrentGuestFn f)) None
       (f\<lparr>ClearCurrentGuestCallCount := ClearCurrentGuestCallCount f + 1, LastClearCurrentGuestCtx := Some ctx,
          LastClearRoomName := roomName\<rparr>)"

definition fake_UpdateCleaningStatus ::
    "'c \<Rightarrow> string \<Rightarrow> string \<Rightarrow> ('c, 'w) FakeCottageRepo \<Rightarrow> 'w \<Rightarrow> go_error option \<times> ('c, 'w) FakeCottageRepo \<times> 'w" where
  "fake_UpdateCleaningStatus ctx roomName cleaningStatus f =
     delegate (map_option (\<lambda>fn. fn ctx roomName cleaningStatus) (UpdateCleaningStatusFn f)) None
       (f\<lparr>UpdateCleaningStatusCallCount := UpdateCleaningStatusCallCount f + 1,
          LastUpdateCleaningStatusCtx := Some ctx, LastUpdateCleaningStatusRoom := roomName,
          LastCleaningStatus := cleaningStatus\<rparr>)"

subsection \<open>The clock (clock\_client\_fake.go)\<close>

text \<open>Without a function \<open>Now\<close> reads the clock of the machine, \<open>wall\<close>.\<close>

record ('c, 'w) FakeClockClient =
  NowFn :: "('c \<Rightarrow> 'w \<Rightarrow> (go_error + time) \<times> 'w) option"
  CloseFn :: "('w \<Rightarrow> go_error option \<times> 'w) option"
  NowCallCount :: int
  CloseCallCount :: int
  LastNowCtx :: "'c option"

definition fake_Now ::
    "('w \<Rightarrow> time) \<Rightarrow> 'c \<Rightarrow> ('c, 'w) FakeClockClient \<Rightarrow> 'w \<Rightarrow> (go_error + time) \<times> ('c, 'w) FakeClockClient \<times> 'w" where
  "fake_Now wall ctx f w =
     delegate (map_option (\<lambda>fn. fn ctx) (NowFn f)) (Inr (wall w))
       (f\<lparr>NowCallCount := NowCallCount f + 1, LastNowCtx := Some ctx\<rparr>) w"

definition fake_Close ::
    "('c, 'w) FakeClockClient \<Rightarrow> 'w \<Rightarrow> go_error option \<times> ('c, 'w) FakeClockClient \<times> 'w" where
  "fake_Close f = delegate (CloseFn f) None (f\<lparr>CloseCallCount := CloseCallCount f + 1\<rparr>)"

subsection \<open>The acknowledger (acknowledger\_fake.go)\<close>

record FakeAcknowledger =
  AckCalls :: int
  NackCalls :: int
  RejectCalls :: int
  LastAckTag :: "64 word"
  LastAckMultiple :: bool
  LastNackTag :: "64 word"
  LastNackMultiple :: bool
  LastNackRequeue :: bool
  LastRejectTag :: "64 word"
  LastRejectRequeue :: bool
  FakeAckErr :: "go_error option"
  FakeNackErr :: "go_error option"
  FakeRejectErr :: "go_error option"

definition fake_Ack :: "64 word \<Rightarrow> bool \<Rightarrow> FakeAcknowledger \<Rightarrow> go_error option \<times> FakeAcknowledger" where
  "fake_Ack tag multiple f =
     (FakeAckErr f, f\<lparr>AckCalls := AckCalls f + 1, LastAckTag := tag, LastAckMultiple := multiple\<rparr>)"

definition fake_Nack :: "64 word \<Rightarrow> bool \<Rightarrow> bool \<Rightarrow> FakeAcknowledger \<Rightarrow> go_error option \<times> FakeAcknowledger" where
  "fake_Nack tag multiple requeue f =
     (FakeNackErr f, f\<lparr>NackCalls := NackCalls f + 1, LastNackTag := tag, LastNackMultiple := multiple,
        LastNackRequeue := requeue\<rparr>)"

definition fake_Reject :: "64 word \<Rightarrow> bool \<Rightarrow> FakeAcknowledger \<Rightarrow> go_error option \<times> FakeAcknowledger" where
  "fake_Reject tag requeue f =
     (FakeRejectErr f, f\<lparr>RejectCalls := RejectCalls f + 1, LastRejectTag := tag, LastRejectRequeue := requeue\<rparr>)"

subsection \<open>The message queue (mq\_consumer\_fake.go, mq\_producer\_fake.go)\<close>

text \<open>A channel of deliveries is a number, \<open>None\<close> the nil channel.\<close>

record ('c, 'w) FakeMqConsumer =
  DeclareQueueFn :: "('c \<Rightarrow> QueueConfig \<Rightarrow> 'w \<Rightarrow> go_error option \<times> 'w) option"
  BindQueueFn :: "('c \<Rightarrow> BindingConfig \<Rightarrow> 'w \<Rightarrow> go_error option \<times> 'w) option"
  ConsumeFn :: "('c \<Rightarrow> 'w \<Rightarrow> (nat option \<times> go_error option) \<times> 'w) option"
  ConsumerCloseChannelFn :: "('w \<Rightarrow> go_error option \<times> 'w) option"
  DeclareQueueCallCount :: int
  BindQueueCallCount :: int
  ConsumeCallCount :: int
  ConsumerCloseChannelCallCount :: int
  LastDeclaredQueue :: "QueueConfig option"
  LastBoundQueue :: "BindingConfig option"
  LastDeclareCtx :: "'c option"
  LastBindCtx :: "'c option"
  LastConsumeCtx :: "'c option"
  LastAck :: "FakeAcknowledger option"

definition fake_DeclareQueue ::
    "'c \<Rightarrow> QueueConfig \<Rightarrow> ('c, 'w) FakeMqConsumer \<Rightarrow> 'w \<Rightarrow> go_error option \<times> ('c, 'w) FakeMqConsumer \<times> 'w" where
  "fake_DeclareQueue ctx config f =
     delegate (map_option (\<lambda>fn. fn ctx config) (DeclareQueueFn f)) None
       (f\<lparr>DeclareQueueCallCount := DeclareQueueCallCount f + 1, LastDeclareCtx := Some ctx,
          LastDeclaredQueue := Some config\<rparr>)"

definition fake_BindQueue ::
    "'c \<Rightarrow> BindingConfig \<Rightarrow> ('c, 'w) FakeMqConsumer \<Rightarrow> 'w \<Rightarrow> go_error option \<times> ('c, 'w) FakeMqConsumer \<times> 'w" where
  "fake_BindQueue ctx config f =
     delegate (map_option (\<lambda>fn. fn ctx config) (BindQueueFn f)) None
       (f\<lparr>BindQueueCallCount := BindQueueCallCount f + 1, LastBindCtx := Some ctx,
          LastBoundQueue := Some config\<rparr>)"

definition fake_Consume ::
    "'c \<Rightarrow> ('c, 'w) FakeMqConsumer \<Rightarrow> 'w \<Rightarrow> (nat option \<times> go_error option) \<times> ('c, 'w) FakeMqConsumer \<times> 'w" where
  "fake_Consume ctx f =
     delegate (map_option (\<lambda>fn. fn ctx) (ConsumeFn f)) (None, None)
       (f\<lparr>ConsumeCallCount := ConsumeCallCount f + 1, LastConsumeCtx := Some ctx\<rparr>)"

definition fake_ConsumerCloseChannel ::
    "('c, 'w) FakeMqConsumer \<Rightarrow> 'w \<Rightarrow> go_error option \<times> ('c, 'w) FakeMqConsumer \<times> 'w" where
  "fake_ConsumerCloseChannel f =
     delegate (ConsumerCloseChannelFn f) None
       (f\<lparr>ConsumerCloseChannelCallCount := ConsumerCloseChannelCallCount f + 1\<rparr>)"

record ('c, 'm, 'w) FakeMqProducer =
  DeclareExchangeFn :: "(ExchangeConfig \<Rightarrow> 'w \<Rightarrow> go_error option \<times> 'w) option"
  PublishFn :: "('c \<Rightarrow> 'm \<Rightarrow> string \<Rightarrow> 'w \<Rightarrow> go_error option \<times> 'w) option"
  ProducerCloseChannelFn :: "('w \<Rightarrow> go_error option \<times> 'w) option"
  DeclareExchangeCallCount :: int
  PublishCallCount :: int
  ProducerCloseChannelCallCount :: int
  LastDeclaredExchange :: "ExchangeConfig option"
  LastPublishedCtx :: "'c option"
  LastPublishedMessage :: "'m option"
  LastPublishedRoutingKey :: string

definition fake_DeclareExchange ::
    "ExchangeConfig \<Rightarrow> ('c, 'm, 'w) FakeMqProducer \<Rightarrow> 'w \<Rightarrow> go_error option \<times> ('c, 'm, 'w) FakeMqProducer \<times> 'w" where
  "fake_DeclareExchange config f =
     delegate (map_option (\<lambda>fn. fn config) (DeclareExchangeFn f)) None
       (f\<lparr>DeclareExchangeCallCount := DeclareExchangeCallCount f + 1, LastDeclaredExchange := Some config\<rparr>)"

definition fake_Publish ::
    "'c \<Rightarrow> 'm \<Rightarrow> string \<Rightarrow> ('c, 'm, 'w) FakeMqProducer \<Rightarrow> 'w \<Rightarrow> go_error option \<times> ('c, 'm, 'w) FakeMqProducer \<times> 'w" where
  "fake_Publish ctx message routingKey f =
     delegate (map_option (\<lambda>fn. fn ctx message routingKey) (PublishFn f)) None
       (f\<lparr>PublishCallCount := PublishCallCount f + 1, LastPublishedCtx := Some ctx,
          LastPublishedMessage := Some message, LastPublishedRoutingKey := routingKey\<rparr>)"

definition fake_ProducerCloseChannel ::
    "('c, 'm, 'w) FakeMqProducer \<Rightarrow> 'w \<Rightarrow> go_error option \<times> ('c, 'm, 'w) FakeMqProducer \<times> 'w" where
  "fake_ProducerCloseChannel f =
     delegate (ProducerCloseChannelFn f) None
       (f\<lparr>ProducerCloseChannelCallCount := ProducerCloseChannelCallCount f + 1\<rparr>)"

subsection \<open>Running a service on fakes\<close>

record ('c, 'w) fakes =
  clock_fake :: "('c, 'w) FakeClockClient"
  stock_fake :: "('c, 'w) FakeStockRepo"
  cottage_fake :: "('c, 'w) FakeCottageRepo"

text \<open>The ports of a handler that runs with the context \<open>ctx\<close> on the fakes.\<close>

definition fake_ports :: "('w \<Rightarrow> time) \<Rightarrow> 'c \<Rightarrow> (('c, 'w) fakes \<times> 'w) ports" where
  "fake_ports wall ctx =
     \<lparr>p_now = (\<lambda>(f, w). case fake_Now wall ctx (clock_fake f) w of (r, x, w') \<Rightarrow> (r, f\<lparr>clock_fake := x\<rparr>, w')),
      p_getStock = (\<lambda>(f, w). case fake_GetStock ctx (stock_fake f) w of (r, x, w') \<Rightarrow> (r, f\<lparr>stock_fake := x\<rparr>, w')),
      p_consumeItem = (\<lambda>i q (f, w).
        case fake_ConsumeItem ctx i q (stock_fake f) w of (r, x, w') \<Rightarrow> (r, f\<lparr>stock_fake := x\<rparr>, w')),
      p_restockItem = (\<lambda>i q (f, w).
        case fake_RestockItem ctx i q (stock_fake f) w of (r, x, w') \<Rightarrow> (r, f\<lparr>stock_fake := x\<rparr>, w')),
      p_updateCleaningStatus = (\<lambda>n v (f, w).
        case fake_UpdateCleaningStatus ctx n v (cottage_fake f) w of (r, x, w') \<Rightarrow> (r, f\<lparr>cottage_fake := x\<rparr>, w'))\<rparr>"

text \<open>What answers behind the fakes: the functions the test has set, the defaults for the others.\<close>

definition behind :: "('w \<Rightarrow> time) \<Rightarrow> 'c \<Rightarrow> ('c, 'w) fakes \<Rightarrow> 'w ports" where
  "behind wall ctx f =
     \<lparr>p_now = (\<lambda>w. answer (map_option (\<lambda>fn. fn ctx) (NowFn (clock_fake f))) (Inr (wall w)) w),
      p_getStock = answer (map_option (\<lambda>fn. fn ctx) (GetStockFn (stock_fake f))) (Inr Map.empty),
      p_consumeItem = (\<lambda>i q. answer (map_option (\<lambda>fn. fn ctx i q) (ConsumeItemFn (stock_fake f))) None),
      p_restockItem = (\<lambda>i q. answer (map_option (\<lambda>fn. fn ctx i q) (RestockItemFn (stock_fake f))) None),
      p_updateCleaningStatus = (\<lambda>n v.
        answer (map_option (\<lambda>fn. fn ctx n v) (UpdateCleaningStatusFn (cottage_fake f))) None)\<rparr>"

text \<open>A solo run without the fakes.\<close>

definition inner :: "('f \<times> 'w) solo \<Rightarrow> 'w solo" where
  "inner s = \<lparr>outer = snd (outer s), laundry = laundry s, nextChan = nextChan s, registered = registered s,
     arrivals = arrivals s, logs = logs s\<rparr>"

text \<open>How often each port is called in a trace.\<close>

fun is_now :: "event \<Rightarrow> bool" where "is_now (EvNow r) = True" | "is_now _ = False"
fun is_get :: "event \<Rightarrow> bool" where "is_get (EvGetStock r) = True" | "is_get _ = False"
fun is_consume :: "event \<Rightarrow> bool" where "is_consume (EvConsumeItem i q r) = True" | "is_consume _ = False"
fun is_restock :: "event \<Rightarrow> bool" where "is_restock (EvRestockItem i q r) = True" | "is_restock _ = False"
fun is_update :: "event \<Rightarrow> bool" where "is_update (EvUpdateCleaningStatus n s r) = True" | "is_update _ = False"

definition calls :: "(event \<Rightarrow> bool) \<Rightarrow> event list \<Rightarrow> int" where
  "calls P es = int (length (List.filter P es))"

lemma calls_simps [simp]:
  "calls P [] = 0" "calls P (e # es) = (if P e then calls P es + 1 else calls P es)"
  "calls P (es @ fs) = calls P es + calls P fs"
  by (simp_all add: calls_def)

text \<open>What a run on the fakes leaves in them.\<close>

definition counted :: "('c, 'w) fakes \<Rightarrow> event list \<Rightarrow> ('c, 'w) fakes \<Rightarrow> bool" where
  "counted f es f' \<longleftrightarrow>
     NowCallCount (clock_fake f') = NowCallCount (clock_fake f) + calls is_now es \<and>
     GetStockCallCount (stock_fake f') = GetStockCallCount (stock_fake f) + calls is_get es \<and>
     ConsumeItemCallCount (stock_fake f') = ConsumeItemCallCount (stock_fake f) + calls is_consume es \<and>
     RestockItemCallCount (stock_fake f') = RestockItemCallCount (stock_fake f) + calls is_restock es \<and>
     UpdateCleaningStatusCallCount (cottage_fake f') =
       UpdateCleaningStatusCallCount (cottage_fake f) + calls is_update es"

lemmas fake_call_defs = fake_ports_def fake_Now_def fake_GetStock_def fake_ConsumeItem_def fake_RestockItem_def
  fake_UpdateCleaningStatus_def delegate_answer

text \<open>One call of each port.\<close>

lemma fake_calls:
  "p_now (fake_ports wall ctx) (f, w) =
     (case p_now (behind wall ctx f) w of (r, w') \<Rightarrow>
        (r, f\<lparr>clock_fake := (clock_fake f)\<lparr>NowCallCount := NowCallCount (clock_fake f) + 1, LastNowCtx := Some ctx\<rparr>\<rparr>, w'))"
  "p_getStock (fake_ports wall ctx) (f, w) =
     (case p_getStock (behind wall ctx f) w of (r, w') \<Rightarrow>
        (r, f\<lparr>stock_fake := (stock_fake f)\<lparr>GetStockCallCount := GetStockCallCount (stock_fake f) + 1,
           LastGetStockCtx := Some ctx\<rparr>\<rparr>, w'))"
  "p_consumeItem (fake_ports wall ctx) i q (f, w) =
     (case p_consumeItem (behind wall ctx f) i q w of (e, w') \<Rightarrow>
        (e, f\<lparr>stock_fake := (stock_fake f)\<lparr>ConsumeItemCallCount := ConsumeItemCallCount (stock_fake f) + 1,
           LastConsumeItemCtx := Some ctx, LastConsumeItemName := i, LastConsumeQuantity := q\<rparr>\<rparr>, w'))"
  "p_restockItem (fake_ports wall ctx) i q (f, w) =
     (case p_restockItem (behind wall ctx f) i q w of (e, w') \<Rightarrow>
        (e, f\<lparr>stock_fake := (stock_fake f)\<lparr>RestockItemCallCount := RestockItemCallCount (stock_fake f) + 1,
           LastRestockItemCtx := Some ctx, LastRestockItemName := i, LastRestockQuantity := q\<rparr>\<rparr>, w'))"
  "p_updateCleaningStatus (fake_ports wall ctx) n v (f, w) =
     (case p_updateCleaningStatus (behind wall ctx f) n v w of (e, w') \<Rightarrow>
        (e, f\<lparr>cottage_fake := (cottage_fake f)\<lparr>UpdateCleaningStatusCallCount := UpdateCleaningStatusCallCount (cottage_fake f) + 1,
           LastUpdateCleaningStatusCtx := Some ctx, LastUpdateCleaningStatusRoom := n, LastCleaningStatus := v\<rparr>\<rparr>, w'))"
  by (simp_all add: fake_call_defs behind_def split_beta)

lemma behind_calls [simp]:
  "behind wall ctx (f\<lparr>clock_fake := (clock_fake f)\<lparr>NowCallCount := n, LastNowCtx := c\<rparr>\<rparr>) = behind wall ctx f"
  "behind wall ctx (f\<lparr>stock_fake := (stock_fake f)\<lparr>GetStockCallCount := n, LastGetStockCtx := c\<rparr>\<rparr>) = behind wall ctx f"
  "behind wall ctx (f\<lparr>stock_fake := (stock_fake f)\<lparr>ConsumeItemCallCount := n, LastConsumeItemCtx := c,
     LastConsumeItemName := i, LastConsumeQuantity := q\<rparr>\<rparr>) = behind wall ctx f"
  "behind wall ctx (f\<lparr>stock_fake := (stock_fake f)\<lparr>RestockItemCallCount := n, LastRestockItemCtx := c,
     LastRestockItemName := i, LastRestockQuantity := q\<rparr>\<rparr>) = behind wall ctx f"
  "behind wall ctx (f\<lparr>cottage_fake := (cottage_fake f)\<lparr>UpdateCleaningStatusCallCount := n, LastUpdateCleaningStatusCtx := c,
     LastUpdateCleaningStatusRoom := i, LastCleaningStatus := v\<rparr>\<rparr>) = behind wall ctx f"
  by (simp_all add: behind_def)

lemma inner_simps [simp]:
  "outer (inner s) = snd (outer s)" "laundry (inner s) = laundry s" "nextChan (inner s) = nextChan s"
  "registered (inner s) = registered s" "arrivals (inner s) = arrivals s" "logs (inner s) = logs s"
  "inner (s\<lparr>outer := (f, w)\<rparr>) = (inner s)\<lparr>outer := w\<rparr>" "inner (s\<lparr>laundry := l\<rparr>) = (inner s)\<lparr>laundry := l\<rparr>"
  "inner (s\<lparr>nextChan := n\<rparr>) = (inner s)\<lparr>nextChan := n\<rparr>" "inner (s\<lparr>registered := r\<rparr>) = (inner s)\<lparr>registered := r\<rparr>"
  "inner (s\<lparr>arrivals := a\<rparr>) = (inner s)\<lparr>arrivals := a\<rparr>" "inner (s\<lparr>logs := g\<rparr>) = (inner s)\<lparr>logs := g\<rparr>"
  by (simp_all add: inner_def)

lemma exec_fakes:
  "map_option (\<lambda>(y, s'). (y, inner s')) (exec (fake_ports wall ctx) cap p s) =
     exec (behind wall ctx (fst (outer s))) cap p (inner s)"
proof (induction p arbitrary: s)
  case (CallNow k)
  then show ?case by (cases "outer s") (simp add: fake_calls split_beta)
next
  case (CallGetStock k)
  then show ?case by (cases "outer s") (simp add: fake_calls split_beta)
next
  case (CallConsumeItem i q k)
  then show ?case by (cases "outer s") (simp add: fake_calls split_beta)
next
  case (CallRestockItem i q k)
  then show ?case by (cases "outer s") (simp add: fake_calls split_beta)
next
  case (CallUpdateCleaningStatus n v k)
  then show ?case by (cases "outer s") (simp add: fake_calls split_beta)
next
  case (AwaitHours c st h k)
  then show ?case by (simp split: option.split prod.split)
qed simp_all

lemma counted_refl: "counted f [] f"
  by (simp add: counted_def)

lemma awaited_counts: "awaited c pre \<Longrightarrow> counted f (pre @ es) f' = counted f es f'"
proof -
  assume a: "awaited c pre"
  have "calls P pre = 0" if "\<And>u. \<not> P (EvHour c u)" "\<not> P EvCtxDone" for P
    using a that by (induction pre) (auto simp: awaited_def)
  then show ?thesis by (simp add: counted_def)
qed

lemma exec_counts:
  "exec (fake_ports wall ctx) cap p s = Some (y, s') \<Longrightarrow>
   \<exists>es. runs p es y \<and> counted (fst (outer s)) es (fst (outer s'))"
proof (induction p arbitrary: s)
  case (Return x)
  then show ?case using counted_refl by (auto simp: runs_simps)
next
  case (CallNow k)
  then show ?case by (cases "outer s") (fastforce simp: fake_calls split_beta runs_simps counted_def)
next
  case (CallGetStock k)
  then show ?case by (cases "outer s") (fastforce simp: fake_calls split_beta runs_simps counted_def)
next
  case (CallConsumeItem i q k)
  then show ?case by (cases "outer s") (fastforce simp: fake_calls split_beta runs_simps counted_def)
next
  case (CallRestockItem i q k)
  then show ?case by (cases "outer s") (fastforce simp: fake_calls split_beta runs_simps counted_def)
next
  case (CallUpdateCleaningStatus n v k)
  then show ?case by (cases "outer s") (fastforce simp: fake_calls split_beta runs_simps counted_def)
next
  case (AwaitHours c st h k)
  then obtain t ts where a: "await st h (arrivals s) = Some (t, ts)"
    and "exec (fake_ports wall ctx) cap (k t) (s\<lparr>arrivals := ts\<rparr>) = Some (y, s')" by (auto split: option.splits prod.splits)
  with AwaitHours.IH [OF rangeI, of t "s\<lparr>arrivals := ts\<rparr>"] obtain es where
    es: "runs (k t) es y" "counted (fst (outer s)) es (fst (outer s'))" by auto
  then obtain pre where "runs (AwaitHours c st h k) (pre @ es) y" "awaited c pre"
    using await_runs [OF a, where k = k] by blast
  with es show ?case by (intro exI [of _ "pre @ es"]) (simp add: awaited_counts)
qed (fastforce split: if_splits simp: runs_simps counted_def)+

subsection \<open>A fake that keeps the contract\<close>

text \<open>
  The functions of a test that keep the laws of the port make the fake a stock repository, so
  what is proved for a client of the port holds for it on the fake.
\<close>

locale faked_stock = stock_repo GetStock ConsumeItem RestockItem qty inv up
  for GetStock :: "'w \<Rightarrow> (go_error + (string \<rightharpoonup> StockItem)) \<times> 'w"
    and ConsumeItem :: "string \<Rightarrow> int \<Rightarrow> 'w \<Rightarrow> go_error option \<times> 'w"
    and RestockItem :: "string \<Rightarrow> int \<Rightarrow> 'w \<Rightarrow> go_error option \<times> 'w"
    and qty :: "'w \<Rightarrow> string \<Rightarrow> int option" and inv :: "'w \<Rightarrow> bool" and up :: "'w \<Rightarrow> bool" +
  fixes ctx :: 'c
begin

definition backed :: "('c, 'w) FakeStockRepo \<Rightarrow> bool" where
  "backed f \<longleftrightarrow> GetStockFn f = Some (\<lambda>_. GetStock) \<and> ConsumeItemFn f = Some (\<lambda>_. ConsumeItem) \<and>
     RestockItemFn f = Some (\<lambda>_. RestockItem)"

lemma faked_get: "backed f \<Longrightarrow> fake_GetStock ctx f w = (r, f', w') \<Longrightarrow> GetStock w = (r, w') \<and> backed f'"
  by (auto simp: fake_GetStock_def delegate_def backed_def split: prod.splits)

lemma faked_consume:
  "backed f \<Longrightarrow> fake_ConsumeItem ctx i q f w = (e, f', w') \<Longrightarrow> ConsumeItem i q w = (e, w') \<and> backed f'"
  by (auto simp: fake_ConsumeItem_def delegate_def backed_def split: prod.splits)

lemma faked_restock:
  "backed f \<Longrightarrow> fake_RestockItem ctx i q f w = (e, f', w') \<Longrightarrow> RestockItem i q w = (e, w') \<and> backed f'"
  by (auto simp: fake_RestockItem_def delegate_def backed_def split: prod.splits)

end

sublocale faked_stock \<subseteq> faked: stock_repo "\<lambda>(f, w). fake_GetStock ctx f w"
  "\<lambda>i q (f, w). fake_ConsumeItem ctx i q f w" "\<lambda>i q (f, w). fake_RestockItem ctx i q f w"
  "\<lambda>(f, w). qty w" "\<lambda>(f, w). backed f \<and> inv w" "\<lambda>(f, w). up w"
proof (unfold_locales, goal_cases)
  case (1 w i)
  then show ?case using qty_managed by auto
next
  case (2 w r w')
  obtain f v f' v' where w: "w = (f, v)" "w' = (f', v')" by (cases w; cases w') blast
  from 2 faked_get [of f v r f' v'] get_frame [of v r v'] show ?case by (simp add: w)
next
  case (3 w m w')
  obtain f v f' v' where w: "w = (f, v)" "w' = (f', v')" by (cases w; cases w') blast
  from 3 faked_get [of f v "Inr m" f' v'] get_value [of v m v'] show ?case by (simp add: w)
next
  case (4 w i q w')
  obtain f v f' v' where w: "w = (f, v)" "w' = (f', v')" by (cases w; cases w') blast
  from 4 faked_consume [of f i q v None f' v'] consume_ok [of v i q v'] show ?case by (simp add: w)
next
  case (5 w i q e w' s)
  obtain f v f' v' where w: "w = (f, v)" "w' = (f', v')" by (cases w; cases w') blast
  from 5 faked_consume [of f i q v "Some e" f' v'] consume_insufficient [of v i q e v' s] show ?case by (simp add: w)
next
  case (6 w i q e w')
  obtain f v f' v' where w: "w = (f, v)" "w' = (f', v')" by (cases w; cases w') blast
  from 6 faked_consume [of f i q v "Some e" f' v'] consume_error [of v i q e v'] show ?case by (simp add: w)
next
  case (7 w i q e w')
  obtain f v f' v' where w: "w = (f, v)" "w' = (f', v')" by (cases w; cases w') blast
  from 7 faked_consume [of f i q v "Some e" f' v'] consume_up [of v i q e v'] show ?case by (simp add: w)
next
  case (8 w i q w')
  obtain f v f' v' where w: "w = (f, v)" "w' = (f', v')" by (cases w; cases w') blast
  from 8 faked_restock [of f i q v None f' v'] restock_ok [of v i q v'] show ?case by (simp add: w)
next
  case (9 w i q e w')
  obtain f v f' v' where w: "w = (f, v)" "w' = (f', v')" by (cases w; cases w') blast
  from 9 faked_restock [of f i q v "Some e" f' v'] restock_error [of v i q e v'] show ?case by (simp add: w)
next
  case (10 w i q)
  obtain f v where w: "w = (f, v)" by (cases w)
  obtain e f' v' where c: "fake_RestockItem ctx i q f v = (e, f', v')" by (cases "fake_RestockItem ctx i q f v") auto
  from 10 c show ?case using faked_restock [OF _ c] restock_up [of v i q] by (simp add: w)
qed

interpretation faked_mem: faked_stock "repo_GetStock mem_collection" "repo_ConsumeItem mem_collection"
  "repo_RestockItem mem_collection" "stock_qty docs" "one_stock docs" mem_up "()"
  by unfold_locales

subsection \<open>Properties\<close>

text \<open>C39: a test on fakes is a test of the service: a handler that runs on the fakes returns what it
  returns on the functions set behind them, sends the same laundry, makes the same registrations
  and logs the same lines (and blocks where it blocks there); and afterwards every fake has counted
  exactly the calls of that run.\<close>

theorem fakes_are_transparent:
  "map_option (\<lambda>(y, s'). (y, inner s')) (exec (fake_ports wall ctx) cap p s) =
     exec (behind wall ctx (fst (outer s))) cap p (inner s) \<and>
   (case exec (fake_ports wall ctx) cap p s of
      None \<Rightarrow> True
    | Some (y, s') \<Rightarrow> \<exists>es. runs p es y \<and> counted (fst (outer s)) es (fst (outer s')))"
  by (auto simp: exec_fakes dest: exec_counts split: option.split)

end
