(* ===== verification/Clock_Rpc.thy ===== *)
theory Clock_Rpc
  imports Integration_Helpers
begin

text \<open>
  The remote call behind the clock: the stub that \<^verbatim>\<open>protoc-gen-go-grpc\<close> generated from the service
  (\<^verbatim>\<open>infra/clock/nowService_grpc.pb.go\<close>), the clock server of the integration tests
  (\<^verbatim>\<open>integration_test/helpers/clock_helper.go\<close>), and the client on top of them. gRPC itself carries
  a call to the handler registered under its full name; that is a parameter with its documented
  behaviour (\<open>grpc_connection\<close>). \<open>'k\<close> is the state of the connection and of the server's clock.
\<close>

subsection \<open>The messages\<close>

record TimeEvent =
  Time :: "Timestamp option"

text \<open>The generated accessor reads a nil message as well.\<close>

definition GetTime :: "TimeEvent option \<Rightarrow> Timestamp option" where
  "GetTime x = (case x of Some e \<Rightarrow> Time e | None \<Rightarrow> None)"

text \<open>\<open>timestamppb.New\<close>: whole seconds, rounded down, and the nanoseconds left.\<close>

definition timestamppb_New :: "time \<Rightarrow> Timestamp" where
  "timestamppb_New t = \<lparr>Seconds = t div 10 ^ 9, Nanos = t mod 10 ^ 9\<rparr>"

lemma AsTime_New: "AsTime (Some (timestamppb_New t)) = t"
  by (simp add: AsTime_def timestamppb_New_def)

lemma New_nanos: "0 \<le> Nanos (timestamppb_New t) \<and> Nanos (timestamppb_New t) < 10 ^ 9"
  by (simp add: timestamppb_New_def)

subsection \<open>The generated stub (nowService\_grpc.pb.go)\<close>

text \<open>A method of a server: an error, or a message that may be nil.\<close>

type_synonym 'k rpc_method = "'k \<Rightarrow> (go_error + TimeEvent option) \<times> 'k"

definition ClockService_Now_FullMethodName :: string where
  "ClockService_Now_FullMethodName = ''/clock.ClockService/Now''"

definition clockServiceClient_Now ::
    "(string \<Rightarrow> 'k \<Rightarrow> (go_error + TimeEvent) \<times> 'k) \<Rightarrow> 'k \<Rightarrow> (go_error + TimeEvent) \<times> 'k" where
  "clockServiceClient_Now Invoke k =
     (case Invoke ClockService_Now_FullMethodName k of
        (Inl err, k') \<Rightarrow> (Inl err, k')
      | (Inr out, k') \<Rightarrow> (Inr out, k'))"

definition unimplemented :: go_error where
  "unimplemented = ErrorString ''rpc error: code = Unimplemented desc = method Now not implemented''"

definition UnimplementedClockServiceServer_Now :: "'k rpc_method" where
  "UnimplementedClockServiceServer_Now k = (Inl unimplemented, k)"

text \<open>An interceptor is given the name of the method and the handler to go on with.\<close>

type_synonym 'k interceptor = "string \<Rightarrow> 'k rpc_method \<Rightarrow> 'k rpc_method"

definition ClockService_Now_Handler ::
    "'k rpc_method \<Rightarrow> go_error option \<Rightarrow> 'k interceptor option \<Rightarrow> 'k rpc_method" where
  "ClockService_Now_Handler srv dec_err interceptor k =
     (case dec_err of
        Some err \<Rightarrow> (Inl err, k)
      | None \<Rightarrow>
          (case interceptor of
             None \<Rightarrow> srv k
           | Some ic \<Rightarrow> ic ClockService_Now_FullMethodName srv k))"

record 'k MethodDesc =
  MethodName :: string
  Handler :: "'k rpc_method \<Rightarrow> go_error option \<Rightarrow> 'k interceptor option \<Rightarrow> 'k rpc_method"

record 'k ServiceDesc =
  RpcServiceName :: string
  Methods :: "'k MethodDesc list"

definition ClockService_ServiceDesc :: "'k ServiceDesc" where
  "ClockService_ServiceDesc =
     \<lparr>RpcServiceName = ''clock.ClockService'', Methods = [\<lparr>MethodName = ''Now'', Handler = ClockService_Now_Handler\<rparr>]\<rparr>"

type_synonym 'k services = "('k ServiceDesc \<times> 'k rpc_method) list"

definition RegisterClockServiceServer :: "'k services \<Rightarrow> 'k rpc_method \<Rightarrow> 'k services" where
  "RegisterClockServiceServer s srv = s @ [(ClockService_ServiceDesc, srv)]"

subsection \<open>The connection\<close>

text \<open>The handler that a full method name stands for: \<open>/service/method\<close>.\<close>

definition full_name :: "string \<Rightarrow> string \<Rightarrow> string" where
  "full_name svc method = ''/'' @ svc @ ''/'' @ method"

definition handler_of :: "'k services \<Rightarrow> string \<Rightarrow> 'k rpc_method option" where
  "handler_of s m =
     map_of (concat (map (\<lambda>(d, srv). map (\<lambda>md. (full_name (RpcServiceName d) (MethodName md), Handler md srv None None)) (Methods d)) s)) m"

text \<open>
  A connection that is \<open>up\<close> calls the registered handler once and gives its reply back; an error
  of the handler arrives as an error (a status of its own).
\<close>

locale grpc_connection =
  fixes Invoke :: "string \<Rightarrow> 'k \<Rightarrow> (go_error + TimeEvent) \<times> 'k"
    and services :: "'k services"
    and up :: "'k \<Rightarrow> bool"
  assumes reply: "up k \<Longrightarrow> handler_of services m = Some h \<Longrightarrow> h k = (Inr (Some e), k') \<Longrightarrow> Invoke m k = (Inr e, k') \<and> up k'"
    and failure: "up k \<Longrightarrow> handler_of services m = Some h \<Longrightarrow> h k = (Inl err, k') \<Longrightarrow>
      \<exists>err'. Invoke m k = (Inl err', k') \<and> up k'"
begin

lemma client_now:
  assumes "up k" "handler_of services ClockService_Now_FullMethodName = Some srv"
  shows "srv k = (Inr (Some e), k') \<Longrightarrow> clockServiceClient_Now Invoke k = (Inr e, k') \<and> up k'"
    and "srv k = (Inl err, k') \<Longrightarrow> \<exists>err'. clockServiceClient_Now Invoke k = (Inl err', k') \<and> up k'"
  using reply [OF assms] failure [OF assms] by (auto simp: clockServiceClient_Now_def)

end

text \<open>The handler found for the clock is the server's method.\<close>

lemma handler_registered:
  "handler_of (RegisterClockServiceServer [] srv) ClockService_Now_FullMethodName = Some srv"
proof -
  have "ClockService_Now_Handler srv None None = srv" by (rule ext) (simp add: ClockService_Now_Handler_def)
  then show ?thesis
    by (simp add: handler_of_def RegisterClockServiceServer_def ClockService_ServiceDesc_def full_name_def
        ClockService_Now_FullMethodName_def)
qed

text \<open>A connection within the process.\<close>

definition direct_Invoke :: "'k services \<Rightarrow> string \<Rightarrow> 'k \<Rightarrow> (go_error + TimeEvent) \<times> 'k" where
  "direct_Invoke s m k =
     (case handler_of s m of
        None \<Rightarrow> (Inl unimplemented, k)
      | Some h \<Rightarrow>
          (case h k of
             (Inl err, k') \<Rightarrow> (Inl err, k')
           | (Inr None, k') \<Rightarrow> (Inl (ErrorString ''nil message''), k')
           | (Inr (Some e), k') \<Rightarrow> (Inr e, k')))"

interpretation direct: grpc_connection "direct_Invoke s" s "\<lambda>_. True" for s
  by unfold_locales (simp_all add: direct_Invoke_def)

subsection \<open>The clock server of the tests (clock\_helper.go)\<close>

text \<open>\<open>timestamppb.Now()\<close> reads the clock of the machine, \<open>clk\<close>.\<close>

definition fakeClockServer_Now :: "('k \<Rightarrow> time \<times> 'k) \<Rightarrow> 'k rpc_method" where
  "fakeClockServer_Now clk k = (case clk k of (t, k') \<Rightarrow> (Inr (Some \<lparr>Time = Some (timestamppb_New t)\<rparr>), k'))"

text \<open>
  The outcome of \<open>net.Listen\<close>: an error, or the listener's port (none for an address that is not
  TCP, with the name of its type). The result is the message of the failure, or the address
  with what is served there.
\<close>

definition startFakeClockServer ::
    "('k \<Rightarrow> time \<times> 'k) \<Rightarrow> go_error + (string + int) \<Rightarrow> string + string \<times> int \<times> 'k services" where
  "startFakeClockServer clk listen =
     (case listen of
        Inl err \<Rightarrow> Inl (''listen fake clock: '' @ Error_db err)
      | Inr (Inl addr_type) \<Rightarrow> Inl (''unexpected addr type: '' @ addr_type)
      | Inr (Inr tcp_port) \<Rightarrow>
          Inr (''127.0.0.1'', tcp_port, RegisterClockServiceServer [] (fakeClockServer_Now clk)))"

text \<open>What the returned function stops, in order; \<open>StartClockEmulator\<close> leaves it to the end of the test.\<close>

datatype clock_stop = GracefulStop | CloseListener

definition stop_clock :: "clock_stop list" where
  "stop_clock = [GracefulStop, CloseListener]"

definition StartClockEmulator ::
    "('k \<Rightarrow> time \<times> 'k) \<Rightarrow> go_error + (string + int) \<Rightarrow> (string + string \<times> int) \<times> clock_stop list" where
  "StartClockEmulator clk listen =
     (case startFakeClockServer clk listen of
        Inl msg \<Rightarrow> (Inl msg, [])
      | Inr (clockHost, clockPort, served) \<Rightarrow> (Inr (clockHost, clockPort), stop_clock))"

text \<open>\<open>network_helper.go\<close>: a port that was free when it was asked for.\<close>

definition FreeTCPPort :: "go_error + int \<Rightarrow> string + int" where
  "FreeTCPPort listen =
     (case listen of Inl err \<Rightarrow> Inl (''listen on ephemeral port: '' @ Error_db err) | Inr tcp_port \<Rightarrow> Inr tcp_port)"

subsection \<open>The clock of the service over the remote call\<close>

text \<open>The remote call as the clock client makes it: the field of the reply.\<close>

definition clock_rpc :: "(string \<Rightarrow> 'k \<Rightarrow> (go_error + TimeEvent) \<times> 'k) \<Rightarrow> 'k \<Rightarrow> (go_error + Timestamp option) \<times> 'k" where
  "clock_rpc Invoke k =
     (case clockServiceClient_Now Invoke k of
        (Inl err, k') \<Rightarrow> (Inl err, k')
      | (Inr createTime, k') \<Rightarrow> (Inr (Time createTime), k'))"

context grpc_connection
begin

lemma clock_of_server:
  assumes "services = RegisterClockServiceServer [] (fakeClockServer_Now clk)" "up k" "clk k = (t, k')"
  shows "clock_rpc Invoke k = (Inr (Some (timestamppb_New t)), k') \<and> up k'"
proof -
  have h: "handler_of services ClockService_Now_FullMethodName = Some (fakeClockServer_Now clk)"
    unfolding assms(1) by (rule handler_registered)
  have "fakeClockServer_Now clk k = (Inr (Some \<lparr>Time = Some (timestamppb_New t)\<rparr>), k')"
    by (simp add: fakeClockServer_Now_def assms(3))
  from client_now(1) [OF assms(2) h this] show ?thesis by (simp add: clock_rpc_def)
qed

lemma clock_of_no_server:
  assumes "services = RegisterClockServiceServer [] UnimplementedClockServiceServer_Now" "up k"
  shows "\<exists>err. clock_rpc Invoke k = (Inl err, k) \<and> up k"
proof -
  have h: "handler_of services ClockService_Now_FullMethodName = Some UnimplementedClockServiceServer_Now"
    unfolding assms(1) by (rule handler_registered)
  from client_now(2) [OF assms(2) h UnimplementedClockServiceServer_Now_def] show ?thesis
    by (auto simp: clock_rpc_def)
qed

text \<open>With the clock server behind it the connection is the clock that the service needs.\<close>

lemma clock_contract_of_server:
  assumes "services = RegisterClockServiceServer [] (fakeClockServer_Now clk)"
  shows "clock_contract (clock_rpc Invoke) up"
  unfolding clock_contract_def
proof (intro allI impI)
  fix k r k'
  assume c: "up k \<and> clock_rpc Invoke k = (r, k')"
  obtain t k1 where "clk k = (t, k1)" by fastforce
  with clock_of_server [OF assms] c show "up k' \<and> \<not> isl r" by fastforce
qed

end

text \<open>The ports of the service with the clock reached through the stub.\<close>

definition counting_clock :: "time \<Rightarrow> time \<times> time" where
  "counting_clock k = (k, k + 1)"

interpretation rpc_app: app_storage mem_collection docs mem_up mem_collection docs mem_up
  "clock_rpc (direct_Invoke (RegisterClockServiceServer [] (fakeClockServer_Now counting_clock)))" "\<lambda>_. True"
  using direct.clock_contract_of_server [OF HOL.refl, of counting_clock]
  by unfold_locales (auto simp: clock_contract_def)

subsection \<open>Properties\<close>

text \<open>C32: an instant survives the way from the clock to the service: through the server's message of
  seconds and nanoseconds, the generated handler and stub, any connection that works and the
  clock client, the service reads exactly the instant at which the server was asked, once per
  call; a server that does not implement the method gives an error, never an instant.\<close>

theorem clock_call_roundtrip:
  assumes "grpc_connection Invoke (RegisterClockServiceServer [] (fakeClockServer_Now clk)) up" "up k" "clk k = (t, k')"
    and "grpc_connection Invoke' (RegisterClockServiceServer [] UnimplementedClockServiceServer_Now) up"
  shows "clock_Now (clock_rpc Invoke) k = (Inr t, k') \<and> up k' \<and> isl (fst (clock_Now (clock_rpc Invoke') k))"
  using grpc_connection.clock_of_server [OF assms(1) HOL.refl assms(2,3)]
    grpc_connection.clock_of_no_server [OF assms(4) HOL.refl assms(2)]
  by (auto simp: clock_Now_def AsTime_New)

theorem clock_call_roundtrip_witness:
  "clock_Now (clock_rpc (direct_Invoke (RegisterClockServiceServer [] (fakeClockServer_Now counting_clock)))) (- 1) =
     (Inr (- 1), 0)"
proof -
  have "counting_clock (- 1) = (- 1, 0)" by (simp add: counting_clock_def)
  then show ?thesis
    using clock_call_roundtrip [of "direct_Invoke (RegisterClockServiceServer [] (fakeClockServer_Now counting_clock))"
      counting_clock "\<lambda>_. True" "- 1" "- 1" 0 "direct_Invoke (RegisterClockServiceServer [] UnimplementedClockServiceServer_Now)"]
      direct.grpc_connection_axioms by blast
qed

end
