(* ===== verification/Spec2Isabelle.thy ===== *)
theory Spec2Isabelle
  imports Env_Config Fakes Clock_Rpc
begin

text \<open>
  A verification development for the staff simulator, a Go service that plays the staff of a
  hotel of cottages (sources under \<^verbatim>\<open>src/internal\<close>).

  \<^bold>\<open>The program.\<close> Cleaning requests arrive from RabbitMQ at the manager, which acknowledges
  them and passes them on to a channel of 32 places. Housekeepers take them from there, consume
  items of the stock in MongoDB (with one immediate restock and one retry when there is too
  little), send towels and linens to the launderers through a second channel of 32 places, and
  set the cleaning status of the cottage. Launderers consume soap and wait for the end of the
  cycle by subscribing to the hour changes; at every day change the manager sends a random choice
  of items to the stockers (a channel of 16 places), which refill what is below the minimum. The
  hours and days come from two more queues and are spread by the time event service.

  \<^bold>\<open>Theories, bottom up.\<close>
  \<^item> \<open>Prelude\<close>: decimal numerals, \<open>update_first\<close>, the collections \<open>go_defs\<close> and
    \<open>prog_simps\<close>.
  \<^item> \<open>Errors\<close> (\<^verbatim>\<open>domain/errors\<close>): one datatype of errors, their texts, \<open>errors.As\<close> and
    \<open>errors.Is\<close> along \<open>Unwrap\<close>.
  \<^item> \<open>Validation\<close> (\<^verbatim>\<open>app/validation\<close>): the validator as its list of steps; what
    \<open>strings.TrimSpace\<close> and the two regular expressions accept.
  \<^item> \<open>Domain\<close> (\<^verbatim>\<open>domain\<close>): requests, the set, the stock document and \<open>AsMap\<close>; instants as
    nanoseconds with the saturation of \<open>Time.Sub\<close>.
  \<^item> \<open>Mongo\<close>: what the repositories use of a MongoDB collection, as named contracts
    (\<open>find_contract\<close>, \<open>update_contract\<close>, \<open>decode_contract\<close>), and a collection in memory with
    outages (\<open>mem_collection\<close>) that satisfies them.
  \<^item> \<open>Effects\<close>: handlers as effect trees (\<open>prog\<close>): every call to a repository, the clock, the
    registry of time events, a channel or the log is a node that waits for any answer of the
    environment. \<open>runs p es x\<close> holds for every sequence of events \<open>es\<close> with which \<open>p\<close> can return
    \<open>x\<close>; \<open>lstep\<close> is one step, so that handlers interleave.
  \<^item> \<open>Ports\<close> (\<^verbatim>\<open>port\<close>): the interfaces as locales \<open>stock_repo\<close> and \<open>cottage_repo\<close>, and
    \<open>exec\<close>, the run of one handler alone on given repositories.
  \<^item> \<open>Stock_Repo\<close>, \<open>Cottage_Repo\<close> (\<^verbatim>\<open>infra/mdb\<close>): the repositories over any collection, and
    the interpretations of the two interfaces on them.
  \<^item> \<open>Employee_Service\<close> (\<^verbatim>\<open>app/employee_service.go\<close>, \<^verbatim>\<open>employee_metrics_service.go\<close>): the
    table of employees; \<open>Work\<close> as a transition system of goroutines, a shared channel and a
    context, for any handler.
  \<^item> \<open>Stocker_Service\<close>, \<open>Housekeeper_Service\<close>, \<open>Launderer_Service\<close> (\<^verbatim>\<open>app\<close>): the three
    handlers. Each theory first shows what every run does, whatever the environment answers, and
    then, in a locale (\<open>stock_ports\<close>, \<open>housekeeper_ports\<close>, \<open>clocked_stock\<close>), what a run alone
    leaves in the stock.
  \<^item> \<open>Messages\<close> (\<^verbatim>\<open>app/utils.go\<close>, \<^verbatim>\<open>domain/dto\<close>): decoding of the two kinds of message.
  \<^item> \<open>App_Storage\<close>: the repositories and the clock as \<open>init.go\<close> wires them, and the locales of
    the handlers interpreted on them.
  \<^item> \<open>Shared_Calls\<close>: one call of a handler on the shared database, and what it does to the
    level of an item.
  \<^item> \<open>Time_Events\<close> (\<^verbatim>\<open>app/time_event_notification_service.go\<close>): the registry and its loop.
  \<^item> \<open>Manager_Service\<close> (\<^verbatim>\<open>app/manager_service.go\<close>): the loop of the manager, its two blocking
    sends as states of their own, what each step settles and logs, and the random selection with
    the draws as a parameter.
  \<^item> \<open>Mq\<close> (\<^verbatim>\<open>infra/mq\<close>, \<^verbatim>\<open>infra/init.go\<close>, \<^verbatim>\<open>config/rabbitmq_config.go\<close>): connection, channel,
    consumer and producer over the amqp library (the record \<open>amqp\<close>).
  \<^item> \<open>Startup\<close> (\<^verbatim>\<open>app/init.go\<close>, \<^verbatim>\<open>main.go\<close>, \<^verbatim>\<open>infra/mdb/mongo_db.go\<close>, \<^verbatim>\<open>transport/http/probe\<close>):
    constructors, wiring, the MongoDB client with its options and timeouts, probes, and \<open>run\<close> and
    \<open>shutdown\<close> as sequences of stages and resources that succeed or fail.
  \<^item> \<open>Service\<close> (\<^verbatim>\<open>Services.Start\<close> in \<^verbatim>\<open>app/init.go\<close>): the manager, the three pools and the database
    as one transition system. A step of the service is a step of one part together with its
    other side (a send is an \<open>Enqueue\<close>, a receive takes from the manager's channel, a call is
    answered by the database), so every run projects to a run of each part
    (\<open>svc_parts\<close>) and the lemmas of the parts carry over: the order of requests across
    the channels, the origin of the laundry, the books of the stock, the shutdown that hangs.
  \<^item> \<open>Timed_Service\<close>: the same service together with the time event service. Launderers and the
    manager own the channels they register (\<open>owns\<close>, \<open>owners\<close>), a delivery of a time event
    fills the channels subscribed to it, and every step in time is a step of \<open>Service\<close>
    (\<open>timed_core\<close>): the subscriptions mirror the staff, and an hour change wakes the launderer.
  \<^item> \<open>Telemetry\<close> (\<^verbatim>\<open>infra/telemetry\<close>, \<^verbatim>\<open>infra/logging\<close>): start and shutdown of the providers,
    the spans of deliveries, the headers as the carrier of the trace (locale
    \<open>text_map_carrier\<close>), the log handler.
  \<^item> \<open>Transport\<close> (\<^verbatim>\<open>transport/http_server.go\<close>, \<^verbatim>\<open>config/config.go\<close> and the rest of \<^verbatim>\<open>infra\<close>): the
    HTTP server and its routes, the configuration, the making of the clients.
  \<^item> \<open>Fakes\<close> (\<^verbatim>\<open>infra/fakes\<close>): the doubles of the unit tests; a handler runs on them through the
    same ports, and \<open>faked_stock\<close> shows which fakes are stock repositories.
  \<^item> \<open>Integration_Helpers\<close> (\<^verbatim>\<open>integration_test/helpers\<close>): the environment and the start of the
    application under test, the writer that marks its output (locale \<open>io_writer\<close>), the containers
    and the fixtures.
  \<^item> \<open>Clock_Rpc\<close> (\<^verbatim>\<open>infra/clock/nowService_grpc.pb.go\<close>, \<^verbatim>\<open>integration_test/helpers/clock_helper.go\<close>):
    the remote call of the clock from end to end: client stub, handler, service description and the
    clock server of the tests, over a gRPC connection (locale \<open>grpc_connection\<close>).
  \<^item> \<open>Program\<close> (\<^verbatim>\<open>main.go\<close>): the process. \<open>start_up\<close> and \<open>program_shutdown\<close> are \<open>run\<close> and \<open>shutdown\<close>
    over the models of the clients they start and close, and refine the stages of \<open>Startup\<close>
    (\<open>start_up_run\<close>, \<open>program_shutdown_spec\<close>); \<open>prog_step\<close> adds the steps of \<open>Timed_Service\<close>
    between them and the exit status: when the process exits, with what, and what is lost then.
  \<^item> \<open>Env_Config\<close> (\<^verbatim>\<open>config/config.go\<close>, \<^verbatim>\<open>config/rabbitmq_config.go\<close>): the tags of the configuration
    beside the fields they fill, the parser of the environment as a locale (\<open>env_parser\<close>), and
    what the start needs of the environment, the documented one included.

  \<^bold>\<open>How state corresponds.\<close> A Go struct is a record with its fields, a nil pointer or
  interface the empty option (or \<open>NilInterface\<close>), an error value \<open>go_error option\<close> or the left
  side of a sum, a panic a result of its own (\<open>Panicked\<close>). A map is a HOL map; where Go ranges over
  a map or a set, the order is any enumeration. A method with a receiver takes the record and
  returns the new one; mutex sections are one step. Go's \<open>int\<close> is \<open>int\<close>: the quantities, counts
  and durations of the service stay far below the 64 bits, except in \<open>Time.Sub\<close>, whose saturation
  is written out.

  \<^bold>\<open>Hypotheses.\<close> Code outside the repository is a parameter: the MongoDB driver, amqp, protobuf,
  the clock's remote call, the random generator. Theorems that rely on it name its contract
  (\<open>mongo_contract\<close>, \<open>storage_contract\<close>, \<open>enum_contract\<close>, \<open>rand_ok\<close>, \<open>grpc_connection\<close>,
  \<open>env_parser\<close>), and their witnesses
  instantiate it with a concrete function.

  \<^bold>\<open>Bounds and termination.\<close> No definition uses fuel. Effect trees are finite; a loop that waits
  for a message is a step relation (manager, time events, employees) or a node that takes any
  finite number of messages (\<open>AwaitHours\<close>). The loop of dial attempts is structural in the
  attempts that are left; \<open>trim_front\<close>, \<open>write_loop\<close> and \<open>cut_from\<close> end by the length of what is
  left of the text. \<open>exec\<close> and \<open>waitForMongoReady\<close> return \<open>None\<close> where
  the real handler would block for ever; the theorems about solo runs prove that it returns.

  \<^bold>\<open>Not modelled.\<close> Where the services start spans, and the attributes of their log lines (the
  level and message of each line are modelled); what the tracer, the exporters and the meter do;
  what the configuration library does with values beyond its documented conversions; listening and
  dialling; what the MongoDB driver does with its options; the wire format, descriptors and
  reflection of protobuf and the transport of gRPC. In \<open>Program\<close> the states of the clients between
  start and shutdown are any, as every goroutine uses them; the duration of the shutdown (its
  five seconds) is the clients' business.
\<close>

section \<open>Properties that span components\<close>



text \<open>Whatever happens in a wash, replaying the launderer's calls on the registry of time events
  leaves the subscribers of both kinds of event as they were, as the channel it makes is new.\<close>

theorem launderer_restores_registry:
  assumes "runs (launderer_work wired n request) es u"
    and "\<forall>c \<in> subscribers timeEventHourChange s. EvMakeTimeChan c \<notin> set es"
  shows "subscribers e (replay Register Unregister (registrations es) s) = subscribers e s"
proof -
  have "registrations es = [] \<or>
      (\<exists>c. EvMakeTimeChan c \<in> set es \<and>
         registrations es = [(True, timeEventHourChange, c), (False, timeEventHourChange, c)])"
    using launderer_registrations [OF assms(1)] by blast
  then show ?thesis
  proof
    assume "registrations es = []"
    then show ?thesis by simp
  next
    assume "\<exists>c. EvMakeTimeChan c \<in> set es \<and>
         registrations es = [(True, timeEventHourChange, c), (False, timeEventHourChange, c)]"
    then obtain c where c: "EvMakeTimeChan c \<in> set es"
      "registrations es = [(True, timeEventHourChange, c), (False, timeEventHourChange, c)]" by blast
    with assms(2) have "c \<notin> subscribers timeEventHourChange s" by blast
    from tens.pair_restores [OF this] show ?thesis by (simp only: c(2))
  qed
qed

theorem launderer_restores_registry_witness:
  "subscribers timeEventHourChange
     (replay Register Unregister (registrations example_wash_run)
        (Register timeEventHourChange (Some 3) new_registry)) = {3}"
proof -
  let ?s = "Register timeEventHourChange (Some 3) new_registry"
  have s: "subscribers timeEventHourChange ?s = {3}"
    by (simp add: Register_def subscribers_def new_registry_def)
  then have "\<forall>c \<in> subscribers timeEventHourChange ?s. EvMakeTimeChan c \<notin> set example_wash_run"
    by (simp add: example_wash_run_def)
  from launderer_restores_registry [OF example_wash_runs this] s show ?thesis by simp
qed

text \<open>C33: what the manager asks for after a day change, whatever the random draws, is a request the
  stockers can serve: carried out alone on healthy servers it returns with each of the chosen items,
  at least one and no more than the nine, at the minimum or above.\<close>

theorem daily_restock_reaches_minimum:
  assumes "storage_contract Cs scontent s_up Cc ccontent c_up rpc k_up"
    and "storage_inv scontent ccontent (outer s)" "storage_up s_up c_up k_up (outer s)" "rand_ok draw drawn"
  shows "\<exists>s'. exec (repo_ports Cs Cc rpc) cap (stocker_work n \<lparr>ItemsName = selectItemsToRestock draw drawn\<rparr>) s = Some ((), s') \<and>
    card {i. \<exists>m. storage_qty scontent (outer s') i = Some m \<and> minimumStockQuantity \<le> m} \<ge> drawn + 1 \<and>
    (\<forall>i \<in> set (selectItemsToRestock draw drawn).
       \<exists>m. storage_qty scontent (outer s') i = Some m \<and> minimumStockQuantity \<le> m)"
proof -
  let ?items = "selectItemsToRestock draw drawn"
  let ?P = "repo_ports Cs Cc rpc"
  note stk = app_storage.as_stock [OF storage_contract_locale [OF assms(1)]]
  note sel = selected_items [OF assms(4)]
  from stock_ports.exec_stocker_work [OF stk assms(2,3), of "\<lparr>ItemsName = ?items\<rparr>" cap n] sel(1,2) obtain s' where
    s': "exec ?P cap (stocker_work n \<lparr>ItemsName = ?items\<rparr>) s = Some ((), s')"
    "storage_inv scontent ccontent (outer s')"
    "storage_qty scontent (outer s') = restocked (storage_qty scontent (outer s)) ?items" by auto
  have enough: "\<exists>m. storage_qty scontent (outer s') i = Some m \<and> minimumStockQuantity \<le> m" if "i \<in> set ?items" for i
    using stock_ports.restocked_enough [OF stk assms(2) that] sel(2) that s'(3) by auto
  let ?good = "{i. \<exists>m. storage_qty scontent (outer s') i = Some m \<and> minimumStockQuantity \<le> m}"
  have "?good \<subseteq> set ManagedStockItemNames"
    using stock_level_managed by (fastforce simp: storage_qty_def)
  then have "finite ?good" by (rule finite_subset) simp
  moreover have "set ?items \<subseteq> ?good" using enough by blast
  ultimately have "card (set ?items) \<le> card ?good" by (rule card_mono)
  then have "drawn + 1 \<le> card ?good" using distinct_card [OF sel(1)] sel(3) by simp
  with s'(1) enough show ?thesis by blast
qed

theorem daily_restock_reaches_minimum_witness:
  "\<exists>s' m. exec (repo_ports mem_collection mem_collection mem_rpc) 32
       (stocker_work ''sam'' \<lparr>ItemsName = selectItemsToRestock (\<lambda>i. 0) 2\<rparr>) (example_solo []) = Some ((), s') \<and>
     storage_qty docs (outer s') AromaCandle = Some m \<and> 10 \<le> m"
proof -
  have "AromaCandle \<in> set (selectItemsToRestock (\<lambda>i. 0) 2)" by code_simp
  moreover have "rand_ok (\<lambda>i. 0) 2" by (simp add: rand_ok_def)
  ultimately show ?thesis
    using daily_restock_reaches_minimum [OF mem_storage_contract example_storage_ok, of "\<lambda>i. 0" 2 32 "''sam''" "[]"]
    by (auto simp: minimumStockQuantity_def)
qed

end
